(* ===== verification/Akri_Prelude.thy ===== *)
theory Akri_Prelude
  imports Main "HOL-Library.AList" "HOL-Library.State_Monad"
begin

text \<open>
  The prelude of the Akri development: the outcome type of Rust's fallible functions,
  the state monad that stands for \<open>async\<close> code talking to its environment, a small
  weakest-precondition calculus for it, Rust's \<open>HashMap\<close> as association lists, and the
  string operations (\<open>format!\<close>, \<open>str::replace\<close>, integer printing) the sources use.
  The collections \<open>wp_rules\<close> and \<open>hashmap_simps\<close> carry the component proofs.
\<close>

section \<open>Outcomes\<close>

text \<open>
  A Rust function of type \<open>Result<T, E>\<close> returns \<open>Ok\<close> or \<open>Err\<close>; it can also panic
  (\<open>unwrap\<close>, \<open>expect\<close>, \<open>panic!\<close>), which ends the surrounding task. A \<open>match\<close> on a result
  sees the first two only, so the third is a constructor of its own.
\<close>

datatype ('a, 'e) result = Ok 'a | Err 'e | Panic string

fun is_ok :: "('a, 'e) result \<Rightarrow> bool" where
  "is_ok (Ok _) = True"
| "is_ok _ = False"

fun is_panic :: "('a, 'e) result \<Rightarrow> bool" where
  "is_panic (Panic _) = True"
| "is_panic _ = False"

lemma is_ok_iff: "is_ok r \<longleftrightarrow> (\<exists>a. r = Ok a)"
  by (cases r) auto

text \<open>
  The boxed error type of the sources: an error response of the API server with its HTTP
  code, any other error of the Kubernetes client, or a message built with \<open>format!\<close>.
\<close>

datatype error = ApiError nat | KubeError string | Msg string

section \<open>The state monad and its weakest preconditions\<close>

text \<open>
  \<open>('s, 'a) state\<close> of the library is a computation that reads and writes an environment
  of type \<open>'s\<close>. An awaited call is one step of it. Whatever other nodes do between two
  calls is part of the second call's effect on the environment, so a statement about every
  interface holds under every interleaving with the rest of the cluster.
\<close>

type_synonym ('s, 'a) io = "('s, ('a, error) result) state"

abbreviation return :: "'a \<Rightarrow> ('s, 'a) state" where
  "return \<equiv> State_Monad.return"

definition wp :: "('s, 'a) state \<Rightarrow> ('a \<Rightarrow> 's \<Rightarrow> bool) \<Rightarrow> 's \<Rightarrow> bool" where
  "wp m Q s = (case run_state m s of (a, s') \<Rightarrow> Q a s')"

named_theorems wp_rules "introduction rules for wp of the operations of an interface"

lemma wp_return [simp]: "wp (return a) Q = Q a"
  by (simp add: wp_def fun_eq_iff)

lemma wp_bind [simp]: "wp (State_Monad.bind m f) Q = wp m (\<lambda>a. wp (f a) Q)"
  by (simp add: wp_def fun_eq_iff split: prod.split)

lemma wp_mono: "wp m P s \<Longrightarrow> (\<And>a s'. P a s' \<Longrightarrow> Q a s') \<Longrightarrow> wp m Q s"
  by (auto simp: wp_def split: prod.splits)

lemma wp_conj: "wp m (\<lambda>a s'. P a s' \<and> Q a s') s \<longleftrightarrow> wp m P s \<and> wp m Q s"
  by (auto simp: wp_def split: prod.splits)

lemma wp_run: "wp m Q s \<Longrightarrow> run_state m s = (a, s') \<Longrightarrow> Q a s'"
  by (simp add: wp_def)

lemma wp_runI: "(\<And>a s'. run_state m s = (a, s') \<Longrightarrow> Q a s') \<Longrightarrow> wp m Q s"
  by (auto simp: wp_def split: prod.split)

lemma wp_any: "(\<And>a s'. Q a s') \<Longrightarrow> wp m Q s"
  by (simp add: wp_def split: prod.split)

lemma wp_trivial [simp]: "wp m (\<lambda>_ _. True) s"
  by (simp add: wp_def split: prod.split)

text \<open>The operator \<open>?\<close>: go on with the value, or return the error (or the panic) at once.\<close>

definition try_then :: "('s, ('a, 'e) result) state \<Rightarrow> ('a \<Rightarrow> ('s, ('b, 'e) result) state)
    \<Rightarrow> ('s, ('b, 'e) result) state" where
  "try_then m f = State_Monad.bind m (\<lambda>r. case r of
       Ok a \<Rightarrow> f a
     | Err e \<Rightarrow> return (Err e)
     | Panic p \<Rightarrow> return (Panic p))"

lemma wp_try_then [simp]:
  "wp (try_then m f) Q = wp m (\<lambda>r s. case r of Ok a \<Rightarrow> wp (f a) Q s
      | Err e \<Rightarrow> Q (Err e) s | Panic p \<Rightarrow> Q (Panic p) s)"
  unfolding try_then_def wp_bind by (rule arg_cong [where f = "wp m"]) (auto simp: fun_eq_iff split: result.split)

text \<open>A first step that is known to succeed.\<close>

lemma wp_try_then_ok:
  assumes "wp m (\<lambda>r s'. r = Ok a \<and> P s') s" "\<And>s'. P s' \<Longrightarrow> wp (f a) Q s'"
  shows "wp (try_then m f) Q s"
  unfolding wp_try_then by (rule wp_mono [OF assms(1)]) (use assms(2) in auto)

text \<open>A pure step that may fail: \<open>x.ok_or(e)?\<close> and \<open>x.unwrap()\<close>.\<close>

fun ok_or :: "'a option \<Rightarrow> 'e \<Rightarrow> ('a, 'e) result" where
  "ok_or (Some a) _ = Ok a"
| "ok_or None e = Err e"

fun unwrap :: "'a option \<Rightarrow> ('a, 'e) result" where
  "unwrap (Some a) = Ok a"
| "unwrap None = Panic ''called Option::unwrap() on a None value''"

lemma ok_or_eq [simp]:
  "ok_or x e = Ok a \<longleftrightarrow> x = Some a" "ok_or x e = Err e' \<longleftrightarrow> x = None \<and> e' = e"
  "ok_or x e \<noteq> Panic p"
  by (cases x; auto)+

lemma unwrap_eq [simp]:
  "unwrap x = Ok a \<longleftrightarrow> x = Some a" "unwrap x \<noteq> Err e"
  by (cases x; auto)+

text \<open>\<open>.unwrap()\<close> on a result.\<close>

fun unwrap_ok :: "('a, 'e) result \<Rightarrow> ('a, 'e) result" where
  "unwrap_ok (Ok a) = Ok a"
| "unwrap_ok (Err e) = Panic ''called Result::unwrap() on an Err value''"
| "unwrap_ok (Panic p) = Panic p"

lemma is_ok_unwrap [simp]: "is_ok (unwrap_ok r) = is_ok r" "unwrap_ok r = Ok a \<longleftrightarrow> r = Ok a"
  by (cases r; simp)+

definition unwrapped :: "('s, ('a, 'e) result) state \<Rightarrow> ('s, ('a, 'e) result) state" where
  "unwrapped m = do { r \<leftarrow> m; return (unwrap_ok r) }"

lemma wp_unwrapped: "wp (unwrapped m) Q = wp m (\<lambda>r. Q (unwrap_ok r))"
  by (simp add: unwrapped_def)

text \<open>\<open>.expect("...")\<close> on a result.\<close>

fun expect :: "string \<Rightarrow> ('a, 'e) result \<Rightarrow> ('a, 'e) result" where
  "expect msg (Ok a) = Ok a"
| "expect msg (Err e) = Panic msg"
| "expect msg (Panic p) = Panic p"

definition expecting :: "string \<Rightarrow> ('s, ('a, 'e) result) state \<Rightarrow> ('s, ('a, 'e) result) state" where
  "expecting msg m = do { r \<leftarrow> m; return (expect msg r) }"

lemma expect_eq [simp]: "expect msg r = Ok a \<longleftrightarrow> r = Ok a" "expect msg r \<noteq> Err e"
  by (cases r; simp)+

text \<open>The operator \<open>?\<close> in code that is not \<open>async\<close>.\<close>

fun res_then :: "('a, 'e) result \<Rightarrow> ('a \<Rightarrow> ('b, 'e) result) \<Rightarrow> ('b, 'e) result" where
  "res_then (Ok a) f = f a"
| "res_then (Err e) f = Err e"
| "res_then (Panic p) f = Panic p"

lemma res_then_cong [fundef_cong]:
  "r = r' \<Longrightarrow> (\<And>a. r' = Ok a \<Longrightarrow> f a = g a) \<Longrightarrow> res_then r f = res_then r' g"
  by (cases r') auto

lemma res_then_Ok: "res_then r f = Ok b \<longleftrightarrow> (\<exists>a. r = Ok a \<and> f a = Ok b)"
  by (cases r) auto

text \<open>\<open>iter().filter(..).collect()\<close> with a predicate that may panic.\<close>

fun filter_result :: "('a \<Rightarrow> (bool, 'e) result) \<Rightarrow> 'a list \<Rightarrow> ('a list, 'e) result" where
  "filter_result p [] = Ok []"
| "filter_result p (x # xs) = res_then (p x) (\<lambda>keep. res_then (filter_result p xs) (\<lambda>ys.
     Ok (if keep then x # ys else ys)))"

lemma filter_result_pure: "list_all (\<lambda>x. p x = Ok (q x)) xs \<Longrightarrow> filter_result p xs = Ok (filter q xs)"
  by (induction xs) auto

text \<open>\<open>str::split\<close> at a character: the pieces between its occurrences, at least one.\<close>

fun split_char :: "char \<Rightarrow> string \<Rightarrow> string list" where
  "split_char d [] = [[]]"
| "split_char d (c # s) = (if c = d then [] # split_char d s
     else (case split_char d s of p # ps \<Rightarrow> (c # p) # ps | [] \<Rightarrow> [[c]]))"

text \<open>
  \<open>for x in xs { f(x).await?; }\<close>: the body runs for each element in turn and the first
  error (or panic) leaves the enclosing function.
\<close>

fun try_for :: "'a list \<Rightarrow> ('a \<Rightarrow> ('s, (unit, 'e) result) state) \<Rightarrow> ('s, (unit, 'e) result) state"
where
  "try_for [] f = return (Ok ())"
| "try_for (x # xs) f = try_then (f x) (\<lambda>_. try_for xs f)"

text \<open>
  The rule for such a loop: \<open>I done s\<close> is an invariant over the elements handled so far, and
  \<open>E r s\<close> describes the early exits.
\<close>

lemma wp_try_for:
  assumes "I [] s"
    and step: "\<And>done x rest s. xs = done @ x # rest \<Longrightarrow> I done s \<Longrightarrow>
       wp (f x) (\<lambda>r s'. case r of Ok _ \<Rightarrow> I (done @ [x]) s' | _ \<Rightarrow> E r s') s"
    and fin: "\<And>s. I xs s \<Longrightarrow> Q (Ok ()) s"
    and early: "\<And>r s. E r s \<Longrightarrow> \<not> is_ok r \<Longrightarrow> Q r s"
  shows "wp (try_for xs f) Q s"
proof -
  have "wp (try_for rest f) Q s" if "xs = done @ rest" "I done s" for "done" rest s
    using that
  proof (induction rest arbitrary: "done" s)
    case Nil
    then show ?case by (simp add: fin)
  next
    case (Cons x rest)
    have "wp (f x) (\<lambda>r s'. case r of Ok _ \<Rightarrow> I (done @ [x]) s' | _ \<Rightarrow> E r s') s"
      using Cons.prems by (rule step)
    then show ?case
      unfolding try_for.simps wp_try_then
      by (rule wp_mono) (use Cons in \<open>auto split: result.splits intro: early\<close>)
  qed
  from this [of "[]" xs s] assms(1) show ?thesis by simp
qed

section \<open>HashMap\<close>

text \<open>
  A Rust \<open>HashMap\<close> is an association list: \<open>map_of\<close> is \<open>get\<close>, \<open>AList.update\<close> is
  \<open>insert\<close>, \<open>AList.delete\<close> is \<open>remove\<close>. Rust iterates a map in an unspecified order;
  the order of the list is that order, and theorems hold for every list.
  \<open>hm_wf\<close> says that every key occurs once, as in every Rust map.
\<close>

type_synonym ('k, 'v) hashmap = "('k \<times> 'v) list"

named_theorems hashmap_simps "lookup and key set of the HashMap operations"

definition hm_keys :: "('k, 'v) hashmap \<Rightarrow> 'k list" where
  "hm_keys m = map fst m"

definition hm_wf :: "('k, 'v) hashmap \<Rightarrow> bool" where
  "hm_wf m \<longleftrightarrow> distinct (hm_keys m)"

abbreviation hm_insert :: "'k \<Rightarrow> 'v \<Rightarrow> ('k, 'v) hashmap \<Rightarrow> ('k, 'v) hashmap" where
  "hm_insert \<equiv> AList.update"

abbreviation hm_remove :: "'k \<Rightarrow> ('k, 'v) hashmap \<Rightarrow> ('k, 'v) hashmap" where
  "hm_remove \<equiv> AList.delete"

definition hm_contains :: "('k, 'v) hashmap \<Rightarrow> 'k \<Rightarrow> bool" where
  "hm_contains m k \<longleftrightarrow> map_of m k \<noteq> None"

text \<open>\<open>iter().map(..).collect()\<close> into a map: a later pair replaces an earlier one.\<close>

definition hm_collect :: "('k \<times> 'v) list \<Rightarrow> ('k, 'v) hashmap" where
  "hm_collect ps = fold (\<lambda>(k, v). hm_insert k v) ps []"

lemma hm_keys_simps [simp]: "hm_keys [] = []" "hm_keys ((k, v) # m) = k # hm_keys m"
  by (simp_all add: hm_keys_def)

lemma hm_wf_simps [simp]: "hm_wf []" "hm_wf ((k, v) # m) \<longleftrightarrow> k \<notin> set (hm_keys m) \<and> hm_wf m"
  by (simp_all add: hm_wf_def)

lemma set_hm_keys: "set (hm_keys m) = dom (map_of m)"
  by (simp add: hm_keys_def dom_map_of_conv_image_fst)

lemma hm_contains_keys: "hm_contains m k \<longleftrightarrow> k \<in> set (hm_keys m)"
  by (auto simp: hm_contains_def set_hm_keys)

lemma hm_wf_insert [simp]: "hm_wf m \<Longrightarrow> hm_wf (hm_insert k v m)"
  by (simp add: hm_wf_def hm_keys_def distinct_update)

lemma hm_wf_remove [simp]: "hm_wf m \<Longrightarrow> hm_wf (hm_remove k m)"
  by (simp add: hm_wf_def hm_keys_def distinct_delete)

lemma hm_get_insert [hashmap_simps]: "map_of (hm_insert k v m) k' = (if k' = k then Some v else map_of m k')"
  by (simp add: update_conv')

lemma hm_get_remove [hashmap_simps]: "map_of (hm_remove k m) k' = (if k' = k then None else map_of m k')"
  by (simp add: delete_conv')

lemma hm_keys_insert [hashmap_simps]: "set (hm_keys (hm_insert k v m)) = insert k (set (hm_keys m))"
  by (simp add: set_hm_keys update_conv')

lemma hm_keys_remove [hashmap_simps]: "set (hm_keys (hm_remove k m)) = set (hm_keys m) - {k}"
  by (auto simp: set_hm_keys delete_conv')

lemma hm_wf_map_of: "hm_wf m \<Longrightarrow> map_of m k = Some v \<longleftrightarrow> (k, v) \<in> set m"
  by (simp add: hm_wf_def hm_keys_def)

text \<open>Mapping the values of a map keeps its keys.\<close>

lemma map_of_map_values [hashmap_simps]:
  "map_of (map (\<lambda>(k, v). (k, f k v)) m) k = map_option (f k) (map_of m k)"
  by (induction m) auto

lemma hm_keys_map_values [hashmap_simps]: "hm_keys (map (\<lambda>(k, v). (k, f k v)) m) = hm_keys m"
  by (induction m) auto

lemma hm_wf_map_values [hashmap_simps]: "hm_wf (map (\<lambda>(k, v). (k, f k v)) m) = hm_wf m"
  by (simp add: hm_wf_def hm_keys_map_values)

lemma hm_fold_insert: "map_of (fold (\<lambda>(k, v). hm_insert k v) ps m) k =
    (case map_of (rev ps) k of Some v \<Rightarrow> Some v | None \<Rightarrow> map_of m k)"
  by (induction ps arbitrary: m) (auto simp: hashmap_simps map_add_def split: option.splits)

lemma hm_get_collect [hashmap_simps]: "map_of (hm_collect ps) k = map_of (rev ps) k"
  by (auto simp: hm_collect_def hm_fold_insert split: option.splits)

lemma hm_fold_wf: "hm_wf m \<Longrightarrow> hm_wf (fold (\<lambda>(k, v). hm_insert k v) ps m)"
  by (induction ps arbitrary: m) auto

lemma hm_wf_collect [simp]: "hm_wf (hm_collect ps)"
  by (simp add: hm_collect_def hm_fold_wf)

lemma hm_keys_collect [hashmap_simps]: "set (hm_keys (hm_collect ps)) = fst ` set ps"
proof -
  have "dom (map_of (hm_collect ps)) = dom (map_of (rev ps))"
    by (simp add: dom_def hashmap_simps)
  then show ?thesis by (simp add: set_hm_keys dom_map_of_conv_image_fst)
qed

lemma hm_insert_twice [simp]: "hm_insert k v (hm_insert k v' m) = hm_insert k v m"
  by (induction m) auto

text \<open>Collecting pairs with distinct keys keeps them as they are.\<close>

lemma hm_insert_fresh: "k \<notin> set (hm_keys m) \<Longrightarrow> hm_insert k v m = m @ [(k, v)]"
  by (induction m) (auto simp: hm_keys_def)

lemma hm_fold_fresh:
  "distinct (map fst ps) \<Longrightarrow> set (map fst ps) \<inter> set (hm_keys m) = {} \<Longrightarrow>
   fold (\<lambda>(k, v). hm_insert k v) ps m = m @ ps"
  by (induction ps arbitrary: m) (auto simp: hm_insert_fresh hm_keys_def)

lemma hm_collect_distinct: "distinct (map fst ps) \<Longrightarrow> hm_collect ps = ps"
  by (simp add: hm_collect_def hm_fold_fresh)

section \<open>Strings\<close>

text \<open>\<open>s.replace(c, d)\<close> for one-character patterns.\<close>

definition replace_char :: "char \<Rightarrow> char \<Rightarrow> string \<Rightarrow> string" where
  "replace_char c d s = map (\<lambda>x. if x = c then d else x) s"

lemma replace_char_notin: "c \<noteq> d \<Longrightarrow> c \<notin> set (replace_char c d s)"
  by (auto simp: replace_char_def)

lemma replace_char_idle: "c \<notin> set s \<Longrightarrow> replace_char c d s = s"
  by (auto simp: replace_char_def intro!: map_idI)

lemma length_replace_char [simp]: "length (replace_char c d s) = length s"
  by (simp add: replace_char_def)

lemma replace_char_append: "replace_char c d (s @ t) = replace_char c d s @ replace_char c d t"
  by (simp add: replace_char_def)

text \<open>Decimal printing of a number, as \<open>format!("{}", n)\<close> does it.\<close>

definition digit_char :: "nat \<Rightarrow> char" where
  "digit_char d = char_of (48 + d)"

fun show_nat :: "nat \<Rightarrow> string" where
  "show_nat n = (if n < 10 then [digit_char n] else show_nat (n div 10) @ [digit_char (n mod 10)])"

declare show_nat.simps [simp del]

lemma digit_char_inj: "a < 10 \<Longrightarrow> b < 10 \<Longrightarrow> digit_char a = digit_char b \<Longrightarrow> a = b"
proof -
  assume "a < 10" "b < 10" "digit_char a = digit_char b"
  then have "(of_char (char_of (48 + a)) :: nat) = of_char (char_of (48 + b))"
    by (simp add: digit_char_def)
  then show "a = b" using \<open>a < 10\<close> \<open>b < 10\<close> by simp
qed

lemma digit_char_neq_dash: "d < 10 \<Longrightarrow> digit_char d \<noteq> CHR ''-''"
proof
  assume "d < 10" "digit_char d = CHR ''-''"
  then have "(of_char (char_of (48 + d)) :: nat) = of_char (CHR ''-'')"
    by (simp add: digit_char_def)
  then show False using \<open>d < 10\<close> by simp
qed

lemma show_nat_nonempty: "show_nat n \<noteq> []"
  by (subst show_nat.simps) simp

lemma show_nat_digits: "c \<in> set (show_nat n) \<Longrightarrow> \<exists>d < 10. c = digit_char d"
proof (induction n rule: show_nat.induct)
  case (1 n)
  show ?case
  proof (cases "n < 10")
    case True
    with "1.prems" show ?thesis by (subst (asm) show_nat.simps) auto
  next
    case False
    with "1.prems" have "c \<in> set (show_nat (n div 10)) \<or> c = digit_char (n mod 10)"
      by (subst (asm) show_nat.simps) auto
    then show ?thesis using "1.IH" [OF False] by (auto intro: exI [of _ "n mod 10"])
  qed
qed

lemma show_nat_no_dash: "CHR ''-'' \<notin> set (show_nat n)"
  using show_nat_digits digit_char_neq_dash by fastforce

lemma show_nat_inj: "show_nat a = show_nat b \<Longrightarrow> a = b"
proof (induction a arbitrary: b rule: show_nat.induct)
  case (1 a)
  have small: "length (show_nat n) = 1 \<longleftrightarrow> n < 10" for n
    using show_nat_nonempty [of "n div 10"] by (subst show_nat.simps) auto
  have "length (show_nat a) = length (show_nat b)" by (simp add: "1.prems")
  then have lt: "a < 10 \<longleftrightarrow> b < 10" using small by metis
  show ?case
  proof (cases "a < 10")
    case True
    with lt "1.prems" have "digit_char a = digit_char b"
      by (simp add: show_nat.simps [of a] show_nat.simps [of b])
    with True lt show ?thesis by (auto intro: digit_char_inj)
  next
    case False
    with lt "1.prems" have eq: "show_nat (a div 10) = show_nat (b div 10)"
        and d: "digit_char (a mod 10) = digit_char (b mod 10)"
      by (simp_all add: show_nat.simps [of a] show_nat.simps [of b])
    from eq have "a div 10 = b div 10" by (rule "1.IH" [OF False])
    moreover from d have "a mod 10 = b mod 10" by (rule digit_char_inj [rotated 2]) simp_all
    ultimately show ?thesis by (metis div_mult_mod_eq)
  qed
qed

text \<open>\<open>format!("{}-{}", a, b)\<close> and \<open>format!("{}={}", a, b)\<close>.\<close>

abbreviation dash :: "string \<Rightarrow> string \<Rightarrow> string" where
  "dash a b \<equiv> a @ ''-'' @ b"

abbreviation equals :: "string \<Rightarrow> string \<Rightarrow> string" where
  "equals a b \<equiv> a @ ''='' @ b"

text \<open>A numbered name determines its number.\<close>

lemma dash_show_inj: "dash a (show_nat i) = dash a (show_nat j) \<Longrightarrow> i = j"
  by (auto dest: show_nat_inj)

text \<open>Time spans are in nanoseconds, as \<open>std::time::Duration\<close> keeps them.\<close>

definition from_secs :: "nat \<Rightarrow> nat" where
  "from_secs s = s * 10 ^ 9"

definition as_secs :: "nat \<Rightarrow> nat" where
  "as_secs d = d div 10 ^ 9"

lemma as_secs_from_secs [simp]: "as_secs (from_secs s) = s"
  by (simp add: as_secs_def from_secs_def)

lemma le_as_secs: "s \<le> as_secs d \<longleftrightarrow> from_secs s \<le> d"
  by (simp add: as_secs_def from_secs_def less_eq_div_iff_mult_less_eq)

end
