(* ===== verification/K8s_Objects.thy ===== *)
theory K8s_Objects
  imports Akri_Prelude
begin

text \<open>
  The Kubernetes data the sources read and write: the structures of the crates
  \<open>kube\<close> and \<open>k8s_openapi\<close>, with the fields the repository touches under their own
  names and all the others folded into one \<open>opaque\<close> value that is only ever copied.
  A \<open>BTreeMap\<close> is an association list too: its order is never observed.
\<close>

type_synonym opaque = string

type_synonym btreemap = "(string, string) hashmap"

text \<open>A point of wall-clock time (\<open>chrono::DateTime<Utc>\<close>), in nanoseconds since the epoch.\<close>

type_synonym time = int

section \<open>Metadata\<close>

text \<open>\<open>kube::api::OwnerReference\<close> and \<open>kube::api::ObjectMeta\<close>.\<close>

record OwnerReference =
  or_apiVersion :: string
  or_kind :: string
  or_controller :: bool
  or_blockOwnerDeletion :: bool
  or_name :: string
  or_uid :: string

record ObjectMeta =
  m_name :: string
  m_namespace :: "string option"
  m_labels :: btreemap
  m_ownerReferences :: "OwnerReference list"
  m_uid :: "string option"
  m_resourceVersion :: "string option"

definition ObjectMeta_default :: ObjectMeta where
  "ObjectMeta_default = \<lparr>m_name = '''', m_namespace = None, m_labels = [],
     m_ownerReferences = [], m_uid = None, m_resourceVersion = None\<rparr>"

record TypeMeta =
  t_apiVersion :: "string option"
  t_kind :: "string option"

text \<open>\<open>kube::api::Object<P, U>\<close>: the shape in which the API server returns everything.\<close>

record ('p, 'u) Object =
  o_types :: TypeMeta
  metadata :: ObjectMeta
  spec :: 'p
  status :: "'u option"

text \<open>The metadata of \<open>k8s_openapi\<close>, in which every field is optional.\<close>

record K8sOwnerReference =
  kor_api_version :: string
  kor_kind :: string
  kor_controller :: "bool option"
  kor_block_owner_deletion :: "bool option"
  kor_name :: string
  kor_uid :: string

record K8sObjectMeta =
  k_name :: "string option"
  k_namespace :: "string option"
  k_labels :: "btreemap option"
  k_owner_references :: "K8sOwnerReference list option"

section \<open>Pods\<close>

type_synonym ResourceQuantityType = "(string, string) hashmap"

record ResourceRequirements =
  limits :: "ResourceQuantityType option"
  requests :: "ResourceQuantityType option"

record Container =
  c_resources :: "ResourceRequirements option"
  c_other :: opaque

record NodeSelectorRequirement =
  nsr_key :: string
  nsr_operator :: string
  nsr_values :: "string list option"

record NodeSelectorTerm =
  match_expressions :: "NodeSelectorRequirement list option"
  match_fields :: "NodeSelectorRequirement list option"

record NodeSelector =
  node_selector_terms :: "NodeSelectorTerm list"

record NodeAffinity =
  preferred_during_scheduling :: "opaque list option"
  required_during_scheduling :: "NodeSelector option"

record Affinity =
  node_affinity :: "NodeAffinity option"
  pod_affinity :: "opaque option"
  pod_anti_affinity :: "opaque option"

definition NodeAffinity_default :: NodeAffinity where
  "NodeAffinity_default = \<lparr>preferred_during_scheduling = None, required_during_scheduling = None\<rparr>"

definition Affinity_default :: Affinity where
  "Affinity_default = \<lparr>node_affinity = None, pod_affinity = None, pod_anti_affinity = None\<rparr>"

record PodSpec =
  containers :: "Container list"
  affinity :: "Affinity option"
  ps_other :: opaque

record PodCondition =
  pc_type :: string
  pc_status :: string

record PodStatus =
  phase :: "string option"
  start_time :: "time option"
  ps_conditions :: "PodCondition list option"

type_synonym PodObject = "(PodSpec, PodStatus) Object"

record Pod =
  pod_metadata :: "K8sObjectMeta option"
  pod_spec :: "PodSpec option"
  pod_status :: "PodStatus option"

section \<open>Services and nodes\<close>

record ServiceSpec =
  selector :: "btreemap option"
  ss_other :: opaque

type_synonym ServiceObject = "(ServiceSpec, opaque) Object"

record Service =
  svc_metadata :: "K8sObjectMeta option"
  svc_spec :: "ServiceSpec option"

record NodeCondition =
  nc_type :: string
  nc_status :: string

record NodeStatus =
  ns_conditions :: "NodeCondition list option"

type_synonym NodeObject = "(opaque, NodeStatus) Object"

section \<open>Watch events\<close>

text \<open>\<open>kube::api::WatchEvent\<close>; an error event carries the server's error code.\<close>

datatype 'a WatchEvent = Added 'a | Modified 'a | Deleted 'a | WatchError nat

end
