(* ===== verification/Akri_Types.thy ===== *)
theory Akri_Types
  imports K8s_Objects
begin

text \<open>
  The custom resources of Akri and the constants shared by its binaries:
  \<open>shared/src/akri/mod.rs\<close>, \<open>configuration.rs\<close> and \<open>instance.rs\<close> (the data; the calls to
  the API server are in \<open>Kube_Impl\<close>), and \<open>agent/src/util/constants.rs\<close>.
\<close>

section \<open>Constants\<close>

definition API_VERSION :: string where "API_VERSION = ''v0''"
definition API_NAMESPACE :: string where "API_NAMESPACE = ''akri.sh''"
definition API_CONFIGURATIONS :: string where "API_CONFIGURATIONS = ''configurations''"
definition API_INSTANCES :: string where "API_INSTANCES = ''instances''"
definition AKRI_PREFIX :: string where "AKRI_PREFIX = ''akri.sh''"
definition AKRI_SLOT_ANNOTATION_NAME :: string where
  "AKRI_SLOT_ANNOTATION_NAME = ''akri.agent.slot''"

definition MAX_INSTANCE_UPDATE_TRIES :: nat where "MAX_INSTANCE_UPDATE_TRIES = 5"

text \<open>The values of the loop variable of \<open>for x in 0..MAX_INSTANCE_UPDATE_TRIES\<close>.\<close>

abbreviation tries :: "nat list" where
  "tries \<equiv> [0..<MAX_INSTANCE_UPDATE_TRIES]"

lemma tries_eq: "tries = [0, 1, 2, 3, 4]"
  by (simp add: MAX_INSTANCE_UPDATE_TRIES_def upt_rec)

lemma tries_cons: "tries = 0 # [1..<MAX_INSTANCE_UPDATE_TRIES]"
  by (simp add: MAX_INSTANCE_UPDATE_TRIES_def upt_rec)

definition HEALTHY :: string where "HEALTHY = ''Healthy''"
definition UNHEALTHY :: string where "UNHEALTHY = ''Unhealthy''"
definition K8S_DEVICE_PLUGIN_VERSION :: string where "K8S_DEVICE_PLUGIN_VERSION = ''v1beta1''"
definition DEVICE_PLUGIN_PATH :: string where
  "DEVICE_PLUGIN_PATH = ''/var/lib/kubelet/device-plugins''"
definition KUBELET_SOCKET :: string where
  "KUBELET_SOCKET = ''/var/lib/kubelet/device-plugins/kubelet.sock''"
definition LIST_AND_WATCH_SLEEP_SECS :: nat where "LIST_AND_WATCH_SLEEP_SECS = 60"
definition DISCOVERY_DELAY_SECS :: nat where "DISCOVERY_DELAY_SECS = 10"
definition SHARED_INSTANCE_OFFLINE_GRACE_PERIOD_SECS :: nat where
  "SHARED_INSTANCE_OFFLINE_GRACE_PERIOD_SECS = 300"
definition SLOT_RECONCILIATION_CHECK_DELAY_SECS :: nat where
  "SLOT_RECONCILIATION_CHECK_DELAY_SECS = 10"
definition SLOT_RECONCILIATION_SLOT_GRACE_PERIOD_SECS :: nat where
  "SLOT_RECONCILIATION_SLOT_GRACE_PERIOD_SECS = 300"

lemma health_distinct [simp]: "HEALTHY \<noteq> UNHEALTHY" "UNHEALTHY \<noteq> HEALTHY"
  by (simp_all add: HEALTHY_def UNHEALTHY_def)

section \<open>Configuration\<close>

datatype FilterType = Exclude | Include

definition default_action :: FilterType where "default_action = Include"

record FilterList =
  items :: "string list"
  action :: FilterType

definition should_include :: "FilterList option \<Rightarrow> string \<Rightarrow> bool" where
  "should_include filter_list item =
     (case filter_list of
        None \<Rightarrow> True
      | Some fl \<Rightarrow>
          let item_contained = item \<in> set (items fl)
          in if action fl = Include then item_contained else \<not> item_contained)"

record OnvifDiscoveryHandlerConfig =
  ip_addresses :: "FilterList option"
  mac_addresses :: "FilterList option"
  scopes :: "FilterList option"
  discovery_timeout_seconds :: int

definition default_discovery_timeout_seconds :: int where
  "default_discovery_timeout_seconds = 1"

record UdevDiscoveryHandlerConfig =
  udev_rules :: "string list"

record StandardOpcuaDiscovery =
  discovery_urls :: "string list"

definition lds_discovery_url :: "string list" where
  "lds_discovery_url = [''opc.tcp://localhost:4840/'']"

datatype OpcuaDiscoveryMethod = standard StandardOpcuaDiscovery

record OpcuaDiscoveryHandlerConfig =
  opcua_discovery_method :: OpcuaDiscoveryMethod
  application_names :: "FilterList option"

record DebugEchoDiscoveryHandlerConfig =
  descriptions :: "string list"
  de_shared :: bool

datatype ProtocolHandler =
    onvif OnvifDiscoveryHandlerConfig
  | udev UdevDiscoveryHandlerConfig
  | opcua OpcuaDiscoveryHandlerConfig
  | debugEcho DebugEchoDiscoveryHandlerConfig

text \<open>The capacity is an \<open>i32\<close>; the sources only count up to it, so it is an \<open>int\<close> here.\<close>

record Configuration =
  protocol :: ProtocolHandler
  capacity :: int
  units :: string
  broker_pod_spec :: "PodSpec option"
  instance_service_spec :: "ServiceSpec option"
  configuration_service_spec :: "ServiceSpec option"
  properties :: btreemap

definition default_capacity :: int where "default_capacity = 1"
definition default_units :: string where "default_units = ''pod''"

type_synonym KubeAkriConfig = "(Configuration, unit) Object"

section \<open>Instance\<close>

record Instance =
  configuration_name :: string
  instance_metadata :: "(string, string) hashmap"
  shared :: bool
  nodes :: "string list"
  device_usage :: "(string, string) hashmap"
  rbac :: string

definition default_shared :: bool where "default_shared = False"
definition default_rbac :: string where "default_rbac = ''''"

type_synonym KubeAkriInstance = "(Instance, unit) Object"

text \<open>
  An Instance is well formed when its maps have every key once; \<open>slot_owner\<close> reads the owner
  of a slot, which is the empty string for a free one. \<open>same_besides_slots\<close> compares what else an
  Instance holds.
\<close>

definition instance_wf :: "Instance \<Rightarrow> bool" where
  "instance_wf i \<longleftrightarrow> hm_wf (device_usage i) \<and> hm_wf (instance_metadata i)"

abbreviation slot_owner :: "Instance \<Rightarrow> string \<Rightarrow> string option" where
  "slot_owner i slot \<equiv> map_of (device_usage i) slot"

definition same_besides_slots :: "Instance \<Rightarrow> Instance \<Rightarrow> bool" where
  "same_besides_slots i i' \<longleftrightarrow> nodes i' = nodes i \<and> shared i' = shared i
     \<and> configuration_name i' = configuration_name i \<and> rbac i' = rbac i
     \<and> map_of (instance_metadata i') = map_of (instance_metadata i)"

end
