(* ===== verification/Kube_Interface.thy ===== *)
theory Kube_Interface
  imports Akri_Types
begin

text \<open>
  \<open>shared/src/k8s/mod.rs\<close>: the trait \<open>KubeInterface\<close>, through which the Agent and the
  Controller reach the cluster, as a record of operations over an environment \<open>'w\<close>, and
  \<open>OwnershipInfo\<close>. Every handler of the development takes such a record as a parameter,
  as the Rust functions take \<open>&impl KubeInterface\<close>. \<open>spied\<close> wraps an interface so that the
  calls made through it are recorded, as the sources' own tests do with \<open>mockall\<close>.
\<close>

definition NODE_SELECTOR_OP_IN :: string where "NODE_SELECTOR_OP_IN = ''In''"
definition OBJECT_NAME_FIELD :: string where "OBJECT_NAME_FIELD = ''metadata.name''"
definition RESOURCE_REQUIREMENTS_KEY :: string where
  "RESOURCE_REQUIREMENTS_KEY = ''{{PLACEHOLDER}}''"
definition ERROR_NOT_FOUND :: nat where "ERROR_NOT_FOUND = 404"
definition ERROR_CONFLICT :: nat where "ERROR_CONFLICT = 409"

section \<open>OwnershipInfo\<close>

datatype OwnershipType = OwnedByConfiguration | OwnedByInstance | OwnedByPod | OwnedByService

record OwnershipInfo =
  object_type :: OwnershipType
  object_uid :: string
  object_name :: string

definition OwnershipInfo_new :: "OwnershipType \<Rightarrow> string \<Rightarrow> string \<Rightarrow> OwnershipInfo" where
  "OwnershipInfo_new ty nm uid = \<lparr>object_type = ty, object_uid = uid, object_name = nm\<rparr>"

definition get_api_version :: "OwnershipInfo \<Rightarrow> string" where
  "get_api_version oi = (case object_type oi of
       OwnedByInstance \<Rightarrow> API_NAMESPACE @ ''/'' @ API_VERSION
     | OwnedByConfiguration \<Rightarrow> API_NAMESPACE @ ''/'' @ API_VERSION
     | OwnedByPod \<Rightarrow> ''core/v1''
     | OwnedByService \<Rightarrow> ''core/v1'')"

definition get_kind :: "OwnershipInfo \<Rightarrow> string" where
  "get_kind oi = (case object_type oi of
       OwnedByInstance \<Rightarrow> ''Instance''
     | OwnedByConfiguration \<Rightarrow> ''Configuration''
     | OwnedByPod \<Rightarrow> ''Pod''
     | OwnedByService \<Rightarrow> ''Service'')"

definition get_controller :: "OwnershipInfo \<Rightarrow> bool" where "get_controller oi = True"
definition get_block_owner_deletion :: "OwnershipInfo \<Rightarrow> bool" where
  "get_block_owner_deletion oi = True"
definition get_name :: "OwnershipInfo \<Rightarrow> string" where "get_name oi = object_name oi"
definition get_uid :: "OwnershipInfo \<Rightarrow> string" where "get_uid oi = object_uid oi"

section \<open>The trait\<close>

record 'w kube_interface =
  find_node :: "string \<Rightarrow> ('w, NodeObject) io"
  find_pods_with_label :: "string \<Rightarrow> ('w, PodObject list) io"
  find_pods_with_field :: "string \<Rightarrow> ('w, PodObject list) io"
  create_pod :: "Pod \<Rightarrow> string \<Rightarrow> ('w, unit) io"
  remove_pod :: "string \<Rightarrow> string \<Rightarrow> ('w, unit) io"
  find_services :: "string \<Rightarrow> ('w, ServiceObject list) io"
  create_service :: "Service \<Rightarrow> string \<Rightarrow> ('w, unit) io"
  remove_service :: "string \<Rightarrow> string \<Rightarrow> ('w, unit) io"
  update_service :: "ServiceObject \<Rightarrow> string \<Rightarrow> string \<Rightarrow> ('w, unit) io"
  find_configuration :: "string \<Rightarrow> string \<Rightarrow> ('w, KubeAkriConfig) io"
  get_configurations :: "('w, KubeAkriConfig list) io"
  find_instance :: "string \<Rightarrow> string \<Rightarrow> ('w, KubeAkriInstance) io"
  get_instances :: "('w, KubeAkriInstance list) io"
  create_instance :: "Instance \<Rightarrow> string \<Rightarrow> string \<Rightarrow> string \<Rightarrow> string \<Rightarrow> ('w, unit) io"
  delete_instance :: "string \<Rightarrow> string \<Rightarrow> ('w, unit) io"
  update_instance :: "Instance \<Rightarrow> string \<Rightarrow> string \<Rightarrow> ('w, unit) io"

section \<open>Recording the calls\<close>

text \<open>One constructor per operation of the trait: its arguments and its outcome.\<close>

datatype kube_event =
    EvFindNode string "(NodeObject, error) result"
  | EvFindPodsWithLabel string "(PodObject list, error) result"
  | EvFindPodsWithField string "(PodObject list, error) result"
  | EvCreatePod Pod string "(unit, error) result"
  | EvRemovePod string string "(unit, error) result"
  | EvFindServices string "(ServiceObject list, error) result"
  | EvCreateService Service string "(unit, error) result"
  | EvRemoveService string string "(unit, error) result"
  | EvUpdateService ServiceObject string string "(unit, error) result"
  | EvFindConfiguration string string "(KubeAkriConfig, error) result"
  | EvGetConfigurations "(KubeAkriConfig list, error) result"
  | EvFindInstance string string "(KubeAkriInstance, error) result"
  | EvGetInstances "(KubeAkriInstance list, error) result"
  | EvCreateInstance Instance string string string string "(unit, error) result"
  | EvDeleteInstance string string "(unit, error) result"
  | EvUpdateInstance Instance string string "(unit, error) result"

definition spy :: "(('a, error) result \<Rightarrow> kube_event) \<Rightarrow> ('w, 'a) io \<Rightarrow>
    ('w \<times> kube_event list, 'a) io" where
  "spy ev m = State (\<lambda>(w, tr). case run_state m w of (r, w') \<Rightarrow> (r, (w', tr @ [ev r])))"

definition spied :: "'w kube_interface \<Rightarrow> ('w \<times> kube_event list) kube_interface" where
  "spied ki = \<lparr>
     find_node = (\<lambda>n. spy (EvFindNode n) (find_node ki n)),
     find_pods_with_label = (\<lambda>s. spy (EvFindPodsWithLabel s) (find_pods_with_label ki s)),
     find_pods_with_field = (\<lambda>s. spy (EvFindPodsWithField s) (find_pods_with_field ki s)),
     create_pod = (\<lambda>p ns. spy (EvCreatePod p ns) (create_pod ki p ns)),
     remove_pod = (\<lambda>n ns. spy (EvRemovePod n ns) (remove_pod ki n ns)),
     find_services = (\<lambda>s. spy (EvFindServices s) (find_services ki s)),
     create_service = (\<lambda>s ns. spy (EvCreateService s ns) (create_service ki s ns)),
     remove_service = (\<lambda>n ns. spy (EvRemoveService n ns) (remove_service ki n ns)),
     update_service = (\<lambda>s n ns. spy (EvUpdateService s n ns) (update_service ki s n ns)),
     find_configuration = (\<lambda>n ns. spy (EvFindConfiguration n ns) (find_configuration ki n ns)),
     get_configurations = spy EvGetConfigurations (get_configurations ki),
     find_instance = (\<lambda>n ns. spy (EvFindInstance n ns) (find_instance ki n ns)),
     get_instances = spy EvGetInstances (get_instances ki),
     create_instance = (\<lambda>i n ns cn cu. spy (EvCreateInstance i n ns cn cu)
        (create_instance ki i n ns cn cu)),
     delete_instance = (\<lambda>n ns. spy (EvDeleteInstance n ns) (delete_instance ki n ns)),
     update_instance = (\<lambda>i n ns. spy (EvUpdateInstance i n ns) (update_instance ki i n ns))\<rparr>"

lemma wp_spy [simp]: "wp (spy ev m) Q (w, tr) = wp m (\<lambda>r w'. Q r (w', tr @ [ev r])) w"
  by (simp add: wp_def spy_def split: prod.split)

lemma spied_sel [simp]:
  "find_node (spied ki) n = spy (EvFindNode n) (find_node ki n)"
  "find_pods_with_label (spied ki) s = spy (EvFindPodsWithLabel s) (find_pods_with_label ki s)"
  "find_pods_with_field (spied ki) s = spy (EvFindPodsWithField s) (find_pods_with_field ki s)"
  "create_pod (spied ki) p ns = spy (EvCreatePod p ns) (create_pod ki p ns)"
  "remove_pod (spied ki) n ns = spy (EvRemovePod n ns) (remove_pod ki n ns)"
  "find_services (spied ki) s = spy (EvFindServices s) (find_services ki s)"
  "create_service (spied ki) sv ns = spy (EvCreateService sv ns) (create_service ki sv ns)"
  "remove_service (spied ki) n ns = spy (EvRemoveService n ns) (remove_service ki n ns)"
  "update_service (spied ki) so n ns = spy (EvUpdateService so n ns) (update_service ki so n ns)"
  "find_configuration (spied ki) n ns = spy (EvFindConfiguration n ns) (find_configuration ki n ns)"
  "get_configurations (spied ki) = spy EvGetConfigurations (get_configurations ki)"
  "find_instance (spied ki) n ns = spy (EvFindInstance n ns) (find_instance ki n ns)"
  "get_instances (spied ki) = spy EvGetInstances (get_instances ki)"
  "create_instance (spied ki) i n ns cn cu =
     spy (EvCreateInstance i n ns cn cu) (create_instance ki i n ns cn cu)"
  "delete_instance (spied ki) n ns = spy (EvDeleteInstance n ns) (delete_instance ki n ns)"
  "update_instance (spied ki) i n ns = spy (EvUpdateInstance i n ns) (update_instance ki i n ns)"
  by (simp_all add: spied_def)

text \<open>
  \<open>emits Q m\<close>: in every environment, the calls that \<open>m\<close> makes all satisfy \<open>Q\<close>. It is
  compositional, so for a handler it is proved by applying the rules \<open>emits_rules\<close>.
\<close>

definition emits :: "(kube_event \<Rightarrow> bool) \<Rightarrow> ('w \<times> kube_event list, 'a) state \<Rightarrow> bool" where
  "emits Q m \<longleftrightarrow> (\<forall>w tr. wp m (\<lambda>_ (_, tr'). \<exists>evs. tr' = tr @ evs \<and> list_all Q evs) (w, tr))"

named_theorems emits_rules "composition rules for emits"

lemma emitsD: "emits Q m \<Longrightarrow> wp m (\<lambda>_ (_, tr'). \<exists>evs. tr' = tr @ evs \<and> list_all Q evs) (w, tr)"
  by (simp add: emits_def)

lemma emits_return [emits_rules]: "emits Q (return a)"
  by (simp add: emits_def)

lemma emits_spy [emits_rules]: "(\<And>r. Q (ev r)) \<Longrightarrow> emits Q (spy ev m)"
  unfolding emits_def wp_spy by (auto intro!: wp_runI)

lemma emits_bind [emits_rules]:
  fixes m :: "('w \<times> kube_event list, 'a) state"
  assumes "emits Q m" and "\<And>a. emits Q (f a)"
  shows "emits Q (State_Monad.bind m f)"
  unfolding emits_def wp_bind
proof (intro allI)
  fix w tr
  from assms(1) have "wp m (\<lambda>_ (_, tr'). \<exists>evs. tr' = tr @ evs \<and> list_all Q evs) (w, tr)"
    by (rule emitsD)
  then show "wp m (\<lambda>a. wp (f a) (\<lambda>_ (_, tr'). \<exists>evs. tr' = tr @ evs \<and> list_all Q evs)) (w, tr)"
  proof (rule wp_mono)
    fix a and s' :: "'w \<times> kube_event list"
    assume "case s' of (_, tr') \<Rightarrow> \<exists>evs. tr' = tr @ evs \<and> list_all Q evs"
    then obtain w' evs where s': "s' = (w', tr @ evs)" and evs: "list_all Q evs" by auto
    from assms(2) have "wp (f a) (\<lambda>_ (_, tr'). \<exists>es. tr' = (tr @ evs) @ es \<and> list_all Q es) (w', tr @ evs)"
      by (rule emitsD)
    then show "wp (f a) (\<lambda>_ (_, tr'). \<exists>es. tr' = tr @ es \<and> list_all Q es) s'"
      unfolding s' by (rule wp_mono) (use evs in \<open>auto intro: exI [of _ "evs @ es" for es]\<close>)
  qed
qed

lemma emits_try_then [emits_rules]:
  "emits Q m \<Longrightarrow> (\<And>a. emits Q (f a)) \<Longrightarrow> emits Q (try_then m f)"
  unfolding try_then_def by (auto intro!: emits_rules split: result.split)

lemma emits_try_for [emits_rules]:
  "(\<And>x. x \<in> set xs \<Longrightarrow> emits Q (f x)) \<Longrightarrow> emits Q (try_for xs f)"
  by (induction xs) (auto intro!: emits_rules)

lemma emits_mono: "emits P m \<Longrightarrow> (\<And>e. P e \<Longrightarrow> Q e) \<Longrightarrow> emits Q m"
  unfolding emits_def [of Q]
  by (intro allI, erule wp_mono [OF emitsD]) (auto simp: list_all_iff)

text \<open>From \<open>emits\<close> to the trace of a run that starts with nothing recorded.\<close>

lemma emits_run:
  "emits Q m \<Longrightarrow> run_state m (w, []) = (r, (w', evs)) \<Longrightarrow> ev \<in> set evs \<Longrightarrow> Q ev"
  by (fastforce simp: emits_def wp_def list_all_iff dest!: spec [of _ w] spec [of _ "[]"])

end
