(* ===== verification/Broker_Objects.thy ===== *)
theory Broker_Objects
  imports Kube_Interface
begin

text \<open>
  The pure builders of \<open>shared/src/k8s/pod.rs\<close> and \<open>service.rs\<close>: names, broker Pods and
  Services made from the templates of a Configuration, and ownership updates. The lemmas
  say which labels, resources, affinity terms, selectors and owners the built objects have.
\<close>

definition APP_LABEL_ID :: string where "APP_LABEL_ID = ''app''"
definition CONTROLLER_LABEL_ID :: string where "CONTROLLER_LABEL_ID = ''controller''"
definition AKRI_CONFIGURATION_LABEL_NAME :: string where
  "AKRI_CONFIGURATION_LABEL_NAME = ''akri.sh/configuration''"
definition AKRI_INSTANCE_LABEL_NAME :: string where
  "AKRI_INSTANCE_LABEL_NAME = ''akri.sh/instance''"
definition AKRI_TARGET_NODE_LABEL_NAME :: string where
  "AKRI_TARGET_NODE_LABEL_NAME = ''akri.sh/target-node''"

lemmas label_defs = APP_LABEL_ID_def CONTROLLER_LABEL_ID_def AKRI_CONFIGURATION_LABEL_NAME_def
  AKRI_INSTANCE_LABEL_NAME_def AKRI_TARGET_NODE_LABEL_NAME_def

lemma label_neq:
  "APP_LABEL_ID \<noteq> CONTROLLER_LABEL_ID"
  "APP_LABEL_ID \<noteq> AKRI_CONFIGURATION_LABEL_NAME"
  "APP_LABEL_ID \<noteq> AKRI_INSTANCE_LABEL_NAME"
  "APP_LABEL_ID \<noteq> AKRI_TARGET_NODE_LABEL_NAME"
  "CONTROLLER_LABEL_ID \<noteq> AKRI_CONFIGURATION_LABEL_NAME"
  "CONTROLLER_LABEL_ID \<noteq> AKRI_INSTANCE_LABEL_NAME"
  "CONTROLLER_LABEL_ID \<noteq> AKRI_TARGET_NODE_LABEL_NAME"
  "AKRI_CONFIGURATION_LABEL_NAME \<noteq> AKRI_INSTANCE_LABEL_NAME"
  "AKRI_CONFIGURATION_LABEL_NAME \<noteq> AKRI_TARGET_NODE_LABEL_NAME"
  "AKRI_INSTANCE_LABEL_NAME \<noteq> AKRI_TARGET_NODE_LABEL_NAME"
  by (simp_all add: label_defs)

lemmas label_neqs [simp] = label_neq label_neq [symmetric]

section \<open>Pods\<close>

definition create_pod_app_name :: "string \<Rightarrow> string \<Rightarrow> bool \<Rightarrow> string \<Rightarrow> string" where
  "create_pod_app_name instance_name node_to_run_pod_on capability_is_shared app_name_suffix =
     (let normalized_instance_name = replace_char CHR ''.'' CHR ''-'' instance_name
      in if capability_is_shared
         then dash node_to_run_pod_on (dash normalized_instance_name app_name_suffix)
         else dash normalized_instance_name app_name_suffix)"

text \<open>The rewriting of one resource map: the placeholder key becomes the resource's name.\<close>

definition replace_placeholder :: "string \<Rightarrow> ResourceQuantityType \<Rightarrow> ResourceQuantityType" where
  "replace_placeholder resource_limit_name m =
     (case map_of m RESOURCE_REQUIREMENTS_KEY of
        Some placeholder_value \<Rightarrow>
          hm_remove RESOURCE_REQUIREMENTS_KEY (hm_insert resource_limit_name placeholder_value m)
      | None \<Rightarrow> m)"

definition modify_container :: "string \<Rightarrow> Container \<Rightarrow> Container" where
  "modify_container resource_limit_name c =
     (let incoming_limits = (case c_resources c of
            Some rs \<Rightarrow> map_option (replace_placeholder resource_limit_name) (limits rs)
          | None \<Rightarrow> None);
          incoming_requests = (case c_resources c of
            Some rs \<Rightarrow> map_option (replace_placeholder resource_limit_name) (requests rs)
          | None \<Rightarrow> None)
      in c\<lparr>c_resources := Some \<lparr>limits = incoming_limits, requests = incoming_requests\<rparr>\<rparr>)"

text \<open>The chain of \<open>get_or_insert\<close> calls that appends one node selector term.\<close>

definition target_term :: "string \<Rightarrow> NodeSelectorTerm" where
  "target_term node = \<lparr>match_expressions = None,
     match_fields = Some [\<lparr>nsr_key = OBJECT_NAME_FIELD, nsr_operator = NODE_SELECTOR_OP_IN,
                           nsr_values = Some [node]\<rparr>]\<rparr>"

definition get_or_insert :: "'a option \<Rightarrow> 'a \<Rightarrow> 'a" where
  "get_or_insert x d = (case x of Some a \<Rightarrow> a | None \<Rightarrow> d)"

definition push_target_node :: "string \<Rightarrow> PodSpec \<Rightarrow> PodSpec" where
  "push_target_node node ps =
     (let a = get_or_insert (affinity ps) Affinity_default;
          na = get_or_insert (node_affinity a) NodeAffinity_default;
          nsel = get_or_insert (required_during_scheduling na) \<lparr>node_selector_terms = []\<rparr>;
          nsel' = nsel\<lparr>node_selector_terms := node_selector_terms nsel @ [target_term node]\<rparr>
      in ps\<lparr>affinity := Some (a\<lparr>node_affinity :=
            Some (na\<lparr>required_during_scheduling := Some nsel'\<rparr>)\<rparr>)\<rparr>)"

definition k8s_owner :: "OwnershipInfo \<Rightarrow> K8sOwnerReference" where
  "k8s_owner ownership = \<lparr>kor_api_version = get_api_version ownership, kor_kind = get_kind ownership,
     kor_controller = Some (get_controller ownership),
     kor_block_owner_deletion = Some (get_block_owner_deletion ownership),
     kor_name = get_name ownership, kor_uid = get_uid ownership\<rparr>"

definition create_new_pod_from_spec ::
  "string \<Rightarrow> string \<Rightarrow> string \<Rightarrow> OwnershipInfo \<Rightarrow> string \<Rightarrow> string \<Rightarrow> bool \<Rightarrow> PodSpec
   \<Rightarrow> (Pod, error) result" where
  "create_new_pod_from_spec pod_namespace instance_name config_name ownership
     resource_limit_name node_to_run_pod_on capability_is_shared ps =
     (let app_name = create_pod_app_name instance_name node_to_run_pod_on capability_is_shared ''pod'';
          labels = hm_insert APP_LABEL_ID app_name [];
          labels = hm_insert CONTROLLER_LABEL_ID API_NAMESPACE labels;
          labels = hm_insert AKRI_CONFIGURATION_LABEL_NAME config_name labels;
          labels = hm_insert AKRI_INSTANCE_LABEL_NAME instance_name labels;
          labels = hm_insert AKRI_TARGET_NODE_LABEL_NAME node_to_run_pod_on labels;
          owner_references = [k8s_owner ownership];
          modified_pod_spec = ps\<lparr>containers := map (modify_container resource_limit_name) (containers ps)\<rparr>;
          modified_pod_spec = push_target_node node_to_run_pod_on modified_pod_spec
      in Ok \<lparr>pod_metadata = Some \<lparr>k_name = Some app_name, k_namespace = Some pod_namespace,
                 k_labels = Some labels, k_owner_references = Some owner_references\<rparr>,
             pod_spec = Some modified_pod_spec, pod_status = None\<rparr>)"

text \<open>Reading a built Pod.\<close>

definition pod_name :: "Pod \<Rightarrow> string option" where
  "pod_name p = Option.bind (pod_metadata p) k_name"

definition pod_label :: "Pod \<Rightarrow> string \<Rightarrow> string option" where
  "pod_label p l = (case pod_metadata p of Some md \<Rightarrow>
     (case k_labels md of Some ls \<Rightarrow> map_of ls l | None \<Rightarrow> None) | None \<Rightarrow> None)"

definition required_terms :: "PodSpec \<Rightarrow> NodeSelectorTerm list" where
  "required_terms ps = (case affinity ps of None \<Rightarrow> [] | Some a \<Rightarrow>
     (case node_affinity a of None \<Rightarrow> [] | Some na \<Rightarrow>
       (case required_during_scheduling na of None \<Rightarrow> [] | Some nsel \<Rightarrow> node_selector_terms nsel)))"

section \<open>Services\<close>

definition create_service_app_name :: "string \<Rightarrow> string \<Rightarrow> string \<Rightarrow> bool \<Rightarrow> string" where
  "create_service_app_name config_name instance_name svc_suffix node_specific_svc =
     (let normalized_instance_name = replace_char CHR ''.'' CHR ''-'' instance_name
      in if node_specific_svc then dash normalized_instance_name svc_suffix
         else dash config_name svc_suffix)"

definition create_new_service_from_spec ::
  "string \<Rightarrow> string \<Rightarrow> string \<Rightarrow> OwnershipInfo \<Rightarrow> ServiceSpec \<Rightarrow> bool \<Rightarrow> (Service, error) result"
where
  "create_new_service_from_spec svc_namespace instance_name config_name ownership ss node_specific_svc =
     (let app_name = create_service_app_name config_name instance_name ''svc'' node_specific_svc;
          labels = hm_insert APP_LABEL_ID app_name [];
          labels = hm_insert CONTROLLER_LABEL_ID API_NAMESPACE labels;
          labels = (if node_specific_svc
                    then hm_insert AKRI_INSTANCE_LABEL_NAME instance_name labels
                    else hm_insert AKRI_CONFIGURATION_LABEL_NAME config_name labels);
          owner_references = [k8s_owner ownership];
          modified_selector = (case selector ss of Some sel \<Rightarrow> sel | None \<Rightarrow> []);
          modified_selector = hm_insert CONTROLLER_LABEL_ID API_NAMESPACE modified_selector;
          modified_selector = (if node_specific_svc
                    then hm_insert AKRI_INSTANCE_LABEL_NAME instance_name modified_selector
                    else hm_insert AKRI_CONFIGURATION_LABEL_NAME config_name modified_selector)
      in Ok \<lparr>svc_metadata = Some \<lparr>k_name = Some app_name, k_namespace = Some svc_namespace,
                 k_labels = Some labels, k_owner_references = Some owner_references\<rparr>,
             svc_spec = Some (ss\<lparr>selector := Some modified_selector\<rparr>)\<rparr>)"

definition kube_owner :: "OwnershipInfo \<Rightarrow> OwnerReference" where
  "kube_owner ownership = \<lparr>or_apiVersion = get_api_version ownership, or_kind = get_kind ownership,
     or_controller = get_controller ownership,
     or_blockOwnerDeletion = get_block_owner_deletion ownership,
     or_name = get_name ownership, or_uid = get_uid ownership\<rparr>"

definition update_ownership ::
  "ServiceObject \<Rightarrow> OwnershipInfo \<Rightarrow> bool \<Rightarrow> (ServiceObject, error) result" where
  "update_ownership svc ownership replace_references =
     (let md = metadata svc;
          refs = m_ownerReferences md
      in if replace_references
         then Ok (svc\<lparr>metadata := md\<lparr>m_ownerReferences := [kube_owner ownership]\<rparr>\<rparr>)
         else if \<not> list_ex (\<lambda>x. or_uid x = get_uid ownership) refs
         then Ok (svc\<lparr>metadata := md\<lparr>m_ownerReferences := refs @ [kube_owner ownership]\<rparr>\<rparr>)
         else Ok svc)"

definition svc_selector :: "Service \<Rightarrow> (string, string) hashmap" where
  "svc_selector s = (case svc_spec s of None \<Rightarrow> [] | Some ss \<Rightarrow>
     (case selector ss of None \<Rightarrow> [] | Some sel \<Rightarrow> sel))"

text \<open>A Service selects a Pod when every pair of its selector is a label of the Pod.\<close>

definition selects :: "(string, string) hashmap \<Rightarrow> (string \<Rightarrow> string option) \<Rightarrow> bool" where
  "selects sel lbl \<longleftrightarrow> list_all (\<lambda>(k, v). lbl k = Some v) sel"

section \<open>Facts about the builders\<close>

lemma replace_placeholder_get:
  "map_of (replace_placeholder n m) k =
     (if map_of m RESOURCE_REQUIREMENTS_KEY = None then map_of m k
      else if k = RESOURCE_REQUIREMENTS_KEY then None
      else if k = n then map_of m RESOURCE_REQUIREMENTS_KEY
      else map_of m k)"
  by (auto simp: replace_placeholder_def hashmap_simps split: option.split)

lemma replace_placeholder_gone:
  "map_of (replace_placeholder n m) RESOURCE_REQUIREMENTS_KEY = None"
  by (simp add: replace_placeholder_get)

lemma required_terms_push: "required_terms (push_target_node n ps) = required_terms ps @ [target_term n]"
  by (auto simp: required_terms_def push_target_node_def Let_def get_or_insert_def Affinity_default_def
      NodeAffinity_default_def split: option.split)

lemma push_target_node_frame:
  "containers (push_target_node n ps) = containers ps" "ps_other (push_target_node n ps) = ps_other ps"
  by (simp_all add: push_target_node_def Let_def)

lemma app_name_shared_inj:
  "create_pod_app_name i n True s = create_pod_app_name i n' True s \<Longrightarrow> n = n'"
  by (simp add: create_pod_app_name_def)

lemma pod_name_new:
  "create_new_pod_from_spec ns i c ow rl n sh ps = Ok p \<Longrightarrow>
   pod_name p = Some (create_pod_app_name i n sh ''pod'')"
  by (auto simp: create_new_pod_from_spec_def pod_name_def Let_def)

lemma pod_label_new:
  assumes "create_new_pod_from_spec ns inst cfg ow rl node sh ps = Ok p"
  shows "pod_label p l =
      (if l = AKRI_TARGET_NODE_LABEL_NAME then Some node
       else if l = AKRI_INSTANCE_LABEL_NAME then Some inst
       else if l = AKRI_CONFIGURATION_LABEL_NAME then Some cfg
       else if l = CONTROLLER_LABEL_ID then Some API_NAMESPACE
       else if l = APP_LABEL_ID then pod_name p
       else None)"
  using assms
  by (auto simp: create_new_pod_from_spec_def pod_label_def pod_name_def Let_def)

lemma create_new_pod_ok: "\<exists>p. create_new_pod_from_spec ns i c ow rl n sh ps = Ok p"
  by (simp add: create_new_pod_from_spec_def Let_def)

lemma create_new_service_ok: "\<exists>s. create_new_service_from_spec ns i c ow ss b = Ok s"
  by (simp add: create_new_service_from_spec_def Let_def)

lemma update_ownership_ok: "\<exists>s'. update_ownership s ow b = Ok s'"
  by (simp add: update_ownership_def Let_def)

text \<open>The labels of a broker Pod and its owner.\<close>

lemma new_pod_labels:
  assumes "create_new_pod_from_spec ns inst cfg ow rl node sh ps = Ok p"
  shows "(\<forall>l. pod_label p l =
      (if l = AKRI_TARGET_NODE_LABEL_NAME then Some node
       else if l = AKRI_INSTANCE_LABEL_NAME then Some inst
       else if l = AKRI_CONFIGURATION_LABEL_NAME then Some cfg
       else if l = CONTROLLER_LABEL_ID then Some API_NAMESPACE
       else if l = APP_LABEL_ID then pod_name p
       else None))
    \<and> (\<exists>md. pod_metadata p = Some md \<and> k_namespace md = Some ns
       \<and> k_owner_references md = Some [k8s_owner ow])"
  using pod_label_new [OF assms] assms
  by (auto simp: create_new_pod_from_spec_def Let_def)

text \<open>The resources of its containers.\<close>

lemma new_pod_resources:
  assumes "create_new_pod_from_spec ns inst cfg ow rl node sh ps = Ok p"
    and "i < length (containers ps)"
  shows "\<exists>ps'. pod_spec p = Some ps' \<and> length (containers ps') = length (containers ps) \<and>
    (\<exists>rs'. c_resources (containers ps' ! i) = Some rs' \<and>
      c_other (containers ps' ! i) = c_other (containers ps ! i) \<and>
      (case c_resources (containers ps ! i) of
         None \<Rightarrow> limits rs' = None \<and> requests rs' = None
       | Some rs \<Rightarrow>
          (\<forall>(old, new) \<in> {(limits rs, limits rs'), (requests rs, requests rs')}.
             (case old of None \<Rightarrow> new = None | Some m \<Rightarrow> (\<exists>m'. new = Some m' \<and>
                map_of m' RESOURCE_REQUIREMENTS_KEY = None \<and>
                (\<forall>k. k \<noteq> RESOURCE_REQUIREMENTS_KEY \<longrightarrow> map_of m' k =
                  (if k = rl \<and> map_of m RESOURCE_REQUIREMENTS_KEY \<noteq> None
                   then map_of m RESOURCE_REQUIREMENTS_KEY else map_of m k)))))))"
proof -
  let ?c = "containers ps ! i"
  from assms have p: "pod_spec p = Some (push_target_node node
      (ps\<lparr>containers := map (modify_container rl) (containers ps)\<rparr>))"
    by (auto simp: create_new_pod_from_spec_def Let_def)
  have "c_other (modify_container rl ?c) = c_other ?c"
    by (simp add: modify_container_def Let_def)
  moreover have "c_resources (modify_container rl ?c) = Some
     \<lparr>limits = (case c_resources ?c of Some rs \<Rightarrow> map_option (replace_placeholder rl) (limits rs) | None \<Rightarrow> None),
      requests = (case c_resources ?c of Some rs \<Rightarrow> map_option (replace_placeholder rl) (requests rs) | None \<Rightarrow> None)\<rparr>"
    by (simp add: modify_container_def Let_def)
  ultimately show ?thesis
    using assms(2)
    by (auto simp: p push_target_node_frame replace_placeholder_get split: option.splits)
qed

text \<open>
  C14: What is in a broker Pod. A Pod built from a broker template carries exactly the five
  labels the Controller later searches by: its own name, the controller, the Configuration, the
  Instance and the target node; it is owned by the given owner alone and lives in the given
  namespace. In every container the placeholder key is gone from limits and requests, the
  quantity it had is now requested under the Instance's resource name, every other resource is
  as in the template, and a container without resources gets an empty resource requirement.
\<close>

theorem new_pod_spec:
  assumes "create_new_pod_from_spec ns inst cfg ow rl node sh ps = Ok p"
    and "i < length (containers ps)"
  shows "(\<forall>l. pod_label p l =
      (if l = AKRI_TARGET_NODE_LABEL_NAME then Some node
       else if l = AKRI_INSTANCE_LABEL_NAME then Some inst
       else if l = AKRI_CONFIGURATION_LABEL_NAME then Some cfg
       else if l = CONTROLLER_LABEL_ID then Some API_NAMESPACE
       else if l = APP_LABEL_ID then pod_name p
       else None))
    \<and> (\<exists>md. pod_metadata p = Some md \<and> k_namespace md = Some ns
       \<and> k_owner_references md = Some [k8s_owner ow])
    \<and> (\<exists>ps'. pod_spec p = Some ps' \<and> length (containers ps') = length (containers ps) \<and>
    (\<exists>rs'. c_resources (containers ps' ! i) = Some rs' \<and>
      c_other (containers ps' ! i) = c_other (containers ps ! i) \<and>
      (case c_resources (containers ps ! i) of
         None \<Rightarrow> limits rs' = None \<and> requests rs' = None
       | Some rs \<Rightarrow>
          (\<forall>(old, new) \<in> {(limits rs, limits rs'), (requests rs, requests rs')}.
             (case old of None \<Rightarrow> new = None | Some m \<Rightarrow> (\<exists>m'. new = Some m' \<and>
                map_of m' RESOURCE_REQUIREMENTS_KEY = None \<and>
                (\<forall>k. k \<noteq> RESOURCE_REQUIREMENTS_KEY \<longrightarrow> map_of m' k =
                  (if k = rl \<and> map_of m RESOURCE_REQUIREMENTS_KEY \<noteq> None
                   then map_of m RESOURCE_REQUIREMENTS_KEY else map_of m k))))))))"
  by (rule conjI [OF new_pod_labels [OF assms(1)] new_pod_resources [OF assms], unfolded conj_assoc])

theorem new_pod_spec_witness:
  "\<exists>ps' rs' m'. pod_spec (case create_new_pod_from_spec ''ns'' ''cam'' ''cfg''
        (OwnershipInfo_new OwnedByInstance ''cam'' ''uid'') ''akri.sh/cam'' ''node-a'' True
        \<lparr>containers = [\<lparr>c_resources = Some \<lparr>limits = Some [(''{{PLACEHOLDER}}'', ''1'')],
            requests = None\<rparr>, c_other = ''''\<rparr>], affinity = None, ps_other = ''''\<rparr> of Ok p \<Rightarrow> p) = Some ps'
    \<and> c_resources (containers ps' ! 0) = Some rs' \<and> limits rs' = Some m'
    \<and> map_of m' ''akri.sh/cam'' = Some ''1''"
proof -
  let ?ps = "\<lparr>containers = [\<lparr>c_resources = Some \<lparr>limits = Some [(''{{PLACEHOLDER}}'', ''1'')],
            requests = None\<rparr>, c_other = ''''\<rparr>], affinity = None, ps_other = ''''\<rparr>"
  obtain p where p: "create_new_pod_from_spec ''ns'' ''cam'' ''cfg''
       (OwnershipInfo_new OwnedByInstance ''cam'' ''uid'') ''akri.sh/cam'' ''node-a'' True ?ps = Ok p"
    using create_new_pod_ok by blast
  show ?thesis using new_pod_spec [OF p, of 0, THEN conjunct2]
    by (auto simp: p RESOURCE_REQUIREMENTS_KEY_def)
qed

text \<open>
  The placement of a broker Pod. The term that names the target node is appended to the
  required node selector terms of the template; so a template without such terms yields a
  Pod whose only required term is the target node.
\<close>

theorem new_pod_placement:
  assumes "create_new_pod_from_spec ns inst cfg ow rl node sh ps = Ok p"
  shows "map_option required_terms (pod_spec p) = Some (required_terms ps @ [target_term node])"
  using assms
  by (auto simp: create_new_pod_from_spec_def Let_def required_terms_push)
    (simp add: required_terms_def)

theorem new_pod_placement_witness:
  "map_option required_terms (pod_spec (case create_new_pod_from_spec ''ns'' ''cam'' ''cfg''
       (OwnershipInfo_new OwnedByInstance ''cam'' ''uid'') ''akri.sh/cam'' ''node-a'' True
       \<lparr>containers = [], affinity = None, ps_other = ''''\<rparr> of Ok p \<Rightarrow> p)) = Some [target_term ''node-a'']"
proof -
  obtain p where p: "create_new_pod_from_spec ''ns'' ''cam'' ''cfg''
       (OwnershipInfo_new OwnedByInstance ''cam'' ''uid'') ''akri.sh/cam'' ''node-a'' True
       \<lparr>containers = [], affinity = None, ps_other = ''''\<rparr> = Ok p"
    using create_new_pod_ok by blast
  show ?thesis using new_pod_placement [OF p] by (simp add: p required_terms_def)
qed

lemma selects_insert:
  "selects sel lbl \<Longrightarrow> lbl k = Some v \<Longrightarrow> selects (hm_insert k v sel) lbl"
  by (induction sel) (auto simp: selects_def)

lemma selects_insertD: "selects (hm_insert k v sel) lbl \<Longrightarrow> lbl k = Some v"
  by (induction sel) (auto simp: selects_def split: if_splits)

text \<open>
  C15: Services find their Pods and no others. Of the broker Pods that satisfy the selector of
  the Service's template, if it has one, a Service built for an Instance selects exactly those
  built for that Instance, and a Service built for a Configuration exactly those built for that
  Configuration, whatever their Instance.
\<close>

theorem service_selects_broker_pods:
  assumes "create_new_service_from_spec ns inst cfg ow ss node_specific = Ok svc"
    and "create_new_pod_from_spec pns pod_inst pod_cfg pow rl node sh ps = Ok p"
    and "case selector ss of None \<Rightarrow> True | Some sel \<Rightarrow> selects sel (pod_label p)"
  shows "selects (svc_selector svc) (pod_label p) \<longleftrightarrow> (if node_specific then pod_inst = inst else pod_cfg = cfg)"
proof -
  let ?sel = "case selector ss of Some sel \<Rightarrow> sel | None \<Rightarrow> []"
  let ?own = "if node_specific then hm_insert AKRI_INSTANCE_LABEL_NAME inst (hm_insert CONTROLLER_LABEL_ID API_NAMESPACE ?sel)
    else hm_insert AKRI_CONFIGURATION_LABEL_NAME cfg (hm_insert CONTROLLER_LABEL_ID API_NAMESPACE ?sel)"
  have l: "pod_label p CONTROLLER_LABEL_ID = Some API_NAMESPACE"
      "pod_label p AKRI_INSTANCE_LABEL_NAME = Some pod_inst"
      "pod_label p AKRI_CONFIGURATION_LABEL_NAME = Some pod_cfg"
    by (simp_all add: pod_label_new [OF assms(2)])
  have sel: "selects ?sel (pod_label p)"
    using assms(3) by (auto simp: selects_def split: option.splits)
  have "svc_selector svc = ?own"
    using assms(1) by (auto simp: create_new_service_from_spec_def svc_selector_def Let_def split: if_splits)
  with l sel show ?thesis by (auto intro!: selects_insert dest: selects_insertD)
qed

text \<open>The Service of a Configuration and a Pod of one of its Instances; the Service of another Instance.\<close>

theorem service_selects_broker_pods_witness:
  "\<exists>svc svc' p. create_new_service_from_spec ''ns'' ''cam-2'' ''cfg''
       (OwnershipInfo_new OwnedByConfiguration ''cfg'' ''uid'') \<lparr>selector = None, ss_other = ''''\<rparr> False = Ok svc
    \<and> create_new_service_from_spec ''ns'' ''cam-2'' ''cfg''
       (OwnershipInfo_new OwnedByInstance ''cam-2'' ''uid'') \<lparr>selector = None, ss_other = ''''\<rparr> True = Ok svc'
    \<and> create_new_pod_from_spec ''ns'' ''cam-1'' ''cfg''
       (OwnershipInfo_new OwnedByInstance ''cam-1'' ''uid'') ''akri.sh/cam-1'' ''node-a'' True
       \<lparr>containers = [], affinity = None, ps_other = ''''\<rparr> = Ok p
    \<and> selects (svc_selector svc) (pod_label p) \<and> \<not> selects (svc_selector svc') (pod_label p)"
proof -
  obtain svc svc' where svc: "create_new_service_from_spec ''ns'' ''cam-2'' ''cfg''
       (OwnershipInfo_new OwnedByConfiguration ''cfg'' ''uid'') \<lparr>selector = None, ss_other = ''''\<rparr> False = Ok svc"
    "create_new_service_from_spec ''ns'' ''cam-2'' ''cfg''
       (OwnershipInfo_new OwnedByInstance ''cam-2'' ''uid'') \<lparr>selector = None, ss_other = ''''\<rparr> True = Ok svc'"
    using create_new_service_ok by blast
  obtain p where p: "create_new_pod_from_spec ''ns'' ''cam-1'' ''cfg''
       (OwnershipInfo_new OwnedByInstance ''cam-1'' ''uid'') ''akri.sh/cam-1'' ''node-a'' True
       \<lparr>containers = [], affinity = None, ps_other = ''''\<rparr> = Ok p"
    using create_new_pod_ok by blast
  show ?thesis
    using svc p service_selects_broker_pods [OF svc(1) p] service_selects_broker_pods [OF svc(2) p] by auto
qed

text \<open>
  C16: Ownership updates. Replacing leaves exactly the new owner; adding never loses an
  owner, never creates two owners with one uid, and is idempotent. Nothing but the owner
  references changes.
\<close>

theorem update_ownership_spec:
  assumes "update_ownership svc ow replace = Ok svc'"
  shows "svc' = svc\<lparr>metadata := (metadata svc)\<lparr>m_ownerReferences := m_ownerReferences (metadata svc')\<rparr>\<rparr>
    \<and> get_uid ow \<in> set (map or_uid (m_ownerReferences (metadata svc')))
    \<and> (if replace then m_ownerReferences (metadata svc') = [kube_owner ow]
       else set (m_ownerReferences (metadata svc)) \<subseteq> set (m_ownerReferences (metadata svc')))
    \<and> (distinct (map or_uid (m_ownerReferences (metadata svc))) \<longrightarrow>
         distinct (map or_uid (m_ownerReferences (metadata svc'))))
    \<and> update_ownership svc' ow replace = Ok svc'"
proof (cases "replace \<or> list_ex (\<lambda>x. or_uid x = get_uid ow) (m_ownerReferences (metadata svc))")
  case True
  with assms show ?thesis
    by (auto simp: update_ownership_def Let_def list_ex_iff kube_owner_def image_iff split: if_splits)
       (metis)+
next
  case False
  with assms show ?thesis
    by (auto simp: update_ownership_def Let_def list_ex_iff kube_owner_def split: if_splits) blast
qed

theorem update_ownership_spec_witness:
  "\<exists>svc'. update_ownership \<lparr>o_types = \<lparr>t_apiVersion = None, t_kind = None\<rparr>,
      metadata = ObjectMeta_default, spec = \<lparr>selector = None, ss_other = ''''\<rparr>, status = None\<rparr>
      (OwnershipInfo_new OwnedByPod ''p'' ''uid-1'') True = Ok svc'
    \<and> m_ownerReferences (metadata svc') = [kube_owner (OwnershipInfo_new OwnedByPod ''p'' ''uid-1'')]"
proof -
  let ?svc = "\<lparr>o_types = \<lparr>t_apiVersion = None, t_kind = None\<rparr>,
      metadata = ObjectMeta_default, spec = \<lparr>selector = None, ss_other = ''''\<rparr>, status = None\<rparr>"
  obtain svc' where s: "update_ownership ?svc (OwnershipInfo_new OwnedByPod ''p'' ''uid-1'') True = Ok svc'"
    using update_ownership_ok by blast
  show ?thesis using s update_ownership_spec [OF s] by simp
qed

end
