(* ===== verification/Kube_Impl.thy ===== *)
theory Kube_Impl
  imports Broker_Objects
begin

text \<open>
  The implementation of the trait: the functions of \<open>shared/src/akri/instance.rs\<close>,
  \<open>configuration.rs\<close>, \<open>shared/src/k8s/pod.rs\<close>, \<open>service.rs\<close> and \<open>node.rs\<close> that talk to the
  API server, and \<open>KubeImpl\<close>, which dispatches to them. Functions that have the same name
  in two modules carry the module's name as a prefix. The crate \<open>kube\<close> is a parameter
  (\<open>kube_client\<close>): it builds a request, which may fail, and sends it.
\<close>

section \<open>Requests and responses\<close>

text \<open>
  \<open>RawApi::customResource(..).group(..).version(..)\<close> and the typed \<open>Api::v1Pod\<close>,
  \<open>v1Service\<close>, \<open>v1Node\<close>; \<open>within\<close> restricts to a namespace.
\<close>

datatype resource = CustomResource string string string | V1Pod | V1Service | V1Node

record raw_api =
  ra_resource :: resource
  ra_namespace :: "string option"

definition customResource :: "string \<Rightarrow> raw_api" where
  "customResource plural =
     \<lparr>ra_resource = CustomResource plural API_NAMESPACE API_VERSION, ra_namespace = None\<rparr>"

definition typed_api :: "resource \<Rightarrow> raw_api" where
  "typed_api res = \<lparr>ra_resource = res, ra_namespace = None\<rparr>"

definition within :: "raw_api \<Rightarrow> string \<Rightarrow> raw_api" where
  "within ra ns = ra\<lparr>ra_namespace := Some ns\<rparr>"

record ListParams =
  lp_label_selector :: "string option"
  lp_field_selector :: "string option"

definition ListParams_default :: ListParams where
  "ListParams_default = \<lparr>lp_label_selector = None, lp_field_selector = None\<rparr>"

text \<open>The serialised body of a request; \<open>serde_json::to_vec\<close> succeeds on all these types.\<close>

datatype api_body =
    BodyInstance KubeAkriInstance
  | BodyPod Pod
  | BodyService Service
  | BodyServiceObject ServiceObject

datatype api_request =
    ReqList raw_api ListParams
  | ReqGet raw_api string
  | ReqCreate raw_api api_body
  | ReqDelete raw_api string
  | ReqPatch raw_api string api_body

text \<open>
  A response body. The caller's type argument says what it is decoded as; another shape is
  a decoding error, which is not an \<open>Error::Api\<close>.
\<close>

datatype api_response =
    RespInstance KubeAkriInstance
  | RespInstances "KubeAkriInstance list"
  | RespConfiguration KubeAkriConfig
  | RespConfigurations "KubeAkriConfig list"
  | RespPod PodObject
  | RespPods "PodObject list"
  | RespService ServiceObject
  | RespServices "ServiceObject list"
  | RespNode NodeObject
  | RespStatus

abbreviation serde_error :: "('a, error) result" where
  "serde_error \<equiv> Err (KubeError ''SerdeError'')"

fun as_instance :: "api_response \<Rightarrow> (KubeAkriInstance, error) result" where
  "as_instance (RespInstance x) = Ok x" | "as_instance _ = serde_error"
fun as_instances :: "api_response \<Rightarrow> (KubeAkriInstance list, error) result" where
  "as_instances (RespInstances x) = Ok x" | "as_instances _ = serde_error"
fun as_configuration :: "api_response \<Rightarrow> (KubeAkriConfig, error) result" where
  "as_configuration (RespConfiguration x) = Ok x" | "as_configuration _ = serde_error"
fun as_configurations :: "api_response \<Rightarrow> (KubeAkriConfig list, error) result" where
  "as_configurations (RespConfigurations x) = Ok x" | "as_configurations _ = serde_error"
fun as_pod :: "api_response \<Rightarrow> (PodObject, error) result" where
  "as_pod (RespPod x) = Ok x" | "as_pod _ = serde_error"
fun as_pods :: "api_response \<Rightarrow> (PodObject list, error) result" where
  "as_pods (RespPods x) = Ok x" | "as_pods _ = serde_error"
fun as_service :: "api_response \<Rightarrow> (ServiceObject, error) result" where
  "as_service (RespService x) = Ok x" | "as_service _ = serde_error"
fun as_services :: "api_response \<Rightarrow> (ServiceObject list, error) result" where
  "as_services (RespServices x) = Ok x" | "as_services _ = serde_error"
fun as_node :: "api_response \<Rightarrow> (NodeObject, error) result" where
  "as_node (RespNode x) = Ok x" | "as_node _ = serde_error"

text \<open>\<open>Void\<close>, and \<open>Either<Object, Status>\<close> of a deletion, which the code only logs.\<close>

fun as_void :: "api_response \<Rightarrow> (unit, error) result" where
  "as_void _ = Ok ()"

section \<open>The client\<close>

record 'w kube_client =
  build_request :: "api_request \<Rightarrow> (api_request, error) result"
  send_request :: "api_request \<Rightarrow> ('w, api_response) io"

text \<open>\<open>kube_client.request::<T>(req).await\<close>\<close>

definition request :: "'w kube_client \<Rightarrow> (api_response \<Rightarrow> ('a, error) result) \<Rightarrow> api_request
    \<Rightarrow> ('w, 'a) io" where
  "request kube_client decode req = try_then (send_request kube_client req) (\<lambda>x. return (decode x))"

text \<open>The typed \<open>Api\<close> calls build the request, giving up on an error, and send it.\<close>

definition api_call :: "'w kube_client \<Rightarrow> (api_response \<Rightarrow> ('a, error) result) \<Rightarrow> api_request
    \<Rightarrow> ('w, 'a) io" where
  "api_call kube_client decode req =
     try_then (return (build_request kube_client req)) (request kube_client decode)"

section \<open>Configurations\<close>

definition configuration_get_configurations :: "'w kube_client \<Rightarrow> ('w, KubeAkriConfig list) io" where
  "configuration_get_configurations kube_client =
     (let akri_config_type = customResource API_CONFIGURATIONS;
          dcc_list_params = ListParams_default
      in try_then (return (build_request kube_client (ReqList akri_config_type dcc_list_params)))
           (\<lambda>req. do {
              r \<leftarrow> request kube_client as_configurations req;
              return (case r of
                  Ok configs_retrieved \<Rightarrow> Ok configs_retrieved
                | Err (ApiError ae) \<Rightarrow> Err (ApiError ae)
                | Err e \<Rightarrow> Err e
                | Panic p \<Rightarrow> Panic p)
            }))"

definition configuration_find_configuration ::
  "string \<Rightarrow> string \<Rightarrow> 'w kube_client \<Rightarrow> ('w, KubeAkriConfig) io" where
  "configuration_find_configuration nm namespace kube_client =
     (let akri_config_type = within (customResource API_CONFIGURATIONS) namespace
      in try_then (return (build_request kube_client (ReqGet akri_config_type nm)))
           (\<lambda>req. do {
              r \<leftarrow> request kube_client as_configuration req;
              return (case r of
                  Ok config_retrieved \<Rightarrow> Ok config_retrieved
                | Err (ApiError ae) \<Rightarrow> Err (ApiError ae)
                | Err e \<Rightarrow> Err e
                | Panic p \<Rightarrow> Panic p)
            }))"

section \<open>Instances\<close>

abbreviation instance_api :: "string \<Rightarrow> raw_api" where
  "instance_api ns \<equiv> within (customResource API_INSTANCES) ns"

definition instance_get_instances :: "'w kube_client \<Rightarrow> ('w, KubeAkriInstance list) io" where
  "instance_get_instances kube_client =
     (let akri_instance_type = customResource API_INSTANCES;
          instance_list_params = ListParams_default
      in try_then (return (build_request kube_client (ReqList akri_instance_type instance_list_params)))
           (\<lambda>req. do {
              r \<leftarrow> request kube_client as_instances req;
              return (case r of
                  Ok configs_retrieved \<Rightarrow> Ok configs_retrieved
                | Err (ApiError ae) \<Rightarrow> Err (ApiError ae)
                | Err e \<Rightarrow> Err e
                | Panic p \<Rightarrow> Panic p)
            }))"

definition instance_find_instance ::
  "string \<Rightarrow> string \<Rightarrow> 'w kube_client \<Rightarrow> ('w, KubeAkriInstance) io" where
  "instance_find_instance nm namespace kube_client =
     (let akri_instance_type = instance_api namespace
      in try_then (return (build_request kube_client (ReqGet akri_instance_type nm)))
           (\<lambda>req. do {
              r \<leftarrow> request kube_client as_instance req;
              return (case r of
                  Ok config_retrieved \<Rightarrow> Ok config_retrieved
                | Err (ApiError ae) \<Rightarrow> Err (ApiError ae)
                | Err e \<Rightarrow> Err e
                | Panic p \<Rightarrow> Panic p)
            }))"

definition new_kube_instance :: "Instance \<Rightarrow> string \<Rightarrow> string \<Rightarrow> string \<Rightarrow> KubeAkriInstance" where
  "new_kube_instance inst nm owner_config_name owner_config_uid =
     \<lparr>o_types = \<lparr>t_apiVersion = Some (API_NAMESPACE @ ''/'' @ API_VERSION), t_kind = Some ''Instance''\<rparr>,
      metadata = ObjectMeta_default\<lparr>m_name := nm,
        m_ownerReferences := [\<lparr>or_apiVersion = API_NAMESPACE @ ''/'' @ API_VERSION,
          or_kind = ''Configuration'', or_controller = True, or_blockOwnerDeletion = True,
          or_name = owner_config_name, or_uid = owner_config_uid\<rparr>]\<rparr>,
      spec = inst, status = None\<rparr>"

definition instance_create_instance ::
  "Instance \<Rightarrow> string \<Rightarrow> string \<Rightarrow> string \<Rightarrow> string \<Rightarrow> 'w kube_client \<Rightarrow> ('w, unit) io" where
  "instance_create_instance instance_to_create nm namespace owner_config_name owner_config_uid kube_client =
     (let akri_instance_type = instance_api namespace;
          kube_instance = new_kube_instance instance_to_create nm owner_config_name owner_config_uid
      in try_then (return (expect ''failed to create request''
              (build_request kube_client (ReqCreate akri_instance_type (BodyInstance kube_instance)))))
           (\<lambda>create_request. do {
              r \<leftarrow> request kube_client as_instance create_request;
              return (case r of
                  Ok _ \<Rightarrow> Ok ()
                | Err (ApiError ae) \<Rightarrow> Err (ApiError ae)
                | Err e \<Rightarrow> Err e
                | Panic p \<Rightarrow> Panic p)
            }))"

definition instance_delete_instance :: "string \<Rightarrow> string \<Rightarrow> 'w kube_client \<Rightarrow> ('w, unit) io" where
  "instance_delete_instance nm namespace kube_client =
     (let akri_instance_type = instance_api namespace
      in try_then (return (expect ''failed to delete request''
              (build_request kube_client (ReqDelete akri_instance_type nm))))
           (\<lambda>delete_request. do {
              r \<leftarrow> request kube_client as_void delete_request;
              return (case r of
                  Ok _ \<Rightarrow> Ok ()
                | Err (ApiError ae) \<Rightarrow> Err (ApiError ae)
                | Err e \<Rightarrow> Err e
                | Panic p \<Rightarrow> Panic p)
            }))"

text \<open>
  The update re-reads the object, takes its metadata (the resource version included), type
  and status, and patches it with the new specification.
\<close>

definition instance_update_instance ::
  "Instance \<Rightarrow> string \<Rightarrow> string \<Rightarrow> 'w kube_client \<Rightarrow> ('w, unit) io" where
  "instance_update_instance instance_to_update nm namespace kube_client =
     (let akri_instance_type = instance_api namespace
      in try_then (instance_find_instance nm namespace kube_client) (\<lambda>existing_kube_akri_instance_type.
           let modified_kube_instance =
                 \<lparr>o_types = o_types existing_kube_akri_instance_type,
                  metadata = metadata existing_kube_akri_instance_type,
                  spec = instance_to_update,
                  status = status existing_kube_akri_instance_type\<rparr>
           in try_then (return (expect ''failed to create request''
                (build_request kube_client
                  (ReqPatch akri_instance_type nm (BodyInstance modified_kube_instance)))))
             (\<lambda>patch_request. do {
                r \<leftarrow> request kube_client as_instance patch_request;
                return (case r of
                    Ok _ \<Rightarrow> Ok ()
                  | Err (ApiError ae) \<Rightarrow> Err (ApiError ae)
                  | Err e \<Rightarrow> Err e
                  | Panic p \<Rightarrow> Panic p)
              })))"

section \<open>Nodes, Pods and Services\<close>

definition node_find_node :: "string \<Rightarrow> 'w kube_client \<Rightarrow> ('w, NodeObject) io" where
  "node_find_node nm kube_client = api_call kube_client as_node (ReqGet (typed_api V1Node) nm)"

definition find_pods_with_selector ::
  "string option \<Rightarrow> string option \<Rightarrow> 'w kube_client \<Rightarrow> ('w, PodObject list) io" where
  "find_pods_with_selector label_selector field_selector kube_client =
     (let pod_list_params = \<lparr>lp_label_selector = label_selector, lp_field_selector = field_selector\<rparr>
      in api_call kube_client as_pods (ReqList (typed_api V1Pod) pod_list_params))"

definition pod_create_pod :: "Pod \<Rightarrow> string \<Rightarrow> 'w kube_client \<Rightarrow> ('w, unit) io" where
  "pod_create_pod pod_to_create namespace kube_client = do {
     r \<leftarrow> api_call kube_client as_pod
        (ReqCreate (within (typed_api V1Pod) namespace) (BodyPod pod_to_create));
     return (case r of
         Ok _ \<Rightarrow> Ok ()
       | Err (ApiError code) \<Rightarrow> if code = ERROR_CONFLICT then Ok () else Err (ApiError code)
       | Err e \<Rightarrow> Err e
       | Panic p \<Rightarrow> Panic p)
   }"

definition pod_remove_pod :: "string \<Rightarrow> string \<Rightarrow> 'w kube_client \<Rightarrow> ('w, unit) io" where
  "pod_remove_pod pod_to_remove namespace kube_client = do {
     r \<leftarrow> api_call kube_client as_void
        (ReqDelete (within (typed_api V1Pod) namespace) pod_to_remove);
     return (case r of
         Ok _ \<Rightarrow> Ok ()
       | Err (ApiError code) \<Rightarrow> if code = ERROR_NOT_FOUND then Ok () else Err (ApiError code)
       | Err e \<Rightarrow> Err e
       | Panic p \<Rightarrow> Panic p)
   }"

definition find_services_with_selector ::
  "string \<Rightarrow> 'w kube_client \<Rightarrow> ('w, ServiceObject list) io" where
  "find_services_with_selector sel kube_client =
     (let svc_list_params = ListParams_default\<lparr>lp_label_selector := Some sel\<rparr>
      in api_call kube_client as_services (ReqList (typed_api V1Service) svc_list_params))"

definition service_create_service :: "Service \<Rightarrow> string \<Rightarrow> 'w kube_client \<Rightarrow> ('w, unit) io" where
  "service_create_service svc_to_create namespace kube_client = do {
     r \<leftarrow> api_call kube_client as_service
        (ReqCreate (within (typed_api V1Service) namespace) (BodyService svc_to_create));
     return (case r of
         Ok _ \<Rightarrow> Ok ()
       | Err (ApiError ae) \<Rightarrow> Ok ()
       | Err e \<Rightarrow> Err e
       | Panic p \<Rightarrow> Panic p)
   }"

definition service_remove_service :: "string \<Rightarrow> string \<Rightarrow> 'w kube_client \<Rightarrow> ('w, unit) io" where
  "service_remove_service svc_to_remove namespace kube_client = do {
     r \<leftarrow> api_call kube_client as_void
        (ReqDelete (within (typed_api V1Service) namespace) svc_to_remove);
     return (case r of
         Ok _ \<Rightarrow> Ok ()
       | Err (ApiError code) \<Rightarrow> if code = ERROR_NOT_FOUND then Ok () else Err (ApiError code)
       | Err e \<Rightarrow> Err e
       | Panic p \<Rightarrow> Panic p)
   }"

definition service_update_service ::
  "ServiceObject \<Rightarrow> string \<Rightarrow> string \<Rightarrow> 'w kube_client \<Rightarrow> ('w, unit) io" where
  "service_update_service svc_to_update nm namespace kube_client = do {
     r \<leftarrow> api_call kube_client as_service
        (ReqPatch (within (typed_api V1Service) namespace) nm (BodyServiceObject svc_to_update));
     return (case r of
         Ok _ \<Rightarrow> Ok ()
       | Err (ApiError ae) \<Rightarrow> Err (ApiError ae)
       | Err e \<Rightarrow> Err e
       | Panic p \<Rightarrow> Panic p)
   }"

section \<open>KubeImpl\<close>

text \<open>
  \<open>client\<close> is what \<open>get_kube_client\<close> makes of the configuration that the structure holds; every
  operation of the trait makes one and passes it on.
\<close>

definition KubeImpl :: "'w kube_client \<Rightarrow> 'w kube_interface" where
  "KubeImpl client = \<lparr>
     find_node = (\<lambda>nm. node_find_node nm client),
     find_pods_with_label = (\<lambda>sel. find_pods_with_selector (Some sel) None client),
     find_pods_with_field = (\<lambda>sel. find_pods_with_selector None (Some sel) client),
     create_pod = (\<lambda>p ns. pod_create_pod p ns client),
     remove_pod = (\<lambda>p ns. pod_remove_pod p ns client),
     find_services = (\<lambda>sel. find_services_with_selector sel client),
     create_service = (\<lambda>s ns. service_create_service s ns client),
     remove_service = (\<lambda>s ns. service_remove_service s ns client),
     update_service = (\<lambda>s nm ns. service_update_service s nm ns client),
     find_configuration = (\<lambda>nm ns. configuration_find_configuration nm ns client),
     get_configurations = configuration_get_configurations client,
     find_instance = (\<lambda>nm ns. instance_find_instance nm ns client),
     get_instances = instance_get_instances client,
     create_instance = (\<lambda>i nm ns cn cu. instance_create_instance i nm ns cn cu client),
     delete_instance = (\<lambda>nm ns. instance_delete_instance nm ns client),
     update_instance = (\<lambda>i nm ns. instance_update_instance i nm ns client)\<rparr>"

text \<open>
  \<open>KubeImpl::new\<close> reads the configuration: in a cluster from the Pod's service account, and
  otherwise from the user's file; either panics when there is none. \<open>var\<close> is
  \<open>std::env::var\<close>, \<open>incluster_config\<close> and \<open>load_kube_config\<close> are those of the crate \<open>kube\<close>,
  and \<open>api_client\<close> is its \<open>APIClient::new\<close>.
\<close>

definition KubeImpl_new :: "(string \<Rightarrow> ('w, string) io) \<Rightarrow> ('w, 'c) io \<Rightarrow> ('w, 'c) io \<Rightarrow> ('w, 'c) io" where
  "KubeImpl_new var incluster_config load_kube_config = do {
     r \<leftarrow> var ''KUBERNETES_PORT'';
     case r of
       Ok _ \<Rightarrow> unwrapped incluster_config
     | Err _ \<Rightarrow> unwrapped load_kube_config
     | Panic p \<Rightarrow> return (Panic p)
   }"

definition create_kube_interface :: "(string \<Rightarrow> ('w, string) io) \<Rightarrow> ('w, 'c) io \<Rightarrow> ('w, 'c) io
    \<Rightarrow> ('c \<Rightarrow> 'w kube_client) \<Rightarrow> ('w, 'w kube_interface) io" where
  "create_kube_interface var incluster_config load_kube_config api_client =
     try_then (KubeImpl_new var incluster_config load_kube_config) (\<lambda>kube_configuration.
       return (Ok (KubeImpl (api_client kube_configuration))))"

text \<open>Where the interface is created at all, it is \<open>KubeImpl\<close> on a client of the configuration that was read.\<close>

lemma create_kube_interface_Ok:
  assumes "run_state (create_kube_interface var incluster load api_client) w = (Ok ki, w')"
  shows "\<exists>c. ki = KubeImpl (api_client c) \<and> run_state (KubeImpl_new var incluster load) w = (Ok c, w')"
  using assms by (auto simp: create_kube_interface_def try_then_def split: prod.splits result.splits)

lemma create_kube_interface_no_Err:
  "fst (run_state (create_kube_interface var incluster load api_client) w) \<noteq> Err e"
  by (auto simp: create_kube_interface_def KubeImpl_new_def try_then_def unwrapped_def elim!: unwrap_ok.elims
      split: prod.splits result.splits)

lemma KubeImpl_sel [simp]:
  "find_node (KubeImpl c) nm = node_find_node nm c"
  "find_pods_with_label (KubeImpl c) sel = find_pods_with_selector (Some sel) None c"
  "find_pods_with_field (KubeImpl c) sel = find_pods_with_selector None (Some sel) c"
  "create_pod (KubeImpl c) p ns = pod_create_pod p ns c"
  "remove_pod (KubeImpl c) nm ns = pod_remove_pod nm ns c"
  "find_services (KubeImpl c) sel = find_services_with_selector sel c"
  "create_service (KubeImpl c) sv ns = service_create_service sv ns c"
  "remove_service (KubeImpl c) nm ns = service_remove_service nm ns c"
  "update_service (KubeImpl c) so nm ns = service_update_service so nm ns c"
  "find_configuration (KubeImpl c) nm ns = configuration_find_configuration nm ns c"
  "get_configurations (KubeImpl c) = configuration_get_configurations c"
  "find_instance (KubeImpl c) nm ns = instance_find_instance nm ns c"
  "get_instances (KubeImpl c) = instance_get_instances c"
  "create_instance (KubeImpl c) i nm ns cn cu = instance_create_instance i nm ns cn cu c"
  "delete_instance (KubeImpl c) nm ns = instance_delete_instance nm ns c"
  "update_instance (KubeImpl c) i nm ns = instance_update_instance i nm ns c"
  by (simp_all add: KubeImpl_def)

end
