(* ===== verification/Kube_Store.thy ===== *)
theory Kube_Store
  imports Kube_Impl
begin

text \<open>
  What the handlers rely on about the cluster, as locales. \<open>kube_store\<close> is the contract of
  a \<open>KubeInterface\<close> over a store of Instances; \<open>reliable_store\<close> adds that calls which
  should succeed do. \<open>api_server\<close> is the documented behaviour of the API server behind the
  crate \<open>kube\<close>, and a sublocale declaration proves that \<open>KubeImpl\<close> on top of it keeps the
  contract. A small executable API server shows that the contract can be met; the
  witnesses of the development run against it.
\<close>

section \<open>Merge patches\<close>

text \<open>
  A JSON merge patch (RFC 7386) replaces scalars and lists, and merges objects key by key:
  the keys of a map that the patch does not mention keep their values.
\<close>

definition merge_instance :: "Instance \<Rightarrow> Instance \<Rightarrow> Instance" where
  "merge_instance old new = new\<lparr>
     instance_metadata := AList.merge (instance_metadata old) (instance_metadata new),
     device_usage := AList.merge (device_usage old) (device_usage new)\<rparr>"

lemma merge_instance_sel [simp]:
  "nodes (merge_instance a b) = nodes b" "shared (merge_instance a b) = shared b"
  "configuration_name (merge_instance a b) = configuration_name b"
  "slot_owner (merge_instance a b) s =
     (case slot_owner b s of None \<Rightarrow> slot_owner a s | Some v \<Rightarrow> Some v)"
  "rbac (merge_instance a b) = rbac b"
  "map_of (instance_metadata (merge_instance a b)) = map_of (instance_metadata a) ++ map_of (instance_metadata b)"
  by (simp_all add: merge_instance_def merge_conv' map_add_def)

lemma map_add_self [simp]: "m ++ m = m"
  by (simp add: fun_eq_iff map_add_def split: option.split)

lemma instance_wf_merge [simp]: "instance_wf i \<Longrightarrow> instance_wf (merge_instance i j)"
  by (simp add: instance_wf_def merge_instance_def hm_wf_def hm_keys_def distinct_merge)

type_synonym inst_store = "string \<times> string \<Rightarrow> KubeAkriInstance option"

text \<open>The effects a call can have on the store.\<close>

definition stored_as :: "KubeAkriInstance \<Rightarrow> string \<Rightarrow> string \<Rightarrow> bool" where
  "stored_as x nm ns \<longleftrightarrow> m_name (metadata x) = nm \<and> m_namespace (metadata x) = Some ns"

definition patched :: "Instance \<Rightarrow> string \<Rightarrow> string \<Rightarrow> inst_store \<Rightarrow> inst_store \<Rightarrow> bool" where
  "patched i nm ns st st' \<longleftrightarrow> (\<exists>x x'. st (nm, ns) = Some x \<and> st' = st((nm, ns) \<mapsto> x') \<and>
      spec x' = merge_instance (spec x) i \<and> stored_as x' nm ns)"

definition created :: "Instance \<Rightarrow> string \<Rightarrow> string \<Rightarrow> inst_store \<Rightarrow> inst_store \<Rightarrow> bool" where
  "created i nm ns st st' \<longleftrightarrow> (\<exists>x'. st (nm, ns) = None \<and> st' = st((nm, ns) \<mapsto> x') \<and>
      spec x' = i \<and> stored_as x' nm ns)"

definition removed :: "string \<Rightarrow> string \<Rightarrow> inst_store \<Rightarrow> inst_store \<Rightarrow> bool" where
  "removed nm ns st st' \<longleftrightarrow> st' = st((nm, ns) := None)"

text \<open>
  A write that reports success has happened; one that reports an error may still have
  (a response can be lost after the server has acted).
\<close>

definition write_effect :: "(inst_store \<Rightarrow> inst_store \<Rightarrow> bool) \<Rightarrow> inst_store \<Rightarrow> ('a, error) result
    \<Rightarrow> inst_store \<Rightarrow> bool" where
  "write_effect E st r st' \<longleftrightarrow> E st st' \<or> (\<not> is_ok r \<and> st' = st)"

section \<open>The contract of the interface\<close>

locale kube_store =
  fixes ki :: "'w kube_interface"
    and insts :: "'w \<Rightarrow> inst_store"
  assumes insts_named: "insts w (nm, ns) = Some x \<Longrightarrow> stored_as x nm ns"
    and find_instance_law: "wp (find_instance ki nm ns)
      (\<lambda>r w'. insts w' = insts w \<and> (\<forall>x. r = Ok x \<longrightarrow> insts w (nm, ns) = Some x)) w"
    and get_instances_law: "wp (get_instances ki)
      (\<lambda>r w'. insts w' = insts w \<and> (\<forall>xs. r = Ok xs \<longrightarrow> set xs = ran (insts w))) w"
    and create_instance_law: "wp (create_instance ki i nm ns cn cu)
      (\<lambda>r w'. write_effect (created i nm ns) (insts w) r (insts w')) w"
    and update_instance_law: "wp (update_instance ki i nm ns)
      (\<lambda>r w'. write_effect (patched i nm ns) (insts w) r (insts w')) w"
    and delete_instance_law: "wp (delete_instance ki nm ns)
      (\<lambda>r w'. write_effect (removed nm ns) (insts w) r (insts w')) w"
    and find_node_law: "wp (find_node ki nm) (\<lambda>_ w'. insts w' = insts w) w"
    and find_pods_with_label_law: "wp (find_pods_with_label ki sel) (\<lambda>_ w'. insts w' = insts w) w"
    and find_pods_with_field_law: "wp (find_pods_with_field ki sel) (\<lambda>_ w'. insts w' = insts w) w"
    and create_pod_law: "wp (create_pod ki p ns) (\<lambda>_ w'. insts w' = insts w) w"
    and remove_pod_law: "wp (remove_pod ki nm ns) (\<lambda>_ w'. insts w' = insts w) w"
    and find_services_law: "wp (find_services ki sel) (\<lambda>_ w'. insts w' = insts w) w"
    and create_service_law: "wp (create_service ki sv ns) (\<lambda>_ w'. insts w' = insts w) w"
    and remove_service_law: "wp (remove_service ki nm ns) (\<lambda>_ w'. insts w' = insts w) w"
    and update_service_law: "wp (update_service ki so nm ns) (\<lambda>_ w'. insts w' = insts w) w"
    and find_configuration_law: "wp (find_configuration ki nm ns) (\<lambda>_ w'. insts w' = insts w) w"
    and get_configurations_law: "wp (get_configurations ki) (\<lambda>_ w'. insts w' = insts w) w"
begin

text \<open>The laws as rules that apply to any postcondition.\<close>

lemma wp_find_instance:
  assumes "\<And>r w'. insts w' = insts w \<Longrightarrow> (\<And>x. r = Ok x \<Longrightarrow> insts w (nm, ns) = Some x) \<Longrightarrow> Q r w'"
  shows "wp (find_instance ki nm ns) Q w"
  by (rule wp_mono [OF find_instance_law]) (auto intro: assms)

lemma wp_get_instances:
  assumes "\<And>r w'. insts w' = insts w \<Longrightarrow> (\<And>xs. r = Ok xs \<Longrightarrow> set xs = ran (insts w)) \<Longrightarrow> Q r w'"
  shows "wp (get_instances ki) Q w"
  by (rule wp_mono [OF get_instances_law]) (auto intro: assms)

lemma wp_update_instance:
  assumes "\<And>r w'. write_effect (patched i nm ns) (insts w) r (insts w') \<Longrightarrow> Q r w'"
  shows "wp (update_instance ki i nm ns) Q w"
  by (rule wp_mono [OF update_instance_law]) (auto intro: assms)

lemma wp_create_instance:
  assumes "\<And>r w'. write_effect (created i nm ns) (insts w) r (insts w') \<Longrightarrow> Q r w'"
  shows "wp (create_instance ki i nm ns cn cu) Q w"
  by (rule wp_mono [OF create_instance_law]) (auto intro: assms)

lemma wp_delete_instance:
  assumes "\<And>r w'. write_effect (removed nm ns) (insts w) r (insts w') \<Longrightarrow> Q r w'"
  shows "wp (delete_instance ki nm ns) Q w"
  by (rule wp_mono [OF delete_instance_law]) (auto intro: assms)

lemma wp_find_pods_with_field:
  assumes "\<And>r w'. insts w' = insts w \<Longrightarrow> Q r w'"
  shows "wp (find_pods_with_field ki sel) Q w"
  by (rule wp_mono [OF find_pods_with_field_law]) (auto intro: assms)

end

locale reliable_store = kube_store +
  assumes find_instance_ok: "insts w (nm, ns) = Some x \<Longrightarrow> wp (find_instance ki nm ns) (\<lambda>r _. is_ok r) w"
    and get_instances_ok: "wp (get_instances ki) (\<lambda>r _. is_ok r) w"
    and update_instance_ok:
      "insts w (nm, ns) = Some x \<Longrightarrow> wp (update_instance ki i nm ns) (\<lambda>r _. is_ok r) w"
    and create_instance_ok:
      "insts w (nm, ns) = None \<Longrightarrow> wp (create_instance ki i nm ns cn cu) (\<lambda>r _. is_ok r) w"
    and delete_instance_ok:
      "insts w (nm, ns) = Some x \<Longrightarrow> wp (delete_instance ki nm ns) (\<lambda>r _. is_ok r) w"
begin

lemma wp_find_instance_ok:
  assumes "insts w (nm, ns) = Some x" and "\<And>w'. insts w' = insts w \<Longrightarrow> Q (Ok x) w'"
  shows "wp (find_instance ki nm ns) Q w"
  using wp_conj [THEN iffD2, OF conjI [OF find_instance_ok [OF assms(1)] find_instance_law [of nm ns w]]]
  by (rule wp_mono) (use assms in \<open>auto simp: is_ok_iff\<close>)

lemma wp_update_instance_ok:
  assumes "insts w (nm, ns) = Some x"
    and "\<And>w'. patched i nm ns (insts w) (insts w') \<Longrightarrow> Q (Ok ()) w'"
  shows "wp (update_instance ki i nm ns) Q w"
  using wp_conj [THEN iffD2, OF conjI [OF update_instance_ok [OF assms(1)] update_instance_law [of i nm ns w]]]
  by (rule wp_mono) (use assms in \<open>auto simp: is_ok_iff write_effect_def\<close>)

end

section \<open>The API server\<close>

text \<open>
  A request that does not address the Instances of the custom resource leaves them alone.
\<close>

fun request_api :: "api_request \<Rightarrow> raw_api" where
  "request_api (ReqList ra _) = ra"
| "request_api (ReqGet ra _) = ra"
| "request_api (ReqCreate ra _) = ra"
| "request_api (ReqDelete ra _) = ra"
| "request_api (ReqPatch ra _ _) = ra"

definition is_instance_request :: "api_request \<Rightarrow> bool" where
  "is_instance_request req \<longleftrightarrow> ra_resource (request_api req) = ra_resource (customResource API_INSTANCES)"

locale api_server =
  fixes client :: "'w kube_client"
    and insts :: "'w \<Rightarrow> inst_store"
  assumes built: "build_request client req = Ok req' \<Longrightarrow> req' = req"
    and server_named: "insts w (nm, ns) = Some x \<Longrightarrow> stored_as x nm ns"
    and server_other: "\<not> is_instance_request req \<Longrightarrow>
      wp (send_request client req) (\<lambda>_ w'. insts w' = insts w) w"
    and server_get: "wp (send_request client (ReqGet (instance_api ns) nm))
      (\<lambda>r w'. insts w' = insts w \<and> (\<forall>x. r = Ok (RespInstance x) \<longrightarrow> insts w (nm, ns) = Some x)) w"
    and server_list: "wp (send_request client (ReqList (customResource API_INSTANCES) ListParams_default))
      (\<lambda>r w'. insts w' = insts w \<and> (\<forall>xs. r = Ok (RespInstances xs) \<longrightarrow> set xs = ran (insts w))) w"
    and server_create: "m_name (metadata x) = nm \<Longrightarrow>
      wp (send_request client (ReqCreate (instance_api ns) (BodyInstance x)))
      (\<lambda>r w'. write_effect (created (spec x) nm ns) (insts w) r (insts w')) w"
    and server_patch: "stored_as x nm ns \<Longrightarrow>
      wp (send_request client (ReqPatch (instance_api ns) nm (BodyInstance x)))
      (\<lambda>r w'. write_effect (patched (spec x) nm ns) (insts w) r (insts w')) w"
    and server_delete: "wp (send_request client (ReqDelete (instance_api ns) nm))
      (\<lambda>r w'. write_effect (removed nm ns) (insts w) r (insts w')) w"

text \<open>Calls through the typed API and through \<open>request\<close>.\<close>

lemma wp_request [simp]: "wp (request c d req) Q = wp (send_request c req) (\<lambda>r w'. case r of
    Ok x \<Rightarrow> Q (d x) w' | Err e \<Rightarrow> Q (Err e) w' | Panic p \<Rightarrow> Q (Panic p) w')"
  by (simp add: request_def cong: result.case_cong)

lemma wp_api_call: "wp (api_call c d req) Q w = (case build_request c req of
    Ok req' \<Rightarrow> wp (request c d req') Q w | Err e \<Rightarrow> Q (Err e) w | Panic p \<Rightarrow> Q (Panic p) w)"
  by (simp add: api_call_def)

text \<open>The result of a call that keeps successes apart from errors carries the server's effect.\<close>

lemma write_effect_mono:
  "write_effect E st r st' \<Longrightarrow> (is_ok r' \<Longrightarrow> is_ok r) \<Longrightarrow> write_effect E st r' st'"
  by (auto simp: write_effect_def)

lemma write_effect_same: "\<not> is_ok r \<Longrightarrow> write_effect E st r st"
  by (simp add: write_effect_def)

context api_server
begin

lemma other_call:
  assumes "\<not> is_instance_request req"
  shows "wp (api_call client d req) (\<lambda>_ w'. insts w' = insts w) w"
  by (auto simp: wp_api_call split: result.split dest!: built
      intro!: wp_mono [OF server_other [OF assms]])

lemma find_instance_impl: "wp (instance_find_instance nm ns client)
    (\<lambda>r w'. insts w' = insts w \<and> (\<forall>x. r = Ok x \<longrightarrow> insts w (nm, ns) = Some x)) w"
  by (auto simp: instance_find_instance_def split: result.split dest!: built
      intro!: wp_mono [OF server_get] split: result.splits error.splits elim!: as_instance.elims)

lemma get_instances_impl: "wp (instance_get_instances client)
    (\<lambda>r w'. insts w' = insts w \<and> (\<forall>xs. r = Ok xs \<longrightarrow> set xs = ran (insts w))) w"
  by (auto simp: instance_get_instances_def split: result.split dest!: built
      intro!: wp_mono [OF server_list] split: result.splits error.splits elim!: as_instances.elims)

lemma create_instance_impl: "wp (instance_create_instance i nm ns cn cu client)
    (\<lambda>r w'. write_effect (created i nm ns) (insts w) r (insts w')) w"
proof -
  have "wp (send_request client (ReqCreate (instance_api ns) (BodyInstance (new_kube_instance i nm cn cu))))
      (\<lambda>r w'. write_effect (created i nm ns) (insts w) r (insts w')) w"
    using server_create [of "new_kube_instance i nm cn cu" nm ns w] by (simp add: new_kube_instance_def)
  then show ?thesis
    by (auto simp: instance_create_instance_def split: result.split dest!: built
        intro!: write_effect_same elim!: wp_mono write_effect_mono split: error.splits)
qed

lemma delete_instance_impl: "wp (instance_delete_instance nm ns client)
    (\<lambda>r w'. write_effect (removed nm ns) (insts w) r (insts w')) w"
  by (auto simp: instance_delete_instance_def split: result.split dest!: built
      intro!: write_effect_same wp_mono [OF server_delete] elim!: write_effect_mono split: error.splits)

lemma update_instance_impl: "wp (instance_update_instance i nm ns client)
    (\<lambda>r w'. write_effect (patched i nm ns) (insts w) r (insts w')) w"
  unfolding instance_update_instance_def Let_def wp_try_then
proof (rule wp_mono [OF find_instance_impl], goal_cases)
  case (1 r w')
  show ?case
  proof (cases r)
    case (Ok x)
    define y where "y = \<lparr>o_types = o_types x, metadata = metadata x, spec = i, status = status x\<rparr>"
    from 1 Ok have "stored_as y nm ns"
      using server_named [of w nm ns x] by (simp add: y_def stored_as_def)
    from server_patch [OF this, of w'] 1
    have "wp (send_request client (ReqPatch (instance_api ns) nm (BodyInstance y)))
        (\<lambda>r w''. write_effect (patched i nm ns) (insts w) r (insts w'')) w'"
      by (simp add: y_def)
    with 1 show ?thesis
      by (auto simp: Ok y_def [symmetric] split: result.split dest!: built
          intro!: write_effect_same elim!: wp_mono write_effect_mono split: error.splits)
  qed (use 1 in \<open>auto intro: write_effect_same\<close>)
qed

lemma unchanged_result:
  "wp m (\<lambda>_ w'. insts w' = insts w) w \<Longrightarrow> wp (do { r \<leftarrow> m; return (f r) }) (\<lambda>_ w'. insts w' = insts w) w"
  by simp

lemmas other_impl_defs = node_find_node_def find_pods_with_selector_def pod_create_pod_def
  pod_remove_pod_def find_services_with_selector_def service_create_service_def
  service_remove_service_def service_update_service_def is_instance_request_def
  customResource_def typed_api_def within_def

lemma configuration_impl:
  "wp (configuration_find_configuration nm ns client) (\<lambda>_ w'. insts w' = insts w) w"
  "wp (configuration_get_configurations client) (\<lambda>_ w'. insts w' = insts w) w"
  by (auto simp: configuration_find_configuration_def configuration_get_configurations_def
      is_instance_request_def customResource_def within_def API_INSTANCES_def API_CONFIGURATIONS_def
      split: result.split dest!: built intro!: wp_mono [OF server_other])

end

sublocale api_server \<subseteq> impl: kube_store "KubeImpl client" insts
proof
qed (simp_all add: server_named find_instance_impl get_instances_impl create_instance_impl
    update_instance_impl delete_instance_impl configuration_impl,
    (auto simp: other_impl_defs intro!: other_call unchanged_result)+)

context api_server
begin

lemma impl_store: "kube_store (KubeImpl client) insts"
  by (rule impl.kube_store_axioms)

end

section \<open>An executable API server\<close>

text \<open>
  A server that keeps its objects in association lists: it names what it returns by the key
  under which it is stored, refuses to create what exists and to touch what does not,
  checks the resource version of a patch, and stamps every write with a new version.
\<close>

record cluster =
  cl_instances :: "(string \<times> string, KubeAkriInstance) hashmap"
  cl_configurations :: "(string \<times> string, KubeAkriConfig) hashmap"
  cl_pods :: "(string \<times> string, PodObject) hashmap"
  cl_services :: "(string \<times> string, ServiceObject) hashmap"
  cl_nodes :: "(string, NodeObject) hashmap"
  cl_version :: nat
  cl_clock :: nat

definition named :: "string \<times> string \<Rightarrow> ('p, 'u) Object \<Rightarrow> ('p, 'u) Object" where
  "named k x = x\<lparr>metadata := (metadata x)\<lparr>m_name := fst k, m_namespace := Some (snd k)\<rparr>\<rparr>"

definition listed :: "(string \<times> string, ('p, 'u) Object) hashmap \<Rightarrow> ('p, 'u) Object list" where
  "listed m = map (\<lambda>(k, x). named k x) (AList.clearjunk m)"

definition label_matches :: "string option \<Rightarrow> ('p, 'u) Object \<Rightarrow> bool" where
  "label_matches sel x = (case sel of None \<Rightarrow> True
     | Some s \<Rightarrow> list_ex (\<lambda>(k, v). equals k v = s) (m_labels (metadata x)))"

definition instance_resource :: resource where
  "instance_resource = CustomResource API_INSTANCES API_NAMESPACE API_VERSION"

definition configuration_resource :: resource where
  "configuration_resource = CustomResource API_CONFIGURATIONS API_NAMESPACE API_VERSION"

abbreviation not_found :: "('a, error) result" where
  "not_found \<equiv> Err (ApiError ERROR_NOT_FOUND)"

definition get_named :: "(('p, 'u) Object \<Rightarrow> api_response) \<Rightarrow> (string \<times> string, ('p, 'u) Object) hashmap
    \<Rightarrow> string \<times> string \<Rightarrow> (api_response, error) result" where
  "get_named resp m k = (case map_of m k of Some x \<Rightarrow> Ok (resp (named k x)) | None \<Rightarrow> not_found)"

definition cluster_get :: "raw_api \<Rightarrow> string \<Rightarrow> 'a cluster_scheme \<Rightarrow> (api_response, error) result" where
  "cluster_get ra nm w = (case ra_namespace ra of
       Some ns \<Rightarrow>
         if ra_resource ra = instance_resource then get_named RespInstance (cl_instances w) (nm, ns)
         else if ra_resource ra = configuration_resource
         then get_named RespConfiguration (cl_configurations w) (nm, ns)
         else not_found
     | None \<Rightarrow> if ra_resource ra = V1Node
         then (case map_of (cl_nodes w) nm of Some x \<Rightarrow> Ok (RespNode x) | None \<Rightarrow> not_found)
         else not_found)"

definition cluster_list :: "raw_api \<Rightarrow> ListParams \<Rightarrow> 'a cluster_scheme \<Rightarrow> (api_response, error) result" where
  "cluster_list ra lp w =
     (if ra_resource ra = instance_resource then Ok (RespInstances (listed (cl_instances w)))
      else if ra_resource ra = configuration_resource
      then Ok (RespConfigurations (listed (cl_configurations w)))
      else if ra_resource ra = V1Pod
      then Ok (RespPods (filter (label_matches (lp_label_selector lp)) (listed (cl_pods w))))
      else if ra_resource ra = V1Service
      then Ok (RespServices (filter (label_matches (lp_label_selector lp)) (listed (cl_services w))))
      else not_found)"

definition stamped :: "'a cluster_scheme \<Rightarrow> ('p, 'u) Object \<Rightarrow> ('p, 'u) Object" where
  "stamped w x = x\<lparr>metadata := (metadata x)\<lparr>m_resourceVersion := Some (show_nat (cl_version w))\<rparr>\<rparr>"

definition put_instance :: "string \<times> string \<Rightarrow> KubeAkriInstance \<Rightarrow> 'a cluster_scheme
    \<Rightarrow> (api_response, error) result \<times> 'a cluster_scheme" where
  "put_instance k x w = (Ok (RespInstance (named k (stamped w x))),
     w\<lparr>cl_instances := hm_insert k (stamped w x) (cl_instances w), cl_version := cl_version w + 1\<rparr>)"

definition pod_object :: "Pod \<Rightarrow> PodObject" where
  "pod_object p = \<lparr>o_types = \<lparr>t_apiVersion = None, t_kind = None\<rparr>,
     metadata = (case pod_metadata p of None \<Rightarrow> ObjectMeta_default
       | Some md \<Rightarrow> ObjectMeta_default\<lparr>m_labels := (case k_labels md of None \<Rightarrow> [] | Some ls \<Rightarrow> ls)\<rparr>),
     spec = (case pod_spec p of Some ps \<Rightarrow> ps
       | None \<Rightarrow> \<lparr>containers = [], affinity = None, ps_other = ''''\<rparr>),
     status = pod_status p\<rparr>"

fun cluster_create :: "raw_api \<Rightarrow> api_body \<Rightarrow> 'a cluster_scheme \<Rightarrow> (api_response, error) result \<times> 'a cluster_scheme" where
  "cluster_create ra (BodyInstance x) w =
     (case ra_namespace ra of None \<Rightarrow> (not_found, w)
      | Some ns \<Rightarrow> let k = (m_name (metadata x), ns) in
        if ra_resource ra \<noteq> instance_resource then (not_found, w)
        else if hm_contains (cl_instances w) k then (Err (ApiError ERROR_CONFLICT), w)
        else put_instance k x w)"
| "cluster_create ra (BodyPod p) w =
     (case (ra_namespace ra, pod_name p) of
        (Some ns, Some nm) \<Rightarrow> if hm_contains (cl_pods w) (nm, ns) then (Err (ApiError ERROR_CONFLICT), w)
          else (Ok (RespPod (named (nm, ns) (pod_object p))),
                w\<lparr>cl_pods := hm_insert (nm, ns) (pod_object p) (cl_pods w)\<rparr>)
      | _ \<Rightarrow> (not_found, w))"
| "cluster_create ra _ w = (not_found, w)"

fun cluster_patch :: "raw_api \<Rightarrow> string \<Rightarrow> api_body \<Rightarrow> 'a cluster_scheme \<Rightarrow> (api_response, error) result \<times> 'a cluster_scheme"
where
  "cluster_patch ra nm (BodyInstance y) w =
     (case ra_namespace ra of None \<Rightarrow> (not_found, w)
      | Some ns \<Rightarrow> if ra_resource ra \<noteq> instance_resource then (not_found, w)
        else (case map_of (cl_instances w) (nm, ns) of
          None \<Rightarrow> (not_found, w)
        | Some x \<Rightarrow> if m_resourceVersion (metadata y) \<noteq> None \<and>
              m_resourceVersion (metadata y) \<noteq> m_resourceVersion (metadata x)
            then (Err (ApiError ERROR_CONFLICT), w)
            else put_instance (nm, ns) (y\<lparr>spec := merge_instance (spec x) (spec y)\<rparr>) w))"
| "cluster_patch ra nm (BodyServiceObject y) w =
     (case ra_namespace ra of None \<Rightarrow> (not_found, w)
      | Some ns \<Rightarrow> if hm_contains (cl_services w) (nm, ns)
          then (Ok (RespService (named (nm, ns) y)),
                w\<lparr>cl_services := hm_insert (nm, ns) y (cl_services w)\<rparr>)
          else (not_found, w))"
| "cluster_patch ra nm _ w = (not_found, w)"

definition cluster_delete :: "raw_api \<Rightarrow> string \<Rightarrow> 'a cluster_scheme \<Rightarrow> (api_response, error) result \<times> 'a cluster_scheme" where
  "cluster_delete ra nm w = (case ra_namespace ra of None \<Rightarrow> (not_found, w)
     | Some ns \<Rightarrow>
       if ra_resource ra = instance_resource then
         (if hm_contains (cl_instances w) (nm, ns)
          then (Ok RespStatus, w\<lparr>cl_instances := hm_remove (nm, ns) (cl_instances w)\<rparr>) else (not_found, w))
       else if ra_resource ra = V1Pod then
         (if hm_contains (cl_pods w) (nm, ns)
          then (Ok RespStatus, w\<lparr>cl_pods := hm_remove (nm, ns) (cl_pods w)\<rparr>) else (not_found, w))
       else if ra_resource ra = V1Service then
         (if hm_contains (cl_services w) (nm, ns)
          then (Ok RespStatus, w\<lparr>cl_services := hm_remove (nm, ns) (cl_services w)\<rparr>) else (not_found, w))
       else (not_found, w))"

fun cluster_send :: "api_request \<Rightarrow> 'a cluster_scheme \<Rightarrow> (api_response, error) result \<times> 'a cluster_scheme" where
  "cluster_send (ReqGet ra nm) w = (cluster_get ra nm w, w)"
| "cluster_send (ReqList ra lp) w = (cluster_list ra lp w, w)"
| "cluster_send (ReqCreate ra b) w = cluster_create ra b w"
| "cluster_send (ReqPatch ra nm b) w = cluster_patch ra nm b w"
| "cluster_send (ReqDelete ra nm) w = cluster_delete ra nm w"

definition cluster_client :: "'a cluster_scheme kube_client" where
  "cluster_client = \<lparr>build_request = Ok, send_request = (\<lambda>req. State (cluster_send req))\<rparr>"

definition cluster_insts :: "'a cluster_scheme \<Rightarrow> inst_store" where
  "cluster_insts w k = map_option (named k) (map_of (cl_instances w) k)"

abbreviation cluster_kube :: "'a cluster_scheme kube_interface" where
  "cluster_kube \<equiv> KubeImpl cluster_client"

lemma named_sel [simp]: "stored_as (named (nm, ns) x) nm ns" "spec (named k x) = spec x"
  "spec (stamped w x) = spec x" "status (named k x) = status x" "status (stamped w x) = status x"
  by (simp_all add: named_def stamped_def stored_as_def)

lemma wp_cluster [simp]: "wp (send_request cluster_client req) Q w = (case cluster_send req w of (r, w') \<Rightarrow> Q r w')"
  "build_request cluster_client req = Ok req"
  by (simp_all add: cluster_client_def wp_def)

lemma ran_map_option_map_of:
  "ran (\<lambda>k. map_option (f k) (map_of m k)) = (\<lambda>(k, x). f k x) ` set (AList.clearjunk m)"
proof -
  have "map_of m k = Some x \<longleftrightarrow> (k, x) \<in> set (AList.clearjunk m)" for k x
    by (metis distinct_clearjunk map_of_clearjunk map_of_eq_Some_iff)
  then show ?thesis by (force simp: ran_def)
qed

lemma cluster_insts_insert:
  "cluster_insts (w\<lparr>cl_instances := hm_insert k x (cl_instances w), cl_version := v\<rparr>) = (cluster_insts w)(k \<mapsto> named k x)"
  by (auto simp: cluster_insts_def hashmap_simps)

lemma cluster_insts_remove:
  "cluster_insts (w\<lparr>cl_instances := hm_remove k (cl_instances w)\<rparr>) = (cluster_insts w)(k := None)"
  by (auto simp: cluster_insts_def hashmap_simps)

text \<open>Its clock, which moves on with every reading.\<close>

definition cluster_now :: "('a cluster_scheme, nat) state" where
  "cluster_now = State (\<lambda>w. (cl_clock w, w\<lparr>cl_clock := cl_clock w + 1\<rparr>))"

lemma cluster_insts_frame [simp]:
  "cluster_insts (w\<lparr>cl_clock := c\<rparr>) = cluster_insts w"
  "cluster_insts (w\<lparr>cl_pods := p\<rparr>) = cluster_insts w" "cluster_insts (w\<lparr>cl_services := s\<rparr>) = cluster_insts w"
  by (simp_all add: cluster_insts_def fun_eq_iff)

lemma instance_api_sel [simp]:
  "ra_resource (instance_api ns) = instance_resource" "ra_namespace (instance_api ns) = Some ns"
  "ra_resource (customResource API_INSTANCES) = instance_resource"
  by (simp_all add: customResource_def within_def instance_resource_def)

lemma patchedI: "st (nm, ns) = Some x \<Longrightarrow> spec x' = merge_instance (spec x) i \<Longrightarrow>
    stored_as x' nm ns \<Longrightarrow> patched i nm ns st (st((nm, ns) \<mapsto> x'))"
  by (auto simp: patched_def)

lemma cluster_insts_lookup:
  "map_of (cl_instances w) k = Some x \<Longrightarrow> cluster_insts w k = Some (named k x)"
  by (simp add: cluster_insts_def)

lemma cluster_create_effect: "m_name (metadata x) = nm \<Longrightarrow>
    cluster_create (instance_api ns) (BodyInstance x) w = (r, w') \<Longrightarrow>
    write_effect (created (spec x) nm ns) (cluster_insts w) r (cluster_insts w')"
  by (auto simp: put_instance_def write_effect_def created_def cluster_insts_insert Let_def
      hm_contains_def cluster_insts_def split: if_splits)

lemma cluster_patch_effect: "cluster_patch (instance_api ns) nm (BodyInstance x) w = (r, w') \<Longrightarrow>
    write_effect (patched (spec x) nm ns) (cluster_insts w) r (cluster_insts w')"
  by (auto simp: put_instance_def write_effect_def cluster_insts_insert cluster_insts_lookup
      split: if_splits option.splits intro!: patchedI)

lemma cluster_delete_effect: "cluster_delete (instance_api ns) nm w = (r, w') \<Longrightarrow>
    write_effect (removed nm ns) (cluster_insts w) r (cluster_insts w')"
  by (auto simp: cluster_delete_def write_effect_def removed_def cluster_insts_remove
      hm_contains_def split: if_splits)

lemma cluster_send_other: "\<not> is_instance_request req \<Longrightarrow> cluster_send req w = (r, w') \<Longrightarrow>
    cluster_insts w' = cluster_insts w"
  by (cases "(req, w)" rule: cluster_send.cases; (elim exE)?)
     (auto simp: is_instance_request_def cluster_delete_def split: if_splits option.splits
      elim!: cluster_create.elims cluster_patch.elims)

interpretation cluster: api_server cluster_client cluster_insts
proof (unfold_locales, goal_cases)
  case (3 req w)
  then show ?case by (auto split: prod.splits dest: cluster_send_other)
next
  case (5 w)
  show ?case by (simp add: cluster_list_def listed_def cluster_insts_def [abs_def] ran_map_option_map_of)
next
  case (6 x nm ns w)
  then show ?case by (auto split: prod.splits intro: cluster_create_effect simp del: cluster_create.simps)
next
  case (7 x nm ns w)
  then show ?case by (auto split: prod.splits intro: cluster_patch_effect simp del: cluster_patch.simps)
next
  case (8 ns nm w)
  then show ?case by (auto split: prod.splits intro: cluster_delete_effect)
qed (auto simp: cluster_insts_def cluster_get_def get_named_def split: option.splits)

interpretation cluster_rel: reliable_store cluster_kube cluster_insts
  by unfold_locales
    (auto simp: instance_find_instance_def instance_get_instances_def instance_update_instance_def
      instance_create_instance_def instance_delete_instance_def cluster_get_def get_named_def cluster_list_def
      cluster_delete_def cluster_insts_def put_instance_def hm_contains_def new_kube_instance_def named_def
      split: option.splits)

section \<open>Stores with a clock\<close>

text \<open>\<open>Instant::now()\<close> is a reading of the environment that leaves the store alone.\<close>

locale clocked_store = kube_store +
  fixes instant_now :: "('w, nat) state"
  assumes now_law: "wp instant_now (\<lambda>_ w'. insts w' = insts w) w"
begin

lemma wp_now: "(\<And>t w'. insts w' = insts w \<Longrightarrow> Q t w') \<Longrightarrow> wp instant_now Q w"
  by (rule wp_mono [OF now_law]) auto

end

locale reliable_clocked_store = reliable_store + clocked_store

interpretation cluster_clock: reliable_clocked_store cluster_kube cluster_insts cluster_now
  by unfold_locales (simp add: cluster_now_def wp_def)

section \<open>A small cluster\<close>

text \<open>One shared Instance with a free slot and a slot that \<open>node-a\<close> holds.\<close>

definition sample_instance :: Instance where
  "sample_instance = \<lparr>configuration_name = ''cfg'', instance_metadata = [], shared = True,
     nodes = [''node-a''], device_usage = [(''cam-0'', ''''), (''cam-1'', ''node-a'')], rbac = ''''\<rparr>"

definition sample_cluster :: cluster where
  "sample_cluster = \<lparr>cl_instances = [((''cam'', ''ns''), new_kube_instance sample_instance ''cam'' ''cfg'' ''uid'')],
     cl_configurations = [], cl_pods = [], cl_services = [], cl_nodes = [], cl_version = 0, cl_clock = 1000\<rparr>"

definition sample_object :: KubeAkriInstance where
  "sample_object = named (''cam'', ''ns'') (new_kube_instance sample_instance ''cam'' ''cfg'' ''uid'')"

lemma sample_insts: "cluster_insts sample_cluster = [(''cam'', ''ns'') \<mapsto> sample_object]"
  by (rule ext) (auto simp: cluster_insts_def sample_cluster_def sample_object_def)

lemma sample_spec [simp]: "spec sample_object = sample_instance"
  "m_name (metadata sample_object) = ''cam''" "m_namespace (metadata sample_object) = Some ''ns''"
  by (simp_all add: sample_object_def new_kube_instance_def named_def)

lemma sample_wf: "\<forall>x \<in> ran (cluster_insts sample_cluster). instance_wf (spec x)"
  by (auto simp: sample_insts ran_def instance_wf_def sample_instance_def split: if_splits)

section \<open>The implementation meets the contract\<close>

text \<open>
  C8: On an API server that behaves as documented, \<open>KubeImpl\<close> keeps the contract every
  handler of the development is proved against: reads return what is stored, writes that
  report success have happened exactly as asked (an update merges the new specification
  into the stored object, found again by name), failed writes at most happen once, and
  operations on other resources never touch the Instances.
\<close>

theorem KubeImpl_refines_store:
  assumes "api_server client insts"
  shows "kube_store (KubeImpl client) insts"
  using assms by (rule api_server.impl_store)

theorem KubeImpl_refines_store_witness: "kube_store (KubeImpl cluster_client) cluster_insts"
  using cluster.api_server_axioms by (rule KubeImpl_refines_store)

end
