(* ===== verification/Pod_Action.thy ===== *)
theory Pod_Action
  imports Kube_Interface
begin

text \<open>
  \<open>controller/src/util/pod_action.rs\<close>: what the Controller does with one broker Pod, decided
  from the event of its Instance, its phase, its start time and whether its node is one of
  the Instance's nodes. The theorem gives the decision as one table and relates it to the
  tree in the comment of \<open>select_pod_action\<close>.
\<close>

section \<open>Definitions\<close>

datatype InstanceAction = InstanceAdd | InstanceRemove | InstanceUpdate

datatype PodAction = Add | Remove | RemoveAndAdd | NoAction

record PodActionInfo =
  pending_grace_time_in_minutes :: int
  ended_grace_time_in_minutes :: int
  pai_phase :: string
  pai_instance_action :: InstanceAction
  status_start_time :: "time option"
  unknown_node :: bool
  trace_node_name :: string

text \<open>
  What the Controller uses besides the interface: \<open>Utc::now()\<close>, the metric of broker Pods, the
  random delay between tries, and \<open>checked_add_minutes t m\<close>, the crate \<open>chrono\<close>'s
  \<open>t.checked_add_signed(Duration::minutes(m))\<close>, which is \<open>None\<close> for a date out of range.
\<close>

record 'w controller_rt =
  utc_now :: "('w, time) state"
  checked_add_minutes :: "time \<Rightarrow> int \<Rightarrow> time option"
  broker_pod_count_inc :: "string \<Rightarrow> string \<Rightarrow> ('w, unit) state"
  broker_pod_count_dec :: "string \<Rightarrow> string \<Rightarrow> ('w, unit) state"
  controller_random_delay :: "('w, unit) state"

definition time_choice_for_non_running_pods :: "'w controller_rt \<Rightarrow> PodActionInfo \<Rightarrow> int \<Rightarrow> ('w, PodAction) io"
where
  "time_choice_for_non_running_pods rt self grace_period_in_minutes =
     try_then
       (case status_start_time self of
          Some started \<Rightarrow>
            (case checked_add_minutes rt started grace_period_in_minutes of
               None \<Rightarrow> return (Err (Msg ''checked_add_signed failed''))
             | Some time_limit \<Rightarrow> do { now \<leftarrow> utc_now rt; return (Ok (now < time_limit)) })
        | None \<Rightarrow> return (Ok True))
       (\<lambda>give_it_more_time. return (Ok (if give_it_more_time then NoAction else RemoveAndAdd)))"

definition choice_for_running_pods :: "PodActionInfo \<Rightarrow> (PodAction, error) result" where
  "choice_for_running_pods self =
     (case pai_instance_action self of InstanceRemove \<Rightarrow> Ok Remove | _ \<Rightarrow> Ok NoAction)"

definition choice_for_non_running_pods :: "'w controller_rt \<Rightarrow> PodActionInfo \<Rightarrow> int \<Rightarrow> ('w, PodAction) io"
where
  "choice_for_non_running_pods rt self grace_period_in_minutes =
     (case pai_instance_action self of
        InstanceRemove \<Rightarrow> return (Ok Remove)
      | _ \<Rightarrow> time_choice_for_non_running_pods rt self grace_period_in_minutes)"

definition choice_for_pods_on_known_nodes :: "'w controller_rt \<Rightarrow> PodActionInfo \<Rightarrow> ('w, PodAction) io" where
  "choice_for_pods_on_known_nodes rt self =
     (if pai_phase self \<in> {''Running'', ''ContainerCreating'', ''PodInitializing''}
      then return (choice_for_running_pods self)
      else if pai_phase self = ''Pending''
      then choice_for_non_running_pods rt self (pending_grace_time_in_minutes self)
      else choice_for_non_running_pods rt self (ended_grace_time_in_minutes self))"

definition choice_for_pod_action :: "'w controller_rt \<Rightarrow> PodActionInfo \<Rightarrow> ('w, PodAction) io" where
  "choice_for_pod_action rt self =
     (if unknown_node self then return (Ok Remove) else choice_for_pods_on_known_nodes rt self)"

definition select_pod_action :: "'w controller_rt \<Rightarrow> PodActionInfo \<Rightarrow> ('w, PodAction) io" where
  "select_pod_action rt self = choice_for_pod_action rt self"

lemmas pod_choice_defs = select_pod_action_def choice_for_pod_action_def
  choice_for_pods_on_known_nodes_def choice_for_non_running_pods_def choice_for_running_pods_def
  time_choice_for_non_running_pods_def

section \<open>Recording the calls of the Controller\<close>

text \<open>The runtime beside an interface whose calls are recorded: it adds nothing to the record.\<close>

definition unrecorded :: "('w, 'a) state \<Rightarrow> ('w \<times> kube_event list, 'a) state" where
  "unrecorded m = State (\<lambda>(w, tr). case run_state m w of (a, w') \<Rightarrow> (a, (w', tr)))"

definition spied_rt :: "'w controller_rt \<Rightarrow> ('w \<times> kube_event list) controller_rt" where
  "spied_rt rt = \<lparr>utc_now = unrecorded (utc_now rt), checked_add_minutes = checked_add_minutes rt,
     broker_pod_count_inc = (\<lambda>c n. unrecorded (broker_pod_count_inc rt c n)),
     broker_pod_count_dec = (\<lambda>c n. unrecorded (broker_pod_count_dec rt c n)),
     controller_random_delay = unrecorded (controller_random_delay rt)\<rparr>"

lemma wp_unrecorded [simp]: "wp (unrecorded m) Q (w, tr) = wp m (\<lambda>a w'. Q a (w', tr)) w"
  by (simp add: wp_def unrecorded_def split: prod.split)

lemma emits_unrecorded [emits_rules]: "emits Q (unrecorded m)"
  by (simp add: emits_def)

lemma spied_rt_sel [simp]:
  "utc_now (spied_rt rt) = unrecorded (utc_now rt)"
  "checked_add_minutes (spied_rt rt) = checked_add_minutes rt"
  "broker_pod_count_inc (spied_rt rt) c n = unrecorded (broker_pod_count_inc rt c n)"
  "broker_pod_count_dec (spied_rt rt) c n = unrecorded (broker_pod_count_dec rt c n)"
  "controller_random_delay (spied_rt rt) = unrecorded (controller_random_delay rt)"
  by (simp_all add: spied_rt_def)

lemma try_then_return: "try_then (return r) f =
    (case r of Ok a \<Rightarrow> f a | Err e \<Rightarrow> return (Err e) | Panic p \<Rightarrow> return (Panic p))"
  by (simp add: try_then_def)

lemma emits_try_return [emits_rules]: "(\<And>a. r = Ok a \<Longrightarrow> emits Q (f a)) \<Longrightarrow> emits Q (try_then (return r) f)"
  by (auto simp: try_then_return split: result.split intro: emits_return)

section \<open>The decision\<close>

text \<open>
  The decision as one table. \<open>past_grace\<close> says whether the Pod's grace period is over at
  time \<open>t\<close>, which is never so for a Pod without a start time.
\<close>

definition starting_or_running :: "string \<Rightarrow> bool" where
  "starting_or_running ph \<longleftrightarrow> ph \<in> {''Running'', ''ContainerCreating'', ''PodInitializing''}"

definition grace_minutes :: "PodActionInfo \<Rightarrow> int" where
  "grace_minutes self = (if pai_phase self = ''Pending'' then pending_grace_time_in_minutes self
     else ended_grace_time_in_minutes self)"

definition grace_limit :: "'w controller_rt \<Rightarrow> PodActionInfo \<Rightarrow> time option option" where
  "grace_limit rt self = map_option (\<lambda>s. checked_add_minutes rt s (grace_minutes self)) (status_start_time self)"

definition pod_decision :: "PodActionInfo \<Rightarrow> bool \<Rightarrow> PodAction" where
  "pod_decision self past_grace =
     (if unknown_node self \<or> pai_instance_action self = InstanceRemove then Remove
      else if \<not> starting_or_running (pai_phase self) \<and> past_grace then RemoveAndAdd
      else NoAction)"

text \<open>The clock matters only for a Pod that is kept and is neither running nor starting.\<close>

definition needs_clock :: "PodActionInfo \<Rightarrow> bool" where
  "needs_clock self \<longleftrightarrow> \<not> unknown_node self \<and> pai_instance_action self \<noteq> InstanceRemove
     \<and> \<not> starting_or_running (pai_phase self)"

lemma select_pod_action_cases:
  "select_pod_action rt self =
     (if needs_clock self then
        (case grace_limit rt self of
           None \<Rightarrow> return (Ok NoAction)
         | Some None \<Rightarrow> return (Err (Msg ''checked_add_signed failed''))
         | Some (Some limit) \<Rightarrow> do { t \<leftarrow> utc_now rt; return (Ok (pod_decision self (limit \<le> t))) })
      else return (Ok (pod_decision self False)))"
  unfolding pod_choice_defs starting_or_running_def needs_clock_def grace_limit_def grace_minutes_def
    pod_decision_def try_then_def
  by (cases "pai_instance_action self"; cases "status_start_time self")
     (auto split: option.splits simp: linorder_not_less intro!: arg_cong [where f = "State_Monad.bind (utc_now rt)"])

lemma pod_decision_values [simp]: "pod_decision self b \<noteq> Add"
  by (simp add: pod_decision_def)

lemma wp_select_pod_action:
  assumes "\<And>r w'. run_state (select_pod_action rt self) w = (r, w') \<Longrightarrow> (\<forall>a. r = Ok a \<longrightarrow> (\<exists>b. a = pod_decision self b))
      \<Longrightarrow> (\<forall>p. r \<noteq> Panic p) \<Longrightarrow> w' = w \<or> w' = snd (run_state (utc_now rt) w) \<Longrightarrow> Q r w'"
  shows "wp (select_pod_action rt self) Q w"
proof (rule wp_runI, rule assms, assumption, goal_cases)
  case (1 r w')
  then show ?case
    by (auto simp: select_pod_action_cases pod_decision_def needs_clock_def split: if_splits option.splits prod.splits)
next
  case (2 r w')
  then show ?case by (auto simp: select_pod_action_cases split: if_splits option.splits prod.splits)
next
  case (3 r w')
  then show ?case by (auto simp: select_pod_action_cases split: if_splits option.splits prod.splits)
qed

definition minutes :: "int \<Rightarrow> time" where "minutes m = m * 60 * 1000000000"

text \<open>
  C26: The Controller's decision about one broker Pod, on all branches. It is removed exactly
  when its node is not one of the Instance's or the Instance is being removed, in whatever
  phase it is. It is removed and created anew exactly when it is kept, is neither running
  nor starting, and its start time plus the grace period of its phase is not after now. No
  broker Pod is ever merely added, the only error is a limit that is out of range, and in
  every other case the Pod is left alone.
\<close>

theorem select_pod_action_spec:
  assumes "run_state (select_pod_action rt self) w = (r, w')" and "t = fst (run_state (utc_now rt) w)"
    and "\<forall>s limit. checked_add_minutes rt s (grace_minutes self) = Some limit \<longrightarrow> limit = s + minutes (grace_minutes self)"
  shows "(r = Ok Remove \<longleftrightarrow> unknown_node self \<or> pai_instance_action self = InstanceRemove)
    \<and> (r = Ok RemoveAndAdd \<longleftrightarrow> needs_clock self \<and> (\<exists>s. status_start_time self = Some s \<and>
          checked_add_minutes rt s (grace_minutes self) \<noteq> None \<and> s + minutes (grace_minutes self) \<le> t))
    \<and> (is_ok r \<longleftrightarrow> \<not> (needs_clock self \<and> grace_limit rt self = Some None))
    \<and> r \<noteq> Ok Add \<and> \<not> is_panic r"
proof -
  consider (idle) "\<not> needs_clock self" | (none) "needs_clock self" "grace_limit rt self = None"
    | (overflow) "needs_clock self" "grace_limit rt self = Some None"
    | (limit) limit where "needs_clock self" "grace_limit rt self = Some (Some limit)"
    by fastforce
  then show ?thesis
  proof cases
    case idle
    then show ?thesis using assms(1) by (auto simp: select_pod_action_cases pod_decision_def needs_clock_def split: if_splits)
  next
    case none
    then show ?thesis using assms(1)
      by (auto simp: select_pod_action_cases needs_clock_def grace_limit_def)
  next
    case overflow
    then show ?thesis using assms(1)
      by (auto simp: select_pod_action_cases needs_clock_def grace_limit_def)
  next
    case limit
    then obtain s where s: "status_start_time self = Some s" "checked_add_minutes rt s (grace_minutes self) = Some limit"
      by (auto simp: grace_limit_def)
    then have "limit = s + minutes (grace_minutes self)" using assms(3) by blast
    then show ?thesis using assms(1,2) limit s
      by (auto simp: select_pod_action_cases pod_decision_def needs_clock_def split: prod.splits if_splits)
  qed
qed

text \<open>A Pod that failed before now is recreated at once by a clock that stands at ten.\<close>

definition sample_rt :: "'w controller_rt" where
  "sample_rt = \<lparr>utc_now = return 10, checked_add_minutes = (\<lambda>s m. Some (s + minutes m)),
     broker_pod_count_inc = (\<lambda>_ _. return ()), broker_pod_count_dec = (\<lambda>_ _. return ()),
     controller_random_delay = return ()\<rparr>"

definition failed_pod_info :: PodActionInfo where
  "failed_pod_info = \<lparr>pending_grace_time_in_minutes = 5, ended_grace_time_in_minutes = 0, pai_phase = ''Failed'',
     pai_instance_action = InstanceUpdate, status_start_time = Some 3, unknown_node = False, trace_node_name = ''pod''\<rparr>"

theorem select_pod_action_spec_witness:
  "fst (run_state (select_pod_action sample_rt failed_pod_info) ()) = Ok RemoveAndAdd"
proof -
  obtain r w' where run: "run_state (select_pod_action sample_rt failed_pod_info) () = (r, w')" by (metis surj_pair)
  have "(10::int) = fst (run_state (utc_now sample_rt) ())" by (simp add: sample_rt_def)
  from select_pod_action_spec [OF run this] run show ?thesis
    by (auto simp: sample_rt_def failed_pod_info_def needs_clock_def starting_or_running_def
        grace_minutes_def minutes_def)
qed

end
