(* ===== verification/Kube_Tasks.thy ===== *)
theory Kube_Tasks
  imports Kube_Store Pod_Action
begin

text \<open>
  Tasks that run at the same time against one cluster. Agents and the Controller are tasks that
  call the API server through \<open>KubeInterface\<close>; between two calls of one task any other task
  may call. The theory has an invariant of the Instances, the contract under which code keeps
  it whatever it is answered (locale \<open>instance_keeper\<close>), and the interleaving itself: a task is
  replayed with the answers that it has had so far, which determines its next call, and a step
  of the cluster is the next call of some task together with its answer. Code that keeps the
  contract keeps the invariant under all interleavings.
\<close>

section \<open>The invariant of the Instances\<close>

text \<open>
  \<open>K k\<close> says what never changes about the Instance with name and namespace \<open>k\<close>: its slots, its
  Configuration and whether it is shared. \<open>N\<close> are the nodes of the cluster. \<open>patch_ok\<close> is what
  an update may send: it adds no slot and names only nodes of the cluster.
\<close>

record identity =
  id_slots :: "string set"
  id_configuration :: string
  id_shared :: bool

definition instance_ok :: "(string \<times> string \<Rightarrow> identity) \<Rightarrow> string set \<Rightarrow> string \<times> string \<Rightarrow> Instance \<Rightarrow> bool" where
  "instance_ok K N k i \<longleftrightarrow> instance_wf i \<and> dom (slot_owner i) = id_slots (K k)
     \<and> configuration_name i = id_configuration (K k) \<and> shared i = id_shared (K k)
     \<and> ran (slot_owner i) \<subseteq> insert '''' N \<and> set (nodes i) \<subseteq> N"

definition patch_ok :: "(string \<times> string \<Rightarrow> identity) \<Rightarrow> string set \<Rightarrow> string \<times> string \<Rightarrow> Instance \<Rightarrow> bool" where
  "patch_ok K N k i \<longleftrightarrow> dom (slot_owner i) \<subseteq> id_slots (K k)
     \<and> configuration_name i = id_configuration (K k) \<and> shared i = id_shared (K k)
     \<and> ran (slot_owner i) \<subseteq> insert '''' N \<and> set (nodes i) \<subseteq> N"

definition object_ok :: "(string \<times> string \<Rightarrow> identity) \<Rightarrow> string set \<Rightarrow> string \<times> string \<Rightarrow> KubeAkriInstance \<Rightarrow> bool" where
  "object_ok K N k x \<longleftrightarrow> stored_as x (fst k) (snd k) \<and> instance_ok K N k (spec x)"

definition store_ok :: "(string \<times> string \<Rightarrow> identity) \<Rightarrow> string set \<Rightarrow> inst_store \<Rightarrow> bool" where
  "store_ok K N st \<longleftrightarrow> (\<forall>k x. st k = Some x \<longrightarrow> object_ok K N k x)"

lemma ran_subset: "ran m \<subseteq> A \<longleftrightarrow> (\<forall>k v. m k = Some v \<longrightarrow> v \<in> A)"
  by (auto simp: ran_def)

lemma instance_patch_ok: "instance_ok K N k i \<Longrightarrow> patch_ok K N k i"
  by (simp add: instance_ok_def patch_ok_def)

lemma merge_instance_ok:
  assumes "instance_ok K N k i" "patch_ok K N k j"
  shows "instance_ok K N k (merge_instance i j)"
proof -
  have own: "slot_owner (merge_instance i j) = slot_owner i ++ slot_owner j"
    by (simp add: merge_instance_def merge_conv')
  have "dom (slot_owner i ++ slot_owner j) = id_slots (K k)" using assms by (auto simp: instance_ok_def patch_ok_def)
  moreover have "ran (slot_owner i ++ slot_owner j) \<subseteq> insert '''' N"
    using assms unfolding instance_ok_def patch_ok_def ran_subset map_add_def
    by (metis (no_types, lifting) option.case_eq_if option.collapse)
  ultimately show ?thesis using assms own by (simp add: instance_ok_def patch_ok_def del: merge_instance_sel(4))
qed

lemma store_okD: "store_ok K N st \<Longrightarrow> st k = Some x \<Longrightarrow> object_ok K N k x"
  unfolding store_ok_def by blast

lemma store_ok_ran: "store_ok K N st \<Longrightarrow> x \<in> ran st \<Longrightarrow> \<exists>k. object_ok K N k x"
  unfolding ran_def mem_Collect_eq by (elim exE, intro exI) (rule store_okD)

lemma store_ok_update: "store_ok K N st \<Longrightarrow> object_ok K N k x \<Longrightarrow> store_ok K N (st(k \<mapsto> x))"
  by (simp add: store_ok_def)

lemma patched_ok: "patched i nm ns st st' \<Longrightarrow> store_ok K N st \<Longrightarrow> patch_ok K N (nm, ns) i \<Longrightarrow> store_ok K N st'"
  by (auto simp: patched_def object_ok_def intro!: store_ok_update merge_instance_ok dest: store_okD)

lemma created_ok: "created i nm ns st st' \<Longrightarrow> store_ok K N st \<Longrightarrow> instance_ok K N (nm, ns) i \<Longrightarrow> store_ok K N st'"
  by (auto simp: created_def object_ok_def intro!: store_ok_update)

lemma removed_ok: "removed nm ns st st' \<Longrightarrow> store_ok K N st \<Longrightarrow> store_ok K N st'"
  by (simp add: removed_def store_ok_def)

section \<open>Code that keeps an invariant\<close>

definition keeps :: "('w \<Rightarrow> bool) \<Rightarrow> ('w, 'a) state \<Rightarrow> bool" where
  "keeps ok m \<longleftrightarrow> (\<forall>w. ok w \<longrightarrow> wp m (\<lambda>_. ok) w)"

named_theorems keeps_rules "composition rules for keeps"

lemma keeps_return [keeps_rules]: "keeps ok (return a)"
  by (simp add: keeps_def)

lemma keepsD: "keeps ok m \<Longrightarrow> ok w \<Longrightarrow> wp m (\<lambda>_. ok) w"
  by (simp add: keeps_def)

text \<open>After a first step whose result is known to satisfy \<open>P\<close>.\<close>

lemma keeps_bind_post:
  assumes "\<And>w. ok w \<Longrightarrow> wp m (\<lambda>a w'. ok w' \<and> P a) w" "\<And>a. P a \<Longrightarrow> keeps ok (f a)"
  shows "keeps ok (State_Monad.bind m f)"
  unfolding keeps_def wp_bind
proof (intro allI impI)
  fix w assume "ok w"
  from assms(1) [OF this] show "wp m (\<lambda>a. wp (f a) (\<lambda>_. ok)) w"
    by (rule wp_mono) (use assms(2) in \<open>auto intro: keepsD\<close>)
qed

lemma keeps_bind [keeps_rules]: "keeps ok m \<Longrightarrow> (\<And>a. keeps ok (f a)) \<Longrightarrow> keeps ok (State_Monad.bind m f)"
  by (rule keeps_bind_post [where P = "\<lambda>_. True"]) (auto simp: keeps_def)

lemma keeps_try_then_post:
  assumes "\<And>w. ok w \<Longrightarrow> wp m (\<lambda>r w'. ok w' \<and> (\<forall>a. r = Ok a \<longrightarrow> P a)) w" "\<And>a. P a \<Longrightarrow> keeps ok (f a)"
  shows "keeps ok (try_then m f)"
  unfolding try_then_def
  by (rule keeps_bind_post [OF assms(1)]) (auto intro!: keeps_rules assms(2) split: result.split)

lemma keeps_try_then [keeps_rules]: "keeps ok m \<Longrightarrow> (\<And>a. keeps ok (f a)) \<Longrightarrow> keeps ok (try_then m f)"
  by (rule keeps_try_then_post [where P = "\<lambda>_. True"]) (auto simp: keeps_def)

lemma keeps_try_pure [keeps_rules]: "(\<And>a. r = Ok a \<Longrightarrow> keeps ok (f a)) \<Longrightarrow> keeps ok (try_then (return r) f)"
  by (rule keeps_try_then_post [where P = "\<lambda>a. r = Ok a"]) auto

lemma keeps_unwrapped [keeps_rules]: "keeps ok m \<Longrightarrow> keeps ok (unwrapped m)"
  unfolding unwrapped_def by (intro keeps_rules)

lemma keeps_try_for [keeps_rules]: "(\<And>x. x \<in> set xs \<Longrightarrow> keeps ok (f x)) \<Longrightarrow> keeps ok (try_for xs f)"
  by (induction xs) (auto intro!: keeps_rules)

lemma keeps_mono: "keeps ok m \<Longrightarrow> run_state m w = (r, w') \<Longrightarrow> ok w \<Longrightarrow> ok w'"
  by (auto simp: keeps_def wp_def)

section \<open>The contract of the interface\<close>

text \<open>
  An interface that answers with good Instances, and whose state stays good when it is asked
  to write good ones.
\<close>

locale instance_keeper =
  fixes ki :: "'w kube_interface" and ok :: "'w \<Rightarrow> bool"
    and K :: "string \<times> string \<Rightarrow> identity" and N :: "string set"
  assumes find_instance_good: "ok w \<Longrightarrow> wp (find_instance ki nm ns)
      (\<lambda>r w'. ok w' \<and> (\<forall>x. r = Ok x \<longrightarrow> object_ok K N (nm, ns) x)) w"
    and get_instances_good: "ok w \<Longrightarrow> wp (get_instances ki)
      (\<lambda>r w'. ok w' \<and> (\<forall>xs. r = Ok xs \<longrightarrow> (\<forall>x \<in> set xs. \<exists>k. object_ok K N k x))) w"
    and update_instance_keeps: "patch_ok K N (nm, ns) i \<Longrightarrow> keeps ok (update_instance ki i nm ns)"
    and create_instance_keeps: "instance_ok K N (nm, ns) i \<Longrightarrow> keeps ok (create_instance ki i nm ns cn cu)"
    and delete_instance_keeps: "keeps ok (delete_instance ki nm ns)"
    and find_node_keeps: "keeps ok (find_node ki nm)"
    and find_pods_with_label_keeps: "keeps ok (find_pods_with_label ki sel)"
    and find_pods_with_field_keeps: "keeps ok (find_pods_with_field ki sel)"
    and create_pod_keeps: "keeps ok (create_pod ki p ns)"
    and remove_pod_keeps: "keeps ok (remove_pod ki nm ns)"
    and find_services_keeps: "keeps ok (find_services ki sel)"
    and create_service_keeps: "keeps ok (create_service ki sv ns)"
    and remove_service_keeps: "keeps ok (remove_service ki nm ns)"
    and update_service_keeps: "keeps ok (update_service ki so nm ns)"
    and find_configuration_keeps: "keeps ok (find_configuration ki nm ns)"
    and get_configurations_keeps: "keeps ok (get_configurations ki)"
begin

lemmas keeps_calls [keeps_rules] = update_instance_keeps create_instance_keeps delete_instance_keeps find_node_keeps
  find_pods_with_label_keeps find_pods_with_field_keeps create_pod_keeps remove_pod_keeps
  find_services_keeps create_service_keeps remove_service_keeps update_service_keeps
  find_configuration_keeps get_configurations_keeps

text \<open>Reading an Instance, by what follows.\<close>

lemma keeps_find_bind [keeps_rules]:
  "(\<And>r. (\<And>x. r = Ok x \<Longrightarrow> object_ok K N (nm, ns) x) \<Longrightarrow> keeps ok (f r))
   \<Longrightarrow> keeps ok (State_Monad.bind (find_instance ki nm ns) f)"
  by (rule keeps_bind_post [OF find_instance_good]) auto

lemma keeps_find_try [keeps_rules]:
  "(\<And>x. object_ok K N (nm, ns) x \<Longrightarrow> keeps ok (f x)) \<Longrightarrow> keeps ok (try_then (find_instance ki nm ns) f)"
  by (rule keeps_try_then_post [OF find_instance_good]) auto

lemma keeps_get_bind [keeps_rules]:
  "(\<And>r. (\<And>xs x. r = Ok xs \<Longrightarrow> x \<in> set xs \<Longrightarrow> \<exists>k. object_ok K N k x) \<Longrightarrow> keeps ok (f r))
   \<Longrightarrow> keeps ok (State_Monad.bind (get_instances ki) f)"
  by (rule keeps_bind_post [OF get_instances_good]) auto

lemma keeps_get_try [keeps_rules]:
  "(\<And>xs. (\<And>x. x \<in> set xs \<Longrightarrow> \<exists>k. object_ok K N k x) \<Longrightarrow> keeps ok (f xs))
   \<Longrightarrow> keeps ok (try_then (get_instances ki) f)"
  by (rule keeps_try_then_post [OF get_instances_good]) auto

lemma keeps_find: "keeps ok (find_instance ki nm ns)"
  unfolding keeps_def by (auto intro: wp_mono [OF find_instance_good])

lemma keeps_get: "keeps ok (get_instances ki)"
  unfolding keeps_def by (auto intro: wp_mono [OF get_instances_good])

end

text \<open>A store without other writers keeps the contract, for any slots and nodes.\<close>

context kube_store
begin

lemma keeps_store_ok: "(\<And>w. wp m (\<lambda>_ w'. insts w' = insts w) w) \<Longrightarrow> keeps (\<lambda>w. store_ok K N (insts w)) m"
  unfolding keeps_def by (metis (mono_tags, lifting) wp_mono)

lemma store_instance_keeper: "instance_keeper ki (\<lambda>w. store_ok K N (insts w)) K N"
proof (unfold_locales, goal_cases)
  case (1 w nm ns)
  then show ?case by (auto intro!: wp_mono [OF find_instance_law] dest: store_okD)
next
  case (2 w)
  then show ?case by (intro wp_mono [OF get_instances_law]) (metis store_ok_ran)
next
  case (3 nm ns i)
  then show ?case unfolding keeps_def
    by (auto intro!: wp_mono [OF update_instance_law] simp: write_effect_def elim: patched_ok)
next
  case (4 nm ns i cn cu)
  then show ?case unfolding keeps_def
    by (auto intro!: wp_mono [OF create_instance_law] simp: write_effect_def elim: created_ok)
next
  case (5 nm ns)
  then show ?case unfolding keeps_def
    by (auto intro!: wp_mono [OF delete_instance_law] simp: write_effect_def elim: removed_ok)
qed (rule keeps_store_ok, (rule find_node_law find_pods_with_label_law find_pods_with_field_law create_pod_law
      remove_pod_law find_services_law create_service_law remove_service_law update_service_law
      find_configuration_law get_configurations_law))+

end

section \<open>Replaying a task\<close>

text \<open>
  The interface of a task that is replayed: each call takes the next answer that was recorded,
  if it is an answer to this call, and fails when there is none left.
\<close>

definition answer :: "(kube_event \<Rightarrow> ('a, error) result option) \<Rightarrow> ('l \<times> kube_event list, 'a) io" where
  "answer sel = State (\<lambda>(l, as). (case as of
       [] \<Rightarrow> (Err (KubeError ''no answer yet''), (l, []))
     | ev # as' \<Rightarrow> (case sel ev of Some r \<Rightarrow> (r, (l, as')) | None \<Rightarrow> (Err (KubeError ''other call''), (l, as')))))"

definition replaying :: "('l \<times> kube_event list) kube_interface" where
  "replaying = \<lparr>
     find_node = (\<lambda>n. answer (\<lambda>ev. case ev of EvFindNode n' r \<Rightarrow> if n' = n then Some r else None | _ \<Rightarrow> None)),
     find_pods_with_label = (\<lambda>s. answer (\<lambda>ev. case ev of
       EvFindPodsWithLabel s' r \<Rightarrow> if s' = s then Some r else None | _ \<Rightarrow> None)),
     find_pods_with_field = (\<lambda>s. answer (\<lambda>ev. case ev of
       EvFindPodsWithField s' r \<Rightarrow> if s' = s then Some r else None | _ \<Rightarrow> None)),
     create_pod = (\<lambda>p ns. answer (\<lambda>ev. case ev of
       EvCreatePod p' ns' r \<Rightarrow> if (p', ns') = (p, ns) then Some r else None | _ \<Rightarrow> None)),
     remove_pod = (\<lambda>n ns. answer (\<lambda>ev. case ev of
       EvRemovePod n' ns' r \<Rightarrow> if (n', ns') = (n, ns) then Some r else None | _ \<Rightarrow> None)),
     find_services = (\<lambda>s. answer (\<lambda>ev. case ev of
       EvFindServices s' r \<Rightarrow> if s' = s then Some r else None | _ \<Rightarrow> None)),
     create_service = (\<lambda>s ns. answer (\<lambda>ev. case ev of
       EvCreateService s' ns' r \<Rightarrow> if (s', ns') = (s, ns) then Some r else None | _ \<Rightarrow> None)),
     remove_service = (\<lambda>n ns. answer (\<lambda>ev. case ev of
       EvRemoveService n' ns' r \<Rightarrow> if (n', ns') = (n, ns) then Some r else None | _ \<Rightarrow> None)),
     update_service = (\<lambda>s n ns. answer (\<lambda>ev. case ev of
       EvUpdateService s' n' ns' r \<Rightarrow> if (s', n', ns') = (s, n, ns) then Some r else None | _ \<Rightarrow> None)),
     find_configuration = (\<lambda>n ns. answer (\<lambda>ev. case ev of
       EvFindConfiguration n' ns' r \<Rightarrow> if (n', ns') = (n, ns) then Some r else None | _ \<Rightarrow> None)),
     get_configurations = answer (\<lambda>ev. case ev of EvGetConfigurations r \<Rightarrow> Some r | _ \<Rightarrow> None),
     find_instance = (\<lambda>n ns. answer (\<lambda>ev. case ev of
       EvFindInstance n' ns' r \<Rightarrow> if (n', ns') = (n, ns) then Some r else None | _ \<Rightarrow> None)),
     get_instances = answer (\<lambda>ev. case ev of EvGetInstances r \<Rightarrow> Some r | _ \<Rightarrow> None),
     create_instance = (\<lambda>i n ns cn cu. answer (\<lambda>ev. case ev of
       EvCreateInstance i' n' ns' cn' cu' r \<Rightarrow>
         if (i', n', ns', cn', cu') = (i, n, ns, cn, cu) then Some r else None | _ \<Rightarrow> None)),
     delete_instance = (\<lambda>n ns. answer (\<lambda>ev. case ev of
       EvDeleteInstance n' ns' r \<Rightarrow> if (n', ns') = (n, ns) then Some r else None | _ \<Rightarrow> None)),
     update_instance = (\<lambda>i n ns. answer (\<lambda>ev. case ev of
       EvUpdateInstance i' n' ns' r \<Rightarrow> if (i', n', ns') = (i, n, ns) then Some r else None | _ \<Rightarrow> None))\<rparr>"

text \<open>
  A task runs against the replaying interface with its calls recorded. \<open>'l\<close> is whatever else it works on:
  its clock, its channels, the instance map of its process.
\<close>

type_synonym 'l task_state = "('l \<times> kube_event list) \<times> kube_event list"

abbreviation task_kube :: "'l task_state kube_interface" where
  "task_kube \<equiv> spied replaying"

definition next_call :: "('l task_state, 'a) state \<Rightarrow> 'l \<Rightarrow> kube_event list \<Rightarrow> kube_event option" where
  "next_call m l had = (case run_state m ((l, had), []) of
     (_, (_, calls)) \<Rightarrow> if length had < length calls then Some (calls ! length had) else None)"

text \<open>The invariant of a replay: the answers are good and the calls are good.\<close>

fun answer_ok :: "(string \<times> string \<Rightarrow> identity) \<Rightarrow> string set \<Rightarrow> kube_event \<Rightarrow> bool" where
  "answer_ok K N (EvFindInstance nm ns (Ok x)) = object_ok K N (nm, ns) x"
| "answer_ok K N (EvGetInstances (Ok xs)) = (\<forall>x \<in> set xs. \<exists>k. object_ok K N k x)"
| "answer_ok K N _ = True"

fun call_ok :: "(string \<times> string \<Rightarrow> identity) \<Rightarrow> string set \<Rightarrow> kube_event \<Rightarrow> bool" where
  "call_ok K N (EvUpdateInstance i nm ns r) = patch_ok K N (nm, ns) i"
| "call_ok K N (EvCreateInstance i nm ns cn cu r) = instance_ok K N (nm, ns) i"
| "call_ok K N _ = True"

definition replay_ok :: "(string \<times> string \<Rightarrow> identity) \<Rightarrow> string set \<Rightarrow> 'l task_state \<Rightarrow> bool" where
  "replay_ok K N s = (case s of ((l, as), calls) \<Rightarrow> list_all (answer_ok K N) as \<and> list_all (call_ok K N) calls)"

lemma wp_answer: "wp (answer sel) Q (l, as) = (case as of
     [] \<Rightarrow> Q (Err (KubeError ''no answer yet'')) (l, [])
   | ev # as' \<Rightarrow> (case sel ev of Some r \<Rightarrow> Q r (l, as') | None \<Rightarrow> Q (Err (KubeError ''other call'')) (l, as')))"
  by (simp add: wp_def answer_def split: list.split option.split)

lemma replay_call:
  assumes "\<And>r. call_ok K N (ev r)" "replay_ok K N s"
    and "\<And>a r. answer_ok K N a \<Longrightarrow> sel a = Some r \<Longrightarrow> P r" "\<And>e. P (Err e)"
  shows "wp (spy ev (answer sel)) (\<lambda>r s'. replay_ok K N s' \<and> P r) s"
proof -
  obtain l as calls where s: "s = ((l, as), calls)" by (metis surj_pair)
  with assms show ?thesis
    by (auto simp: wp_answer replay_ok_def split: list.split option.split)
qed

lemma replay_keeps: "(\<And>r. call_ok K N (ev r)) \<Longrightarrow> keeps (replay_ok K N) (spy ev (answer sel))"
  unfolding keeps_def using replay_call [where P = "\<lambda>_. True"] by fastforce

interpretation replay: instance_keeper task_kube "replay_ok K N" K N for K N
proof (unfold_locales, goal_cases)
  case (1 w nm ns)
  then show ?case unfolding spied_sel replaying_def kube_interface.simps
    by (intro replay_call) (auto split: kube_event.splits if_splits)
next
  case (2 w)
  then show ?case unfolding spied_sel replaying_def kube_interface.simps
    by (intro replay_call) (auto split: kube_event.splits)
qed (simp_all add: replaying_def replay_keeps)

text \<open>What a task does apart from its calls leaves the answers and the record alone.\<close>

definition local_io :: "('l, 'a) state \<Rightarrow> ('l task_state, 'a) state" where
  "local_io m = unrecorded (unrecorded m)"

lemma local_io_keeps [keeps_rules]: "keeps (replay_ok K N) (local_io m)"
  by (auto simp: keeps_def local_io_def unrecorded_def replay_ok_def wp_def split: prod.splits)

text \<open>So the next call of code that keeps the contract is good, after good answers.\<close>

lemma next_call_ok:
  assumes "keeps (replay_ok K N) m" "list_all (answer_ok K N) had" "next_call m l had = Some ev"
  shows "call_ok K N ev"
proof -
  obtain r l' as calls where run: "run_state m ((l, had), []) = (r, ((l', as), calls))" by (metis surj_pair)
  from keeps_mono [OF assms(1) run] assms(2) have "list_all (call_ok K N) calls" by (simp add: replay_ok_def)
  moreover from assms(3) run have "ev \<in> set calls" by (auto simp: next_call_def split: if_splits)
  ultimately show ?thesis by (simp add: list_all_iff)
qed

section \<open>The cluster\<close>

text \<open>
  What the server may answer to a call, and what becomes of the Instances: the contract of
  \<open>kube_store\<close>, for one call. A call that does not read or write Instances may be answered in
  any way.
\<close>

fun served :: "inst_store \<Rightarrow> kube_event \<Rightarrow> inst_store \<Rightarrow> bool" where
  "served st (EvFindInstance nm ns r) st' \<longleftrightarrow> st' = st \<and> (\<forall>x. r = Ok x \<longrightarrow> st (nm, ns) = Some x)"
| "served st (EvGetInstances r) st' \<longleftrightarrow> st' = st \<and> (\<forall>xs. r = Ok xs \<longrightarrow> set xs = ran st)"
| "served st (EvCreateInstance i nm ns cn cu r) st' \<longleftrightarrow> write_effect (created i nm ns) st r st'"
| "served st (EvDeleteInstance nm ns r) st' \<longleftrightarrow> write_effect (removed nm ns) st r st'"
| "served st (EvUpdateInstance i nm ns r) st' \<longleftrightarrow> write_effect (patched i nm ns) st r st'"
| "served st _ st' \<longleftrightarrow> st' = st"

text \<open>The call of an event, without its answer.\<close>

abbreviation unanswered :: "('a, error) result" where
  "unanswered \<equiv> Err (KubeError [])"

fun asked :: "kube_event \<Rightarrow> kube_event" where
  "asked (EvFindNode n r) = EvFindNode n unanswered"
| "asked (EvFindPodsWithLabel s r) = EvFindPodsWithLabel s unanswered"
| "asked (EvFindPodsWithField s r) = EvFindPodsWithField s unanswered"
| "asked (EvCreatePod p ns r) = EvCreatePod p ns unanswered"
| "asked (EvRemovePod n ns r) = EvRemovePod n ns unanswered"
| "asked (EvFindServices s r) = EvFindServices s unanswered"
| "asked (EvCreateService s ns r) = EvCreateService s ns unanswered"
| "asked (EvRemoveService n ns r) = EvRemoveService n ns unanswered"
| "asked (EvUpdateService s n ns r) = EvUpdateService s n ns unanswered"
| "asked (EvFindConfiguration n ns r) = EvFindConfiguration n ns unanswered"
| "asked (EvGetConfigurations r) = EvGetConfigurations unanswered"
| "asked (EvFindInstance n ns r) = EvFindInstance n ns unanswered"
| "asked (EvGetInstances r) = EvGetInstances unanswered"
| "asked (EvCreateInstance i n ns cn cu r) = EvCreateInstance i n ns cn cu unanswered"
| "asked (EvDeleteInstance n ns r) = EvDeleteInstance n ns unanswered"
| "asked (EvUpdateInstance i n ns r) = EvUpdateInstance i n ns unanswered"

lemma call_ok_asked [simp]: "call_ok K N (asked ev) = call_ok K N ev"
  by (cases ev) simp_all

text \<open>The Instances, and the answers each task has had.\<close>

type_synonym 'i pool_state = "inst_store \<times> ('i \<Rightarrow> kube_event list)"

inductive pool_step :: "('i \<Rightarrow> ('l task_state, unit) state) \<Rightarrow> ('i \<Rightarrow> 'l) \<Rightarrow> 'i pool_state \<Rightarrow> 'i pool_state \<Rightarrow> bool"
  for tasks init where
  call: "next_call (tasks i) (init i) (had i) = Some c \<Longrightarrow> asked ev = asked c \<Longrightarrow> served st ev st'
    \<Longrightarrow> pool_step tasks init (st, had) (st', had(i := had i @ [ev]))"

inductive_cases pool_stepE: "pool_step tasks init (st, had) s'"

definition pool_ok :: "(string \<times> string \<Rightarrow> identity) \<Rightarrow> string set \<Rightarrow> 'i pool_state \<Rightarrow> bool" where
  "pool_ok K N s \<longleftrightarrow> store_ok K N (fst s) \<and> (\<forall>i. list_all (answer_ok K N) (snd s i))"

lemma served_ok:
  assumes "served st ev st'" "store_ok K N st" "call_ok K N ev"
  shows "store_ok K N st' \<and> answer_ok K N ev"
  using assms
proof (induction st ev st' rule: served.induct)
  case (1 st nm ns r st')
  then show ?case by (cases r) (auto dest: store_okD)
next
  case (2 st r st')
  then show ?case by (cases r) (use store_ok_ran in \<open>auto simp del: split_paired_Ex\<close>)
qed (auto simp: write_effect_def elim: patched_ok created_ok removed_ok)

lemma pool_step_ok:
  assumes "\<forall>i. keeps (replay_ok K N) (tasks i)" "pool_step tasks init s s'" "pool_ok K N s"
  shows "pool_ok K N s'"
  using assms(2)
proof cases
  case (call i had c ev st st')
  have had: "store_ok K N st" "list_all (answer_ok K N) (had j)" for j
    using assms(3) call(1) by (simp_all add: pool_ok_def)
  have "call_ok K N c" by (rule next_call_ok [OF spec [OF assms(1)] had(2) call(3)])
  then have "call_ok K N ev" using call(4) by (metis call_ok_asked)
  from served_ok [OF call(5) had(1) this] had show ?thesis by (simp add: pool_ok_def call(2))
qed

lemma pool_invariant:
  assumes "\<forall>i. keeps (replay_ok K N) (tasks i)" "(pool_step tasks init)\<^sup>*\<^sup>* (st, \<lambda>_. []) s'" "store_ok K N st"
  shows "pool_ok K N s'"
  using assms(2)
proof (induction rule: rtranclp_induct)
  case base
  then show ?case using assms(3) by (simp add: pool_ok_def)
next
  case (step s s')
  then show ?case using pool_step_ok [OF assms(1)] by blast
qed

end
