(* ===== verification/Server_Wait.thy ===== *)
theory Server_Wait
  imports Akri_Prelude
begin

text \<open>
  Waiting for a gRPC server that was just started: the loop that \<open>serve\<close> of
  \<open>agent/src/util/device_plugin_service.rs\<close> and \<open>serve\<close> of the sample broker's
  \<open>camera_service.rs\<close> share. It connects until it succeeds or ten seconds have passed.
\<close>

text \<open>
  The loop, for at most \<open>n\<close> iterations: \<open>Some connected\<close> when it ended, \<open>None\<close> when it is still
  running. \<open>time_secs\<close> is the time since the epoch in seconds.
\<close>

fun wait_for_server :: "('w, nat) io \<Rightarrow> ('w, unit) io \<Rightarrow> (nat \<Rightarrow> ('w, unit) state) \<Rightarrow> nat \<Rightarrow> bool \<Rightarrow> nat
    \<Rightarrow> ('w, bool option) io" where
  "wait_for_server time_secs connect delay_for start_plus_10 connected 0 = return (Ok None)"
| "wait_for_server time_secs connect delay_for start_plus_10 connected (Suc n) =
     try_then (expecting ''Time went backwards'' time_secs) (\<lambda>now.
       if now < start_plus_10 \<and> \<not> connected then do {
         c \<leftarrow> connect;
         case c of
           Ok _ \<Rightarrow> wait_for_server time_secs connect delay_for start_plus_10 True n
         | Panic p \<Rightarrow> return (Panic p)
         | Err _ \<Rightarrow> do {
             _ \<leftarrow> delay_for (from_secs 1);
             wait_for_server time_secs connect delay_for start_plus_10 connected n
           }
       } else return (Ok (Some connected)))"

text \<open>
  A host whose wall clock, in seconds, is not set back while the loop runs, so that sleeping moves
  it on. \<open>SystemTime\<close> does not promise this; where the clock is set back the loop waits longer.
\<close>

locale polled_server =
  fixes time_secs :: "('w, nat) io" and connect :: "('w, unit) io" and delay_for :: "nat \<Rightarrow> ('w, unit) state"
    and clock :: "'w \<Rightarrow> nat"
  assumes time_law: "wp time_secs (\<lambda>r w'. r = Ok (clock w) \<and> clock w \<le> clock w') w"
    and connect_law: "wp connect (\<lambda>_ w'. clock w \<le> clock w') w"
    and delay_law: "wp (delay_for d) (\<lambda>_ w'. clock w + as_secs d \<le> clock w') w"
begin

lemma wp_wait_for_server:
  assumes "if connected then 1 \<le> n else deadline - clock w + 1 \<le> n"
  shows "wp (wait_for_server time_secs connect delay_for deadline connected n) (\<lambda>r _. r \<noteq> Ok None) w"
  using assms
proof (induction n arbitrary: connected w)
  case 0
  then show ?case by (simp split: if_splits)
next
  case (Suc n)
  let ?loop = "\<lambda>c. wait_for_server time_secs connect delay_for deadline c n"
  have retry: "wp (delay_for (from_secs 1)) (\<lambda>_. wp (?loop False) (\<lambda>r _. r \<noteq> Ok None)) w2"
    if "clock w \<le> clock w2" "clock w < deadline" "\<not> connected" for w2
    by (rule wp_mono [OF delay_law]) (use that Suc in \<open>auto split: if_splits\<close>)
  have conn: "wp connect (\<lambda>c. wp (case c of Ok _ \<Rightarrow> ?loop True | Panic p \<Rightarrow> return (Panic p)
      | Err _ \<Rightarrow> do { _ \<leftarrow> delay_for (from_secs 1); ?loop False }) (\<lambda>r _. r \<noteq> Ok None)) w1"
    if "clock w \<le> clock w1" "clock w < deadline" "\<not> connected" for w1
    by (rule wp_mono [OF connect_law])
       (use that Suc in \<open>auto intro!: retry [simplified] split: result.split if_splits\<close>)
  show ?case
    unfolding wait_for_server.simps wp_try_then expecting_def wp_bind wp_return
    by (rule wp_mono [OF time_law]) (use conn in \<open>auto simp del: One_nat_def\<close>)
qed

end

end
