(* ===== verification/Device_Plugin.thy ===== *)
theory Device_Plugin
  imports Kube_Store Server_Wait
begin

text \<open>
  \<open>agent/src/util/device_plugin_service.rs\<close>: the Kubernetes device plugin that the Agent
  runs for each Instance. A slot of the Instance is a virtual device; the kubelet allocates
  slots, and the plugin claims them in the Instance's \<open>device_usage\<close>, which all nodes share.
  What tokio, tonic and the operating system do is a parameter: the record \<open>dps_rt\<close>.
\<close>

section \<open>Data\<close>

datatype ListAndWatchMessageKind = Continue | End

text \<open>The time at which an Instance went offline is an \<open>Instant\<close>, in nanoseconds.\<close>

datatype ConnectivityStatus = Online | Offline nat

text \<open>A handle of a broadcast channel.\<close>

type_synonym sender = nat

record InstanceInfo =
  list_and_watch_message_sender :: sender
  connectivity_status :: ConnectivityStatus

type_synonym InstanceMap = "(string, InstanceInfo) hashmap"

record DevicePluginService =
  dps_instance_name :: string
  dps_endpoint :: string
  dps_config :: Configuration
  dps_config_name :: string
  dps_config_uid :: string
  dps_config_namespace :: string
  dps_shared :: bool
  dps_node_name :: string
  dps_instance_properties :: "(string, string) hashmap"
  dps_message_sender :: sender
  dps_server_ender_sender :: sender

text \<open>The messages of the device plugin API (\<open>v1beta1.rs\<close>). Messages with a single repeated field are lists.\<close>

record Device =
  device_id :: string
  health :: string

record Mount =
  container_path :: string
  host_path :: string
  read_only :: bool

record DeviceSpec =
  ds_container_path :: string
  ds_host_path :: string
  permissions :: string

record ContainerAllocateResponse =
  car_envs :: "(string, string) hashmap"
  car_mounts :: "Mount list"
  car_devices :: "DeviceSpec list"
  car_annotations :: "(string, string) hashmap"

record ContainerAllocateRequest =
  devices_i_ds :: "string list"

record DevicePluginOptions =
  pre_start_required :: bool

record RegisterRequest =
  rr_version :: string
  rr_endpoint :: string
  rr_resource_name :: string
  rr_options :: "DevicePluginOptions option"

section \<open>The runtime\<close>

text \<open>
  The mutex around the instance map: \<open>lock_map\<close> reads the map when the lock is acquired,
  \<open>store_map\<close> is the value it has when the lock is released. Other tasks run between a
  release and the next acquisition. Sending on a broadcast channel fails when nobody
  listens. \<open>recv_message\<close> is \<open>timeout(.., receiver.recv())\<close>.
\<close>

datatype received = Received ListAndWatchMessageKind | RecvError | Elapsed

record 'w dps_rt =
  lock_map :: "('w, InstanceMap) state"
  store_map :: "InstanceMap \<Rightarrow> ('w, unit) state"
  broadcast_send :: "sender \<Rightarrow> ListAndWatchMessageKind \<Rightarrow> ('w, unit) io"
  recv_message :: "sender \<Rightarrow> nat \<Rightarrow> ('w, received) state"
  server_ender_send :: "sender \<Rightarrow> ('w, unit) io"
  kubelet_update_send :: "Device list \<Rightarrow> ('w, unit) io"
  random_delay :: "('w, unit) state"

section \<open>Allocation\<close>

definition get_device_plugin_options :: "(DevicePluginOptions, error) result" where
  "get_device_plugin_options = Ok \<lparr>pre_start_required = True\<rparr>"

definition pre_start_container :: "(unit, error) result" where
  "pre_start_container = Ok ()"

definition get_slot_value :: "string \<Rightarrow> string \<Rightarrow> Instance \<Rightarrow> (string, error) result" where
  "get_slot_value device_usage_id node_name inst =
     (case map_of (device_usage inst) device_usage_id of
        Some allocated_node \<Rightarrow>
          if allocated_node = '''' then Ok node_name
          else if allocated_node = node_name then Ok ''''
          else Err (Msg ''Requested device already in use'')
      | None \<Rightarrow> Err (Msg ''Could not find device usage slot''))"

text \<open>
  The end of an iteration, with the result of the update and the iterations that are left;
  then the loop, over the remaining values of its variable.
\<close>

definition after_update :: "'w dps_rt \<Rightarrow> string \<Rightarrow> nat \<Rightarrow> string \<Rightarrow> ('w, unit) io \<Rightarrow> (unit, error) result
    \<Rightarrow> ('w, unit) io" where
  "after_update rt node_name x value next_tries u =
     (case u of
        Ok _ \<Rightarrow>
          if value = node_name then return (Ok ())
          else return (Err (Msg ''Devices are in inconsistent state, updated device usage, please retry scheduling''))
      | Panic p \<Rightarrow> return (Panic p)
      | Err e \<Rightarrow>
          if x = MAX_INSTANCE_UPDATE_TRIES - 1 then return (Err (Msg ''Could not update Instance''))
          else do { _ \<leftarrow> random_delay rt; next_tries })"

fun try_update_loop :: "'w dps_rt \<Rightarrow> string \<Rightarrow> string \<Rightarrow> string \<Rightarrow> string \<Rightarrow> 'w kube_interface
    \<Rightarrow> nat list \<Rightarrow> ('w, unit) io" where
  "try_update_loop rt device_usage_id node_name instance_name instance_namespace kube_interface [] =
     return (Ok ())"
| "try_update_loop rt device_usage_id node_name instance_name instance_namespace kube_interface (x # xs) = do {
     found \<leftarrow> find_instance kube_interface instance_name instance_namespace;
     case found of
       Err _ \<Rightarrow> return (Err (Msg (''Could not find Instance '' @ instance_name)))
     | Panic p \<Rightarrow> return (Panic p)
     | Ok instance_object \<Rightarrow>
         let inst = spec instance_object
         in try_then (return (get_slot_value device_usage_id node_name inst)) (\<lambda>value. do {
              u \<leftarrow> update_instance kube_interface
                     (inst\<lparr>device_usage := hm_insert device_usage_id value (device_usage inst)\<rparr>)
                     instance_name instance_namespace;
              after_update rt node_name x value
                (try_update_loop rt device_usage_id node_name instance_name instance_namespace kube_interface xs) u
            })
   }"

definition try_update_instance_device_usage :: "'w dps_rt \<Rightarrow> string \<Rightarrow> string \<Rightarrow> string \<Rightarrow> string
    \<Rightarrow> 'w kube_interface \<Rightarrow> ('w, unit) io" where
  "try_update_instance_device_usage rt device_usage_id node_name instance_name instance_namespace kube_interface =
     try_update_loop rt device_usage_id node_name instance_name instance_namespace kube_interface tries"

definition build_container_allocate_response ::
  "(string, string) hashmap \<Rightarrow> (string, string) hashmap \<Rightarrow> ProtocolHandler \<Rightarrow> ContainerAllocateResponse" where
  "build_container_allocate_response annots instance_properties proto =
     (let mounts = (case proto of
            udev _ \<Rightarrow> map (\<lambda>(_, devpath). \<lparr>container_path = devpath, host_path = devpath, read_only = True\<rparr>)
              instance_properties
          | _ \<Rightarrow> [])
      in \<lparr>car_envs = instance_properties, car_mounts = mounts, car_devices = [], car_annotations = annots\<rparr>)"

text \<open>The inner loop over the slots of one container's request.\<close>

fun allocate_devices :: "'w dps_rt \<Rightarrow> DevicePluginService \<Rightarrow> 'w kube_interface \<Rightarrow> string list
    \<Rightarrow> (string, string) hashmap \<Rightarrow> ('w, (string, string) hashmap) io" where
  "allocate_devices rt self kube_interface [] akri_annotations = return (Ok akri_annotations)"
| "allocate_devices rt self kube_interface (device_usage_id # rest) akri_annotations =
     (let akri_annotations = hm_insert AKRI_SLOT_ANNOTATION_NAME device_usage_id akri_annotations
      in do {
        r \<leftarrow> try_update_instance_device_usage rt device_usage_id (dps_node_name self) (dps_instance_name self)
               (dps_config_namespace self) kube_interface;
        case r of
          Ok _ \<Rightarrow> allocate_devices rt self kube_interface rest akri_annotations
        | Panic p \<Rightarrow> return (Panic p)
        | Err e \<Rightarrow> try_then (unwrapped (broadcast_send rt (dps_message_sender self) Continue))
                     (\<lambda>_. return (Err e))
      })"

fun internal_allocate :: "'w dps_rt \<Rightarrow> DevicePluginService \<Rightarrow> 'w kube_interface
    \<Rightarrow> ContainerAllocateRequest list \<Rightarrow> ('w, ContainerAllocateResponse list) io" where
  "internal_allocate rt self kube_interface [] = return (Ok [])"
| "internal_allocate rt self kube_interface (req # reqs) =
     try_then (allocate_devices rt self kube_interface (devices_i_ds req) []) (\<lambda>akri_annotations.
       let response = build_container_allocate_response akri_annotations
             (dps_instance_properties self) (protocol (dps_config self))
       in try_then (internal_allocate rt self kube_interface reqs) (\<lambda>container_responses.
            return (Ok (response # container_responses))))"

definition allocate :: "'w dps_rt \<Rightarrow> DevicePluginService \<Rightarrow> 'w kube_interface
    \<Rightarrow> ContainerAllocateRequest list \<Rightarrow> ('w, ContainerAllocateResponse list) io" where
  "allocate rt self kube_interface reqs = do {
     r \<leftarrow> internal_allocate rt self kube_interface reqs;
     return (case r of Ok resp \<Rightarrow> Ok resp | Err e \<Rightarrow> Err e | Panic p \<Rightarrow> Panic p)
   }"

section \<open>Creating the Instance\<close>

text \<open>\<open>0..capacity\<close> of a signed integer, and the slot names made from it.\<close>

definition range_to :: "int \<Rightarrow> nat list" where
  "range_to n = [0..<nat n]"

definition slot_name :: "string \<Rightarrow> nat \<Rightarrow> string" where
  "slot_name instance_name x = dash instance_name (show_nat x)"

definition new_instance :: "DevicePluginService \<Rightarrow> Instance" where
  "new_instance dps =
     \<lparr>configuration_name = dps_config_name dps,
      instance_metadata = dps_instance_properties dps,
      shared = dps_shared dps,
      nodes = [dps_node_name dps],
      device_usage = hm_collect (map (\<lambda>x. (slot_name (dps_instance_name dps) x, ''''))
        (range_to (capacity (dps_config dps)))),
      rbac = ''rbac''\<rparr>"

text \<open>The end of an iteration: leave the loop, give up after the last try, or try again.\<close>

definition break_or_retry :: "'w dps_rt \<Rightarrow> nat \<Rightarrow> ('w, unit) io \<Rightarrow> (unit, error) result \<Rightarrow> ('w, unit) io" where
  "break_or_retry rt x next_tries r =
     (case r of
        Ok _ \<Rightarrow> return (Ok ())
      | Panic p \<Rightarrow> return (Panic p)
      | Err e \<Rightarrow> if x = MAX_INSTANCE_UPDATE_TRIES - 1 then return (Err e)
          else do { _ \<leftarrow> random_delay rt; next_tries })"

fun try_create_loop :: "'w dps_rt \<Rightarrow> DevicePluginService \<Rightarrow> 'w kube_interface \<Rightarrow> nat list \<Rightarrow> ('w, unit) io" where
  "try_create_loop rt dps kube_interface [] = return (Ok ())"
| "try_create_loop rt dps kube_interface (x # xs) = do {
     found \<leftarrow> find_instance kube_interface (dps_instance_name dps) (dps_config_namespace dps);
     case found of
       Panic p \<Rightarrow> return (Panic p)
     | Ok instance_object \<Rightarrow>
         if dps_node_name dps \<notin> set (nodes (spec instance_object)) then do {
           u \<leftarrow> update_instance kube_interface
                  ((spec instance_object)\<lparr>nodes := nodes (spec instance_object) @ [dps_node_name dps]\<rparr>)
                  (m_name (metadata instance_object)) (dps_config_namespace dps);
           break_or_retry rt x (try_create_loop rt dps kube_interface xs) u
         } else return (Ok ())
     | Err _ \<Rightarrow> do {
         c \<leftarrow> create_instance kube_interface (new_instance dps) (dps_instance_name dps)
                (dps_config_namespace dps) (dps_config_name dps) (dps_config_uid dps);
         break_or_retry rt x (try_create_loop rt dps kube_interface xs) c
       }
   }"

definition try_create_instance :: "'w dps_rt \<Rightarrow> DevicePluginService \<Rightarrow> 'w kube_interface \<Rightarrow> ('w, unit) io" where
  "try_create_instance rt dps kube_interface =
     try_then (find_configuration kube_interface (dps_config_name dps) (dps_config_namespace dps)) (\<lambda>_.
       try_then (try_create_loop rt dps kube_interface tries) (\<lambda>_. do {
         m \<leftarrow> lock_map rt;
         _ \<leftarrow> store_map rt (hm_insert (dps_instance_name dps)
           \<lparr>list_and_watch_message_sender = dps_message_sender dps, connectivity_status = Online\<rparr> m);
         return (Ok ())
       }))"

section \<open>Reporting devices\<close>

definition build_unhealthy_virtual_devices :: "int \<Rightarrow> string \<Rightarrow> Device list" where
  "build_unhealthy_virtual_devices cap instance_name =
     map (\<lambda>x. \<lparr>device_id = slot_name instance_name x, health = UNHEALTHY\<rparr>) (range_to cap)"

fun build_virtual_devices :: "(string, string) hashmap \<Rightarrow> bool \<Rightarrow> string \<Rightarrow> (Device list, error) result" where
  "build_virtual_devices [] is_shared node_name = Ok []"
| "build_virtual_devices ((device_name, allocated_node) # rest) is_shared node_name =
     (if \<not> is_shared \<and> allocated_node \<noteq> '''' \<and> allocated_node \<noteq> node_name
      then Panic ''build_virtual_devices - unshared device reserved by a different node''
      else let unhealthy = (is_shared \<and> allocated_node \<noteq> '''' \<and> allocated_node \<noteq> node_name);
               h = (if unhealthy then UNHEALTHY else HEALTHY)
           in (case build_virtual_devices rest is_shared node_name of
                 Ok devices \<Rightarrow> Ok (\<lparr>device_id = device_name, health = h\<rparr> # devices)
               | other \<Rightarrow> other))"

definition build_list_and_watch_response :: "'w dps_rt \<Rightarrow> DevicePluginService \<Rightarrow> 'w kube_interface
    \<Rightarrow> ('w, Device list) io" where
  "build_list_and_watch_response rt dps kube_interface =
     (let unhealthy = build_unhealthy_virtual_devices (capacity (dps_config dps)) (dps_instance_name dps)
      in do {
        m \<leftarrow> lock_map rt;
        if \<not> hm_contains m (dps_instance_name dps) then return (Ok unhealthy)
        else do {
          m' \<leftarrow> lock_map rt;
          try_then (return (unwrap (map_of m' (dps_instance_name dps)))) (\<lambda>info.
            if connectivity_status info \<noteq> Online then return (Ok unhealthy)
            else do {
              found \<leftarrow> find_instance kube_interface (dps_instance_name dps) (dps_config_namespace dps);
              return (case found of
                  Ok kube_akri_instance \<Rightarrow> build_virtual_devices (device_usage (spec kube_akri_instance))
                    (shared (spec kube_akri_instance)) (dps_node_name dps)
                | Err _ \<Rightarrow> Ok unhealthy
                | Panic p \<Rightarrow> Panic p)
            })
        }
      })"

text \<open>
  One iteration sends the devices to the kubelet (the result is \<open>keep_looping\<close>), waits for
  a message, and ends on \<open>End\<close>.
\<close>

definition send_devices :: "'w dps_rt \<Rightarrow> DevicePluginService \<Rightarrow> Device list \<Rightarrow> ('w, bool) io" where
  "send_devices rt dps virtual_devices = do {
     sent \<leftarrow> kubelet_update_send rt virtual_devices;
     case sent of
       Err e \<Rightarrow> do {
         m \<leftarrow> lock_map rt;
         _ \<leftarrow> store_map rt (hm_remove (dps_instance_name dps) m);
         try_then (unwrapped (server_ender_send rt (dps_server_ender_sender dps))) (\<lambda>_. return (Ok False))
       }
     | Ok _ \<Rightarrow> return (Ok True)
     | Panic p \<Rightarrow> return (Panic p)
   }"

definition on_message :: "'w dps_rt \<Rightarrow> DevicePluginService \<Rightarrow> bool \<Rightarrow> ('w, bool) io \<Rightarrow> received \<Rightarrow> ('w, bool) io" where
  "on_message rt dps keep_looping next_iterations message =
     (if message = Received End then
        try_then (unwrapped (kubelet_update_send rt (build_unhealthy_virtual_devices
            (capacity (dps_config dps)) (dps_instance_name dps)))) (\<lambda>_.
          try_then (unwrapped (server_ender_send rt (dps_server_ender_sender dps))) (\<lambda>_. return (Ok True)))
      else if keep_looping then next_iterations
      else return (Ok True))"

text \<open>
  The loop of \<open>list_and_watch\<close>, for at most \<open>n\<close> iterations: \<open>Ok True\<close> when it ended by
  itself, \<open>Ok False\<close> when it is still running.
\<close>

fun list_and_watch_loop :: "'w dps_rt \<Rightarrow> DevicePluginService \<Rightarrow> 'w kube_interface \<Rightarrow> nat \<Rightarrow> ('w, bool) io" where
  "list_and_watch_loop rt dps kube_interface 0 = return (Ok False)"
| "list_and_watch_loop rt dps kube_interface (Suc n) =
     try_then (unwrapped (build_list_and_watch_response rt dps kube_interface)) (\<lambda>virtual_devices.
       try_then (send_devices rt dps virtual_devices) (\<lambda>keep_looping. do {
         message \<leftarrow> recv_message rt (dps_message_sender dps) (from_secs LIST_AND_WATCH_SLEEP_SECS);
         on_message rt dps keep_looping (list_and_watch_loop rt dps kube_interface n) message
       }))"

definition list_and_watch :: "'w dps_rt \<Rightarrow> DevicePluginService \<Rightarrow> 'w kube_interface \<Rightarrow> nat \<Rightarrow> ('w, bool) io" where
  "list_and_watch rt dps kube_interface n = do {
     r \<leftarrow> try_create_instance rt dps kube_interface;
     case r of
       Err e \<Rightarrow> try_then (unwrapped (server_ender_send rt (dps_server_ender_sender dps))) (\<lambda>_. return (Ok True))
     | Panic p \<Rightarrow> return (Panic p)
     | Ok _ \<Rightarrow> list_and_watch_loop rt dps kube_interface n
   }"

definition terminate_device_plugin_service :: "'w dps_rt \<Rightarrow> string \<Rightarrow> ('w, unit) io" where
  "terminate_device_plugin_service rt instance_name = do {
     m \<leftarrow> lock_map rt;
     try_then (return (unwrap (map_of m instance_name))) (\<lambda>info.
       try_then (unwrapped (broadcast_send rt (list_and_watch_message_sender info) End)) (\<lambda>_. do {
         _ \<leftarrow> store_map rt (hm_remove instance_name m);
         return (Ok ())
       }))
   }"

definition get_device_instance_name :: "string \<Rightarrow> string \<Rightarrow> string" where
  "get_device_instance_name id' config_name =
     replace_char CHR ''/'' CHR ''-'' (replace_char CHR ''.'' CHR ''-'' (dash config_name id'))"

section \<open>Starting the service\<close>

text \<open>
  What serving needs of the operating system and of tonic. \<open>spawn_server\<close> starts the task
  that serves the socket until the shutdown signal and then deletes it; \<open>connect_uds\<close> opens
  a client connection to a socket. The fixed endpoint URI is well formed.
\<close>

record 'w serve_rt =
  create_dir_all :: "string \<Rightarrow> ('w, unit) io"
  bind_listener :: "string \<Rightarrow> ('w, unit) io"
  spawn_server :: "DevicePluginService \<Rightarrow> string \<Rightarrow> ('w, unit) state"
  connect_uds :: "string \<Rightarrow> ('w, unit) io"
  kubelet_register :: "RegisterRequest \<Rightarrow> ('w, unit) io"
  system_time_secs :: "('w, nat) io"
  sleep :: "nat \<Rightarrow> ('w, unit) state"
  env_var :: "string \<Rightarrow> ('w, string) io"
  new_channels :: "('w, sender \<times> sender) state"
  ender_send :: "sender \<Rightarrow> ('w, unit) io"

text \<open>\<open>Path::join\<close> with a relative component, and \<open>Path::parent\<close>.\<close>

definition path_join :: "string \<Rightarrow> string \<Rightarrow> string" where
  "path_join p f = (if p = [] \<or> last p = CHR ''/'' then p @ f else p @ ''/'' @ f)"

definition path_parent :: "string \<Rightarrow> string option" where
  "path_parent p = (if p = [] then None
     else Some (rev (drop 1 (dropWhile (\<lambda>c. c \<noteq> CHR ''/'') (rev p)))))"

text \<open>The loop that tests the server on its socket, for at most \<open>n\<close> iterations.\<close>

definition serve_wait :: "'w serve_rt \<Rightarrow> string \<Rightarrow> nat \<Rightarrow> bool \<Rightarrow> nat \<Rightarrow> ('w, bool option) io" where
  "serve_wait os socket_path start_plus_10 connected n =
     wait_for_server (system_time_secs os) (connect_uds os socket_path) (sleep os) start_plus_10 connected n"

definition serve :: "'w serve_rt \<Rightarrow> DevicePluginService \<Rightarrow> string \<Rightarrow> nat \<Rightarrow> ('w, bool option) io" where
  "serve os device_plugin_service socket_path n =
     try_then (return (unwrap (path_parent socket_path))) (\<lambda>dir.
       try_then (expecting ''Failed to create dir at socket path'' (create_dir_all os dir)) (\<lambda>_.
         try_then (expecting ''Failed to bind to socket path'' (bind_listener os socket_path)) (\<lambda>_. do {
           _ \<leftarrow> spawn_server os device_plugin_service socket_path;
           try_then (expecting ''Time went backwards'' (system_time_secs os)) (\<lambda>start.
             serve_wait os socket_path (start + 10) False n)
         })))"

definition register :: "'w serve_rt \<Rightarrow> string \<Rightarrow> string \<Rightarrow> string \<Rightarrow> sender \<Rightarrow> ('w, unit) io" where
  "register os capability_id socket_name instance_name server_ender_sender =
     (let op = \<lparr>pre_start_required = False\<rparr>
      in try_then (connect_uds os KUBELET_SOCKET) (\<lambda>_. do {
           r \<leftarrow> kubelet_register os \<lparr>rr_version = K8S_DEVICE_PLUGIN_VERSION, rr_endpoint = socket_name,
                  rr_resource_name = capability_id, rr_options = Some op\<rparr>;
           case r of
             Err _ \<Rightarrow> ender_send os server_ender_sender
           | Panic p \<Rightarrow> return (Panic p)
           | Ok _ \<Rightarrow> return (Ok ())
         }))"

text \<open>The loop of \<open>serve\<close> gets \<open>n\<close> iterations; a plugin that still waits after them has not registered.\<close>

definition build_device_plugin :: "'w serve_rt \<Rightarrow> nat \<Rightarrow> string \<Rightarrow> string \<Rightarrow> string \<Rightarrow> string \<Rightarrow> Configuration
    \<Rightarrow> bool \<Rightarrow> (string, string) hashmap \<Rightarrow> string \<Rightarrow> ('w, unit) io" where
  "build_device_plugin os n instance_name config_name config_uid config_namespace config is_shared
     instance_properties device_plugin_path =
     (let capability_id = AKRI_PREFIX @ ''/'' @ instance_name
      in try_then (system_time_secs os) (\<lambda>unique_time.
        let device_endpoint = dash instance_name (show_nat unique_time) @ ''.sock'';
            socket_path = path_join device_plugin_path device_endpoint
        in do {
          (message_sender, server_ender_sender) \<leftarrow> new_channels os;
          try_then (env_var os ''AGENT_NODE_NAME'') (\<lambda>node_name.
            let device_plugin_service =
              \<lparr>dps_instance_name = instance_name, dps_endpoint = device_endpoint, dps_config = config,
               dps_config_name = config_name, dps_config_uid = config_uid,
               dps_config_namespace = config_namespace, dps_shared = is_shared, dps_node_name = node_name,
               dps_instance_properties = instance_properties, dps_message_sender = message_sender,
               dps_server_ender_sender = server_ender_sender\<rparr>
            in try_then (serve os device_plugin_service socket_path n) (\<lambda>served.
                 case served of
                   Some _ \<Rightarrow> register os capability_id device_endpoint instance_name server_ender_sender
                 | None \<Rightarrow> return (Ok ())))
        }))"

section \<open>The contract of the runtime\<close>

text \<open>
  What the runtime does between the calls leaves the Instances of the cluster alone, and
  the mutex keeps the instance map.
\<close>

locale dps_store = kube_store +
  fixes rt :: "'w dps_rt"
    and imap :: "'w \<Rightarrow> InstanceMap"
  assumes delay_law: "wp (random_delay rt) (\<lambda>_ w'. insts w' = insts w) w"
    and lock_law: "wp (lock_map rt) (\<lambda>m w'. m = imap w \<and> imap w' = imap w \<and> insts w' = insts w) w"
    and store_law: "wp (store_map rt m) (\<lambda>_ w'. imap w' = m \<and> insts w' = insts w) w"
    and broadcast_law: "wp (broadcast_send rt s k) (\<lambda>_ w'. imap w' = imap w \<and> insts w' = insts w) w"

locale reliable_dps_store = dps_store + reliable_store

section \<open>Claiming a slot\<close>

text \<open>
  \<open>slot_step I node i i'\<close>: only slots in \<open>I\<close> may differ between the two Instances, and a
  slot differs only if it was free or the node's own; then it is one of these afterwards. A
  well-formed Instance stays well formed.
\<close>

definition slot_step :: "string set \<Rightarrow> string \<Rightarrow> Instance \<Rightarrow> Instance \<Rightarrow> bool" where
  "slot_step I node i i' \<longleftrightarrow> same_besides_slots i i' \<and> (instance_wf i \<longrightarrow> instance_wf i')
     \<and> (\<forall>s. slot_owner i' s = slot_owner i s
        \<or> s \<in> I \<and> slot_owner i s \<in> {Some '''', Some node} \<and> slot_owner i' s \<in> {Some '''', Some node})"

definition store_slot_step :: "string set \<Rightarrow> string \<Rightarrow> string \<times> string \<Rightarrow> inst_store \<Rightarrow> inst_store \<Rightarrow> bool" where
  "store_slot_step I node k st st' \<longleftrightarrow> (\<forall>k'. k' \<noteq> k \<longrightarrow> st' k' = st k')
     \<and> rel_option (\<lambda>x x'. slot_step I node (spec x) (spec x')) (st k) (st' k)"

definition owns :: "string \<Rightarrow> string \<times> string \<Rightarrow> inst_store \<Rightarrow> string \<Rightarrow> bool" where
  "owns node k st s \<longleftrightarrow> (\<exists>x. st k = Some x \<and> slot_owner (spec x) s = Some node)"

lemma slot_step_refl: "slot_step I node i i"
  by (simp add: slot_step_def same_besides_slots_def)

lemma slot_step_trans:
  assumes "slot_step I node i i'" "slot_step J node i' i''"
  shows "slot_step (I \<union> J) node i i''"
proof -
  have "slot_owner i'' s = slot_owner i s \<or> s \<in> I \<union> J \<and> slot_owner i s \<in> {Some '''', Some node}
      \<and> slot_owner i'' s \<in> {Some '''', Some node}" for s
    using assms by (auto simp: slot_step_def dest!: spec [of _ s])
  then show ?thesis using assms by (simp add: slot_step_def same_besides_slots_def)
qed

lemma store_slot_step_refl: "store_slot_step I node k st st"
  by (auto simp: store_slot_step_def slot_step_refl intro!: option.rel_refl)

lemma store_slot_step_trans:
  "store_slot_step I node k st st' \<Longrightarrow> store_slot_step J node k st' st'' \<Longrightarrow> store_slot_step (I \<union> J) node k st st''"
  by (auto simp: store_slot_step_def elim!: option.rel_cases dest: slot_step_trans)

lemma owns_step:
  assumes "store_slot_step {s} node k st st'" "owns node k st s'" "s' \<noteq> s"
  shows "owns node k st' s'"
proof -
  from assms(1,2) obtain x x' where "st k = Some x" "slot_owner (spec x) s' = Some node" "st' k = Some x'"
      "slot_step {s} node (spec x) (spec x')"
    by (auto simp: owns_def store_slot_step_def elim!: option.rel_cases)
  then show ?thesis using assms(3) by (auto simp: owns_def slot_step_def dest!: spec [of _ s'])
qed

text \<open>The value a slot gets and the write that follows.\<close>

lemma get_slot_value_eq:
  "get_slot_value id' node i = Ok v \<longleftrightarrow>
     slot_owner i id' = Some '''' \<and> v = node \<or> slot_owner i id' = Some node \<and> node \<noteq> '''' \<and> v = ''''"
  "get_slot_value id' node i \<noteq> Panic p"
  by (auto simp: get_slot_value_def split: option.splits)

abbreviation set_slot :: "string \<Rightarrow> string \<Rightarrow> Instance \<Rightarrow> Instance" where
  "set_slot id' v i \<equiv> i\<lparr>device_usage := hm_insert id' v (device_usage i)\<rparr>"

lemma slot_step_write:
  assumes "get_slot_value id' node (spec x) = Ok v" "st (nm, ns) = Some x"
    and "patched (set_slot id' v (spec x)) nm ns st st'"
  shows "store_slot_step {id'} node (nm, ns) st st' \<and> owns v (nm, ns) st' id'"
proof -
  from assms(2,3) obtain x' where st': "st' = st((nm, ns) \<mapsto> x')"
    and sp: "spec x' = merge_instance (spec x) (set_slot id' v (spec x))"
    by (auto simp: patched_def)
  have own: "slot_owner (spec x') s = (if s = id' then Some v else slot_owner (spec x) s)" for s
    by (auto simp: sp hashmap_simps split: option.split)
  have "slot_step {id'} node (spec x) (spec x')"
    using assms(1) own by (auto simp: slot_step_def same_besides_slots_def get_slot_value_eq sp)
  then show ?thesis using own assms(2) by (auto simp: store_slot_step_def st' owns_def)
qed

context dps_store
begin

text \<open>
  The whole loop: on success the node holds the slot; in every case only that slot of that
  Instance may have changed, and never away from another node.
\<close>

lemma wp_try_update_loop:
  assumes "xs \<noteq> []" "last xs = MAX_INSTANCE_UPDATE_TRIES - 1"
  shows "wp (try_update_loop rt id' node nm ns ki xs) (\<lambda>r w'.
    store_slot_step {id'} node (nm, ns) (insts w) (insts w') \<and> (is_ok r \<longrightarrow> owns node (nm, ns) (insts w') id')) w"
  using assms
proof (induction xs arbitrary: w)
  case (Cons t xs)
  let ?Q = "\<lambda>w r w'. store_slot_step {id'} node (nm, ns) (insts w) (insts w')
    \<and> (is_ok r \<longrightarrow> owns node (nm, ns) (insts w') id')"
  have retry: "wp (random_delay rt) (\<lambda>_. wp (try_update_loop rt id' node nm ns ki xs) (?Q w)) w1"
    if step: "store_slot_step {id'} node (nm, ns) (insts w) (insts w1)"
      and "t \<noteq> MAX_INSTANCE_UPDATE_TRIES - 1" for w1
  proof -
    from that(2) Cons.prems have ne: "xs \<noteq> []" "last xs = MAX_INSTANCE_UPDATE_TRIES - 1"
      by (auto split: if_splits)
    show ?thesis
      by (rule wp_mono [OF delay_law], rule wp_mono [OF Cons.IH [OF ne]])
         (use store_slot_step_trans [OF step, of "{id'}"] in \<open>auto\<close>)
  qed
  have upd: "wp (update_instance ki (set_slot id' v (spec x)) nm ns) (\<lambda>u. wp (after_update rt node t v
      (try_update_loop rt id' node nm ns ki xs) u) (?Q w)) w1"
    if "insts w1 = insts w" "insts w (nm, ns) = Some x" "get_slot_value id' node (spec x) = Ok v" for x v w1
  proof (rule wp_update_instance)
    fix u :: "(unit, error) result" and w2
    assume "write_effect (patched (set_slot id' v (spec x)) nm ns) (insts w1) u (insts w2)"
    then have step: "store_slot_step {id'} node (nm, ns) (insts w) (insts w2)"
      and ok: "is_ok u \<longrightarrow> owns v (nm, ns) (insts w2) id'"
      using slot_step_write [OF that(3), of "insts w" nm ns "insts w2"] that(1,2)
      by (auto simp: write_effect_def store_slot_step_refl)
    then show "wp (after_update rt node t v (try_update_loop rt id' node nm ns ki xs) u) (?Q w) w2"
      using retry [OF step] by (cases u) (auto simp: after_update_def)
  qed
  show ?case
    unfolding try_update_loop.simps wp_bind
  proof (rule wp_find_instance, goal_cases)
    case (1 found w1)
    show ?case
    proof (cases found)
      case (Ok x)
      then show ?thesis
        using 1 upd by (auto simp: Let_def store_slot_step_refl get_slot_value_eq(2) split: result.split)
    qed (use 1 in \<open>auto simp: store_slot_step_refl\<close>)
  qed
qed simp

lemma wp_try_update:
  "wp (try_update_instance_device_usage rt id' node nm ns ki) (\<lambda>r w'.
    store_slot_step {id'} node (nm, ns) (insts w) (insts w') \<and> (is_ok r \<longrightarrow> owns node (nm, ns) (insts w') id')) w"
  unfolding try_update_instance_device_usage_def
  by (rule wp_try_update_loop) (simp_all add: tries_eq, simp add: MAX_INSTANCE_UPDATE_TRIES_def)

text \<open>All slots of a container's request, and all containers.\<close>

lemma wp_allocate_devices:
  assumes "\<forall>s \<in> D. owns (dps_node_name self) (dps_instance_name self, dps_config_namespace self) (insts w) s"
  shows "wp (allocate_devices rt self ki ids ann) (\<lambda>r w'.
      store_slot_step (set ids) (dps_node_name self) (dps_instance_name self, dps_config_namespace self) (insts w) (insts w')
    \<and> (\<forall>ann'. r = Ok ann' \<longrightarrow>
         (\<forall>s \<in> D \<union> set ids. owns (dps_node_name self) (dps_instance_name self, dps_config_namespace self) (insts w') s)
       \<and> ann' = (if ids = [] then ann else hm_insert AKRI_SLOT_ANNOTATION_NAME (last ids) ann))) w"
  using assms
proof (induction ids arbitrary: w ann D)
  case Nil
  then show ?case by (simp add: store_slot_step_refl)
next
  case (Cons id' ids)
  let ?k = "(dps_instance_name self, dps_config_namespace self)"
  let ?node = "dps_node_name self"
  show ?case
    unfolding allocate_devices.simps Let_def wp_bind
  proof (rule wp_mono [OF wp_try_update], goal_cases)
    case (1 r w1)
    then have step: "store_slot_step {id'} ?node ?k (insts w) (insts w1)" by simp
    show ?case
    proof (cases r)
      case (Ok u)
      with 1 Cons.prems have "\<forall>s \<in> insert id' D. owns ?node ?k (insts w1) s"
        using owns_step [OF step] by (metis insertE is_ok.simps(1))
      note ih = Cons.IH [OF this, of "hm_insert AKRI_SLOT_ANNOTATION_NAME id' ann"]
      show ?thesis
        unfolding Ok result.case
        by (rule wp_mono [OF ih]) (use store_slot_step_trans [OF step] in \<open>auto split: if_splits\<close>)
    next
      case (Err e)
      have "store_slot_step (set (id' # ids)) ?node ?k (insts w) (insts w1)"
        using store_slot_step_trans [OF step store_slot_step_refl [of "set ids"]] by simp
      then show ?thesis
        by (auto simp: Err unwrapped_def intro!: wp_mono [OF broadcast_law] split: result.split)
    next
      case (Panic p)
      then show ?thesis
        using store_slot_step_trans [OF step store_slot_step_refl [of "set ids"]] by simp
    qed
  qed
qed

end

text \<open>
  What a container is given for its request when every slot could be claimed: the Instance's
  properties as environment, for a udev device each of them once more as a path to be mounted
  read-only onto itself, no devices, and the last of its slots as annotation.
\<close>

definition container_given :: "DevicePluginService \<Rightarrow> ContainerAllocateRequest \<Rightarrow> ContainerAllocateResponse \<Rightarrow> bool" where
  "container_given self req resp \<longleftrightarrow> car_envs resp = dps_instance_properties self
     \<and> ((\<exists>c. protocol (dps_config self) = udev c) \<longrightarrow>
          map container_path (car_mounts resp) = map snd (dps_instance_properties self)
        \<and> (\<forall>m \<in> set (car_mounts resp). host_path m = container_path m \<and> read_only m))
     \<and> ((\<nexists>c. protocol (dps_config self) = udev c) \<longrightarrow> car_mounts resp = [])
     \<and> car_devices resp = []
     \<and> car_annotations resp = (if devices_i_ds req = [] then [] else [(''akri.agent.slot'', last (devices_i_ds req))])"

lemma build_response_given:
  "container_given self req (build_container_allocate_response
     (if devices_i_ds req = [] then [] else [(AKRI_SLOT_ANNOTATION_NAME, last (devices_i_ds req))])
     (dps_instance_properties self) (protocol (dps_config self)))"
  by (auto simp: container_given_def build_container_allocate_response_def AKRI_SLOT_ANNOTATION_NAME_def
      split: ProtocolHandler.split)

context dps_store
begin

lemma wp_internal_allocate:
  assumes "\<forall>s \<in> D. owns (dps_node_name self) (dps_instance_name self, dps_config_namespace self) (insts w) s"
  shows "wp (internal_allocate rt self ki reqs) (\<lambda>r w'.
      store_slot_step (\<Union>req \<in> set reqs. set (devices_i_ds req)) (dps_node_name self)
        (dps_instance_name self, dps_config_namespace self) (insts w) (insts w')
    \<and> (\<forall>resps. r = Ok resps \<longrightarrow> list_all2 (container_given self) reqs resps
       \<and> (\<forall>s \<in> D \<union> (\<Union>req \<in> set reqs. set (devices_i_ds req)).
            owns (dps_node_name self) (dps_instance_name self, dps_config_namespace self) (insts w') s))) w"
  using assms
proof (induction reqs arbitrary: w D)
  case Nil
  then show ?case by (simp add: store_slot_step_refl)
next
  case (Cons req reqs)
  let ?k = "(dps_instance_name self, dps_config_namespace self)"
  let ?node = "dps_node_name self"
  let ?I = "set (devices_i_ds req)"
  let ?J = "\<Union>req \<in> set reqs. set (devices_i_ds req)"
  show ?case
    unfolding internal_allocate.simps Let_def wp_try_then
  proof (rule wp_mono [OF wp_allocate_devices [OF Cons.prems]], goal_cases)
    case (1 r w1)
    then have step: "store_slot_step ?I ?node ?k (insts w) (insts w1)" by blast
    note wider = store_slot_step_trans [OF step store_slot_step_refl [of ?J]]
    show ?case
    proof (cases r)
      case (Ok ann')
      with 1 have own: "\<forall>s \<in> D \<union> ?I. owns ?node ?k (insts w1) s" by auto
      show ?thesis
        unfolding Ok result.case
        by (rule wp_mono [OF Cons.IH [OF own]])
           (use 1 Ok store_slot_step_trans [OF step] build_response_given [of self req]
             in \<open>auto split: result.splits\<close>)
    qed (use wider in simp_all)
  qed
qed

end

context reliable_dps_store
begin

text \<open>On a reliable store the outcome is decided by the owner of the slot.\<close>

lemma wp_try_update_reliable:
  assumes x: "insts w (nm, ns) = Some x"
  shows "wp (try_update_instance_device_usage rt id' node nm ns ki) (\<lambda>r w'.
     case slot_owner (spec x) id' of
       None \<Rightarrow> r = Err (Msg ''Could not find device usage slot'') \<and> insts w' = insts w
     | Some own \<Rightarrow>
         if own = '''' then r = Ok () \<and> owns node (nm, ns) (insts w') id'
         else if own = node then \<not> is_ok r \<and> owns '''' (nm, ns) (insts w') id'
         else r = Err (Msg ''Requested device already in use'') \<and> insts w' = insts w) w"
proof -
  have upd: "wp (update_instance ki (set_slot id' v (spec x)) nm ns)
      (\<lambda>u w'. u = Ok () \<and> owns v (nm, ns) (insts w') id') w1"
    if "insts w1 = insts w" "get_slot_value id' node (spec x) = Ok v" for w1 v
    by (rule wp_update_instance_ok [where x = x])
       (use that x slot_step_write [OF that(2), of "insts w" nm ns] in auto)
  show ?thesis
    unfolding try_update_instance_device_usage_def tries_cons try_update_loop.simps(2) wp_bind
  proof (rule wp_find_instance_ok [OF x], goal_cases)
    case (1 w1)
    show ?case
    proof (cases "get_slot_value id' node (spec x)")
      case (Ok v)
      have "wp (update_instance ki (set_slot id' v (spec x)) nm ns) (\<lambda>u. wp (after_update rt node 0 v next_tries u)
          (\<lambda>r w'. (v = node \<longrightarrow> r = Ok ()) \<and> (v \<noteq> node \<longrightarrow> \<not> is_ok r) \<and> owns v (nm, ns) (insts w') id')) w1" for next_tries
        by (rule wp_mono [OF upd [OF 1 Ok]]) (auto simp: after_update_def)
      from this [of "try_update_loop rt id' node nm ns ki [1..<MAX_INSTANCE_UPDATE_TRIES]"] Ok show ?thesis
        unfolding result.case Let_def wp_try_then wp_return Ok wp_bind
        by (elim wp_mono) (use Ok [unfolded get_slot_value_eq] in auto)
    qed (use 1 in \<open>auto simp: Let_def get_slot_value_def split: option.splits if_splits\<close>)
  qed
qed

end

section \<open>Creating or joining an Instance\<close>

text \<open>
  \<open>joined node i i'\<close>: the node may have been added at the end of the nodes, once; the slots
  and everything else that matters are as before.
\<close>

definition joined :: "string \<Rightarrow> Instance \<Rightarrow> Instance \<Rightarrow> bool" where
  "joined node i i' \<longleftrightarrow> (nodes i' = nodes i \<or> node \<notin> set (nodes i) \<and> nodes i' = nodes i @ [node])
     \<and> shared i' = shared i \<and> configuration_name i' = configuration_name i \<and> rbac i' = rbac i
     \<and> map_of (instance_metadata i') = map_of (instance_metadata i)
     \<and> map_of (device_usage i') = map_of (device_usage i)"

definition created_or_joined :: "DevicePluginService \<Rightarrow> inst_store \<Rightarrow> inst_store \<Rightarrow> bool" where
  "created_or_joined dps st st' \<longleftrightarrow>
     (let k = (dps_instance_name dps, dps_config_namespace dps)
      in (\<forall>k'. k' \<noteq> k \<longrightarrow> st' k' = st k')
       \<and> (case st k of
            None \<Rightarrow> st' k = None \<or> (\<exists>x'. st' k = Some x' \<and> spec x' = new_instance dps)
          | Some x \<Rightarrow> \<exists>x'. st' k = Some x' \<and> joined (dps_node_name dps) (spec x) (spec x')))"

definition serves :: "DevicePluginService \<Rightarrow> inst_store \<Rightarrow> bool" where
  "serves dps st \<longleftrightarrow> (\<exists>x. st (dps_instance_name dps, dps_config_namespace dps) = Some x
     \<and> dps_node_name dps \<in> set (nodes (spec x)))"

lemma joined_refl: "joined node i i"
  by (simp add: joined_def)

lemma created_or_joined_refl: "created_or_joined dps st st"
  by (auto simp: created_or_joined_def Let_def joined_refl split: option.split)

lemma created_or_joined_create:
  assumes "created_or_joined dps st cur"
    and "write_effect (created (new_instance dps) (dps_instance_name dps) (dps_config_namespace dps)) cur r cur'"
  shows "created_or_joined dps st cur' \<and> (is_ok r \<longrightarrow> serves dps cur')"
  using assms
  by (auto simp: created_or_joined_def Let_def write_effect_def created_def serves_def new_instance_def
      split: option.splits)

lemma created_or_joined_update:
  assumes inv: "created_or_joined dps st cur"
    and x: "cur (dps_instance_name dps, dps_config_namespace dps) = Some x"
    and new: "dps_node_name dps \<notin> set (nodes (spec x))"
    and eff: "write_effect (patched ((spec x)\<lparr>nodes := nodes (spec x) @ [dps_node_name dps]\<rparr>)
       (dps_instance_name dps) (dps_config_namespace dps)) cur r cur'"
  shows "created_or_joined dps st cur' \<and> (is_ok r \<longrightarrow> serves dps cur')"
proof (cases "cur' = cur \<and> \<not> is_ok r")
  case False
  with eff x obtain x' where cur': "cur' = cur((dps_instance_name dps, dps_config_namespace dps) \<mapsto> x')"
    and sp: "spec x' = merge_instance (spec x) ((spec x)\<lparr>nodes := nodes (spec x) @ [dps_node_name dps]\<rparr>)"
    by (auto simp: write_effect_def patched_def)
  have own: "map_of (device_usage (spec x')) = map_of (device_usage (spec x))"
    by (rule ext) (auto simp: sp split: option.split)
  have "spec x \<noteq> new_instance dps" using new by (auto simp: new_instance_def)
  with inv x obtain x0 where x0: "st (dps_instance_name dps, dps_config_namespace dps) = Some x0"
      "joined (dps_node_name dps) (spec x0) (spec x)"
    by (cases "st (dps_instance_name dps, dps_config_namespace dps)") (simp_all add: created_or_joined_def Let_def)
  from x0(2) new have "nodes (spec x) = nodes (spec x0)" by (auto simp: joined_def)
  with own new x0(2) have "joined (dps_node_name dps) (spec x0) (spec x')" by (simp add: joined_def sp)
  with inv x0 show ?thesis by (simp add: created_or_joined_def Let_def cur' serves_def sp)
qed (use inv in simp)

context dps_store
begin

lemma wp_try_create_loop:
  assumes "xs \<noteq> []" "last xs = MAX_INSTANCE_UPDATE_TRIES - 1" "created_or_joined dps st (insts w)"
  shows "wp (try_create_loop rt dps ki xs) (\<lambda>r w'.
    created_or_joined dps st (insts w') \<and> (is_ok r \<longrightarrow> serves dps (insts w'))) w"
  using assms
proof (induction xs arbitrary: w)
  case (Cons t xs)
  let ?Q = "\<lambda>r w'. created_or_joined dps st (insts w') \<and> (is_ok r \<longrightarrow> serves dps (insts w'))"
  have retry: "wp (break_or_retry rt t (try_create_loop rt dps ki xs) r) ?Q w1"
    if "created_or_joined dps st (insts w1) \<and> (is_ok r \<longrightarrow> serves dps (insts w1))" for w1 r
    using Cons.prems(1,2) that
    by (auto simp: break_or_retry_def split: result.split if_splits intro!: wp_mono [OF delay_law] Cons.IH)
  show ?case
    unfolding try_create_loop.simps wp_bind
  proof (rule wp_find_instance, goal_cases)
    case (1 found w1)
    then have inv: "created_or_joined dps st (insts w1)" using Cons.prems by simp
    show ?case
    proof (cases found)
      case (Ok x)
      with 1 have x: "insts w1 (dps_instance_name dps, dps_config_namespace dps) = Some x" by simp
      then have nm: "m_name (metadata x) = dps_instance_name dps" using insts_named by (simp add: stored_as_def)
      show ?thesis
      proof (cases "dps_node_name dps \<in> set (nodes (spec x))")
        case True
        then show ?thesis using inv x by (simp add: Ok serves_def)
      next
        case False
        with created_or_joined_update [OF inv x False] retry show ?thesis
          by (auto simp: Ok nm intro!: wp_update_instance)
      qed
    next
      case (Err e)
      with created_or_joined_create [OF inv] retry show ?thesis
        by (auto simp: Err intro!: wp_create_instance)
    qed (use inv in simp)
  qed
qed simp

lemma wp_try_create:
  "wp (try_create_instance rt dps ki) (\<lambda>r w'. created_or_joined dps (insts w) (insts w')
     \<and> (is_ok r \<longrightarrow> serves dps (insts w') \<and> map_of (imap w') (dps_instance_name dps) =
          Some \<lparr>list_and_watch_message_sender = dps_message_sender dps, connectivity_status = Online\<rparr>)) w"
proof -
  have last: "tries \<noteq> []" "last tries = MAX_INSTANCE_UPDATE_TRIES - 1"
    by (simp_all add: tries_eq, simp add: MAX_INSTANCE_UPDATE_TRIES_def)
  have loop: "wp (try_create_loop rt dps ki tries) (\<lambda>r w'.
      created_or_joined dps (insts w) (insts w') \<and> (is_ok r \<longrightarrow> serves dps (insts w'))) w1"
    if "insts w1 = insts w" for w1
    using wp_try_create_loop [OF last, of dps "insts w" w1] that by (simp add: created_or_joined_refl)
  show ?thesis
    unfolding try_create_instance_def wp_try_then
    by (rule wp_mono [OF find_configuration_law])
       (auto simp: created_or_joined_refl hashmap_simps split: result.split
         intro!: wp_mono [OF loop] wp_mono [OF lock_law] wp_mono [OF store_law])
qed

end

context dps_store
begin

lemma wp_terminate:
  "wp (terminate_device_plugin_service rt nm) (\<lambda>r w'. insts w' = insts w \<and> (\<forall>e. r \<noteq> Err e)
    \<and> (if is_ok r then nm \<in> set (hm_keys (imap w)) \<and> imap w' = hm_remove nm (imap w) else imap w' = imap w)) w"
proof -
  have send: "wp (broadcast_send rt s k) (\<lambda>_ w2. imap w2 = imap w \<and> insts w2 = insts w) w1"
    if "imap w1 = imap w" "insts w1 = insts w" for s k w1
    using broadcast_law [of s k w1] that by simp
  have store: "wp (store_map rt m) (\<lambda>_ w2. imap w2 = m \<and> insts w2 = insts w) w1"
    if "insts w1 = insts w" for m w1
    using store_law [of m w1] that by simp
  show ?thesis
    unfolding terminate_device_plugin_service_def wp_bind
    by (rule wp_mono [OF lock_law])
       (auto simp: unwrapped_def set_hm_keys split: result.split elim!: unwrap_ok.elims
          intro!: wp_mono [OF send] wp_mono [OF store])
qed

end

section \<open>Reported devices\<close>

definition device_health :: "string \<Rightarrow> string \<Rightarrow> string" where
  "device_health node own = (if own \<noteq> '''' \<and> own \<noteq> node then UNHEALTHY else HEALTHY)"

lemma build_virtual_devices_eq:
  "build_virtual_devices du is_shared node =
     (if is_shared \<or> (\<forall>own \<in> snd ` set du. own = '''' \<or> own = node)
      then Ok (map (\<lambda>(s, own). \<lparr>device_id = s, health = device_health node own\<rparr>) du)
      else Panic ''build_virtual_devices - unshared device reserved by a different node'')"
proof (induction du)
  case (Cons p du)
  obtain s own where p: "p = (s, own)" by (cases p)
  show ?case
    unfolding p build_virtual_devices.simps Let_def Cons.IH by (simp add: device_health_def)
qed simp

lemma slot_name_inj: "inj (slot_name nm)"
  by (auto simp: inj_def slot_name_def dest: show_nat_inj)

lemma distinct_slot_names: "distinct (map (slot_name nm) (range_to n))"
  using inj_on_subset [OF slot_name_inj] by (simp add: range_to_def distinct_map)

lemma new_instance_usage:
  "device_usage (new_instance dps) =
     map (\<lambda>x. (slot_name (dps_instance_name dps) x, '''')) (range_to (capacity (dps_config dps)))"
  using distinct_slot_names [of "dps_instance_name dps"]
  by (simp add: new_instance_def hm_collect_distinct comp_def)

section \<open>An executable runtime\<close>

text \<open>The cluster of \<open>Kube_Store\<close> together with the state of one Agent process.\<close>

record agent_cluster = cluster +
  ag_map :: InstanceMap
  ag_sent :: "(sender \<times> ListAndWatchMessageKind) list"
  ag_receivers :: "sender list"
  ag_inbox :: "received list"
  ag_reported :: "Device list list"
  ag_ended :: "sender list"

definition agent_rt :: "agent_cluster dps_rt" where
  "agent_rt = \<lparr>
     lock_map = State (\<lambda>w. (ag_map w, w)),
     store_map = (\<lambda>m. State (\<lambda>w. ((), w\<lparr>ag_map := m\<rparr>))),
     broadcast_send = (\<lambda>s k. State (\<lambda>w. if s \<in> set (ag_receivers w)
       then (Ok (), w\<lparr>ag_sent := ag_sent w @ [(s, k)]\<rparr>) else (Err (Msg ''channel closed''), w))),
     recv_message = (\<lambda>s t. State (\<lambda>w. case ag_inbox w of [] \<Rightarrow> (Elapsed, w)
       | r # rs \<Rightarrow> (r, w\<lparr>ag_inbox := rs\<rparr>))),
     server_ender_send = (\<lambda>s. State (\<lambda>w. (Ok (), w\<lparr>ag_ended := s # ag_ended w\<rparr>))),
     kubelet_update_send = (\<lambda>ds. State (\<lambda>w. (Ok (), w\<lparr>ag_reported := ag_reported w @ [ds]\<rparr>))),
     random_delay = return ()\<rparr>"

lemma cluster_insts_agent [simp]:
  "cluster_insts (ag_map_update f w) = cluster_insts w"
  "cluster_insts (ag_sent_update g w) = cluster_insts w"
  by (simp_all add: cluster_insts_def fun_eq_iff)

interpretation agent: reliable_dps_store cluster_kube cluster_insts agent_rt ag_map
  by unfold_locales (simp_all add: agent_rt_def wp_def)

definition sample_agent :: agent_cluster where
  "sample_agent = cluster.extend sample_cluster
     (agent_cluster.fields [] [] [7] [] [] [])"

definition sample_configuration :: Configuration where
  "sample_configuration = \<lparr>protocol = udev \<lparr>udev_rules = []\<rparr>, capacity = 2, units = ''pod'',
     broker_pod_spec = None, instance_service_spec = None, configuration_service_spec = None,
     properties = []\<rparr>"

definition sample_dps :: DevicePluginService where
  "sample_dps = \<lparr>dps_instance_name = ''cam'', dps_endpoint = ''cam-0.sock'', dps_config = sample_configuration,
     dps_config_name = ''cfg'', dps_config_uid = ''uid'', dps_config_namespace = ''ns'', dps_shared = True,
     dps_node_name = ''node-a'', dps_instance_properties = [(''DEV'', ''/dev/video0'')],
     dps_message_sender = 7, dps_server_ender_sender = 8\<rparr>"

lemma sample_agent_insts: "cluster_insts sample_agent = [(''cam'', ''ns'') \<mapsto> sample_object]"
  using sample_insts by (simp add: sample_agent_def cluster_insts_def cluster.extend_def fun_eq_iff)

section \<open>Properties\<close>

text \<open>
  C3: Claiming a slot is safe on every store that keeps the contract, whether or not its calls
  succeed, over all retries: only the requested slot of the requested Instance can change,
  it changes only if it was free or already this node's, so a slot is never taken from
  another node; and success means that the node holds the slot.
\<close>

theorem try_update_safe:
  assumes "dps_store ki insts rt imap"
    and "run_state (try_update_instance_device_usage rt id' node nm ns ki) w = (r, w')"
  shows "store_slot_step {id'} node (nm, ns) (insts w) (insts w')
    \<and> (is_ok r \<longrightarrow> owns node (nm, ns) (insts w') id')"
  by (rule wp_run [OF dps_store.wp_try_update [OF assms(1)] assms(2)])

theorem try_update_safe_witness:
  "\<exists>r w'. run_state (try_update_instance_device_usage agent_rt ''cam-0'' ''node-a'' ''cam'' ''ns'' cluster_kube)
      sample_agent = (r, w')
    \<and> store_slot_step {''cam-0''} ''node-a'' (''cam'', ''ns'') (cluster_insts sample_agent) (cluster_insts w')"
proof -
  let ?run = "run_state (try_update_instance_device_usage agent_rt ''cam-0'' ''node-a'' ''cam'' ''ns'' cluster_kube) sample_agent"
  obtain r w' where run: "?run = (r, w')" by (cases ?run)
  from try_update_safe [OF agent.dps_store_axioms run] run show ?thesis by blast
qed

text \<open>
  C4: When the cluster answers, the owner of the slot decides: a free slot is claimed; a slot
  the node held already is released and the request refused (the kubelet knows that the old
  claim is void); a slot of another node, or an unknown one, is refused and nothing changes.
\<close>

theorem try_update_decides:
  assumes "reliable_dps_store ki insts rt imap" and "insts w (nm, ns) = Some x"
    and "run_state (try_update_instance_device_usage rt id' node nm ns ki) w = (r, w')"
  shows "case slot_owner (spec x) id' of
       None \<Rightarrow> r = Err (Msg ''Could not find device usage slot'') \<and> insts w' = insts w
     | Some own \<Rightarrow>
         if own = '''' then r = Ok () \<and> owns node (nm, ns) (insts w') id'
         else if own = node then \<not> is_ok r \<and> owns '''' (nm, ns) (insts w') id'
         else r = Err (Msg ''Requested device already in use'') \<and> insts w' = insts w"
  by (rule wp_run [OF reliable_dps_store.wp_try_update_reliable [OF assms(1,2)] assms(3)])

theorem try_update_decides_witness:
  "\<exists>r w'. run_state (try_update_instance_device_usage agent_rt ''cam-0'' ''node-b'' ''cam'' ''ns'' cluster_kube)
      sample_agent = (r, w') \<and> r = Ok () \<and> owns ''node-b'' (''cam'', ''ns'') (cluster_insts w') ''cam-0''"
proof -
  let ?run = "run_state (try_update_instance_device_usage agent_rt ''cam-0'' ''node-b'' ''cam'' ''ns'' cluster_kube) sample_agent"
  obtain r w' where run: "?run = (r, w')" by (cases ?run)
  have x: "cluster_insts sample_agent (''cam'', ''ns'') = Some sample_object" by (simp add: sample_agent_insts)
  from try_update_decides [OF agent.reliable_dps_store_axioms x run] run show ?thesis
    by (auto simp: sample_instance_def)
qed

text \<open>
  C9: A successful allocation: every requested slot of every container is held by the node
  afterwards, no other slot has changed, and there is one response per container in order. Each
  carries the Instance's properties as environment; for a udev device their values as paths
  mounted read-only onto themselves, one mount per property, and no mounts otherwise; no
  devices; and as its only annotation the last slot that the container requested, if any.
\<close>

theorem internal_allocate_spec:
  assumes "dps_store ki insts rt imap"
    and "run_state (internal_allocate rt self ki reqs) w = (Ok resps, w')"
  shows "list_all2 (container_given self) reqs resps
    \<and> (\<forall>req \<in> set reqs. \<forall>s \<in> set (devices_i_ds req).
         owns (dps_node_name self) (dps_instance_name self, dps_config_namespace self) (insts w') s)
    \<and> store_slot_step (\<Union>req \<in> set reqs. set (devices_i_ds req)) (dps_node_name self)
         (dps_instance_name self, dps_config_namespace self) (insts w) (insts w')"
  using wp_run [OF dps_store.wp_internal_allocate [where D = "{}", OF assms(1)] assms(2)] by simp

theorem internal_allocate_spec_witness:
  "\<exists>resps w'. run_state (internal_allocate agent_rt sample_dps cluster_kube [\<lparr>devices_i_ds = [''cam-0'']\<rparr>])
      sample_agent = (Ok resps, w')
    \<and> list_all2 (container_given sample_dps) [\<lparr>devices_i_ds = [''cam-0'']\<rparr>] resps
    \<and> owns ''node-a'' (''cam'', ''ns'') (cluster_insts w') ''cam-0''"
proof -
  let ?run = "run_state (internal_allocate agent_rt sample_dps cluster_kube [\<lparr>devices_i_ds = [''cam-0'']\<rparr>]) sample_agent"
  have "is_ok (fst ?run)" by code_simp
  then obtain resps w' where run: "?run = (Ok resps, w')" by (cases ?run) (auto simp: is_ok_iff)
  from internal_allocate_spec [OF agent.dps_store_axioms run] run show ?thesis
    by (auto simp: sample_dps_def)
qed

text \<open>
  A cluster on which another computation runs after each reading of an Instance, before the
  answer is used.
\<close>

definition overtaken :: "'w kube_interface \<Rightarrow> ('w, 'a) state \<Rightarrow> 'w kube_interface" where
  "overtaken ki other = ki\<lparr>find_instance := (\<lambda>nm ns. do {
     r \<leftarrow> find_instance ki nm ns;
     _ \<leftarrow> other;
     return r })\<rparr>"

lemma overtaken_sel [simp]:
  "find_instance (overtaken ki other) nm ns = do { r \<leftarrow> find_instance ki nm ns; _ \<leftarrow> other; return r }"
  "update_instance (overtaken ki other) = update_instance ki"
  by (simp_all add: overtaken_def)

context reliable_dps_store
begin

text \<open>A claim goes through with what it has read, whatever has become of the slot since.\<close>

lemma wp_overtaken_claim:
  assumes x: "insts w (nm, ns) = Some x" "slot_owner (spec x) s = Some ''''"
    and other: "\<And>w1. insts w1 = insts w \<Longrightarrow> wp other (\<lambda>_ w2. insts w2 (nm, ns) \<noteq> None) w1"
  shows "wp (try_update_instance_device_usage rt s b nm ns (overtaken ki other))
     (\<lambda>r w'. r = Ok () \<and> owns b (nm, ns) (insts w') s) w"
proof -
  let ?new = "(spec x)\<lparr>device_usage := hm_insert s b (device_usage (spec x))\<rparr>"
  have upd: "wp (update_instance ki ?new nm ns) (\<lambda>r w'. r = Ok () \<and> owns b (nm, ns) (insts w') s) w2"
    if "insts w2 (nm, ns) \<noteq> None" for w2
  proof -
    from that obtain y where y: "insts w2 (nm, ns) = Some y" by blast
    show ?thesis
      by (rule wp_update_instance_ok [OF y]) (auto simp: patched_def owns_def hashmap_simps)
  qed
  have slot: "get_slot_value s b (spec x) = Ok b" using x(2) by (simp add: get_slot_value_def)
  show ?thesis
    unfolding try_update_instance_device_usage_def tries_eq try_update_loop.simps overtaken_sel wp_bind wp_return
    by (rule wp_find_instance_ok [OF x(1)])
       (auto simp: slot Let_def after_update_def intro!: wp_mono [OF other] wp_mono [OF upd])
qed

end

text \<open>
  C21: Two nodes can be told that they hold the same slot. On every cluster that keeps the
  contract (which \<open>KubeImpl\<close> gives, since it reads the resource version again before it patches)
  and for every Instance with a free slot: when the claim of one node runs between the reading
  and the writing of another node's claim, both report success; the first node held the slot,
  and in the end the second one does.
\<close>

theorem slot_claimed_twice:
  assumes "reliable_dps_store ki insts rt imap"
    and x: "insts w (nm, ns) = Some x" "slot_owner (spec x) s = Some ''''"
    and read: "run_state (find_instance ki nm ns) w = (seen, w1)"
    and claim_a: "run_state (try_update_instance_device_usage rt s a nm ns ki) w1 = (ra, w2)"
    and claim_b: "run_state (try_update_instance_device_usage rt s b nm ns
      (overtaken ki (try_update_instance_device_usage rt s a nm ns ki))) w = (rb, w3)"
  shows "ra = Ok () \<and> owns a (nm, ns) (insts w2) s \<and> rb = Ok () \<and> owns b (nm, ns) (insts w3) s"
proof -
  have a: "wp (try_update_instance_device_usage rt s a nm ns ki) (\<lambda>r w'. r = Ok () \<and> owns a (nm, ns) (insts w') s) w'"
    if "insts w' = insts w" for w'
    using reliable_dps_store.wp_try_update_reliable [OF assms(1), of w' nm ns x s a] that x by simp
  have "insts w1 = insts w"
    by (rule wp_run [OF kube_store.find_instance_law read, THEN conjunct1])
       (use assms(1) in \<open>simp add: reliable_dps_store_def dps_store_def\<close>)
  from wp_run [OF a [OF this] claim_a] have "ra = Ok () \<and> owns a (nm, ns) (insts w2) s" .
  moreover have "rb = Ok () \<and> owns b (nm, ns) (insts w3) s"
    by (rule wp_run [OF reliable_dps_store.wp_overtaken_claim [OF assms(1) x] claim_b])
       (auto intro!: wp_mono [OF a] simp: owns_def)
  ultimately show ?thesis by blast
qed

theorem slot_claimed_twice_witness:
  "\<exists>w1 w2 w3. run_state (try_update_instance_device_usage agent_rt ''cam-0'' ''node-a'' ''cam'' ''ns'' cluster_kube) w1 = (Ok (), w2)
     \<and> run_state (try_update_instance_device_usage agent_rt ''cam-0'' ''node-b'' ''cam'' ''ns''
         (overtaken cluster_kube (try_update_instance_device_usage agent_rt ''cam-0'' ''node-a'' ''cam'' ''ns'' cluster_kube))) sample_agent
       = (Ok (), w3)
     \<and> owns ''node-b'' (''cam'', ''ns'') (cluster_insts w3) ''cam-0''"
proof -
  let ?claim = "\<lambda>node ki. try_update_instance_device_usage agent_rt ''cam-0'' node ''cam'' ''ns'' ki"
  obtain seen w1 where read: "run_state (find_instance cluster_kube ''cam'' ''ns'') sample_agent = (seen, w1)"
    by (cases "run_state (find_instance cluster_kube ''cam'' ''ns'') sample_agent")
  obtain ra w2 where a: "run_state (?claim ''node-a'' cluster_kube) w1 = (ra, w2)"
    by (cases "run_state (?claim ''node-a'' cluster_kube) w1")
  obtain rb w3 where b: "run_state (?claim ''node-b'' (overtaken cluster_kube (?claim ''node-a'' cluster_kube))) sample_agent = (rb, w3)"
    by (cases "run_state (?claim ''node-b'' (overtaken cluster_kube (?claim ''node-a'' cluster_kube))) sample_agent")
  have x: "cluster_insts sample_agent (''cam'', ''ns'') = Some sample_object"
    "slot_owner (spec sample_object) ''cam-0'' = Some ''''" by (simp_all add: sample_agent_insts sample_instance_def)
  from slot_claimed_twice [OF agent.reliable_dps_store_axioms x read a b] a b show ?thesis
    by (intro exI [of _ w1] exI [of _ w2] exI [of _ w3]) simp
qed

text \<open>
  C10: After \<open>try_create_instance\<close> reports success the Instance exists, this node is among its
  nodes, and the plugin is on the instance map as online. In every case an Instance that
  existed keeps its slots (with their owners), its sharing and its Configuration, and gains
  at most this node, once; one that did not is created exactly as \<open>new_instance\<close> says.
\<close>

theorem try_create_instance_spec:
  assumes "dps_store ki insts rt imap"
    and "run_state (try_create_instance rt dps ki) w = (r, w')"
  shows "created_or_joined dps (insts w) (insts w')
    \<and> (is_ok r \<longrightarrow> serves dps (insts w') \<and> map_of (imap w') (dps_instance_name dps) =
         Some \<lparr>list_and_watch_message_sender = dps_message_sender dps, connectivity_status = Online\<rparr>)"
  by (rule wp_run [OF dps_store.wp_try_create [OF assms(1)] assms(2)])

text \<open>A second node joins the Instance.\<close>

definition joining_agent :: agent_cluster where
  "joining_agent = sample_agent\<lparr>cl_configurations := [((''cfg'', ''ns''), \<lparr>o_types = \<lparr>t_apiVersion = None, t_kind = None\<rparr>,
     metadata = ObjectMeta_default, spec = sample_configuration, status = None\<rparr>)]\<rparr>"

theorem try_create_instance_spec_witness:
  "\<exists>w'. run_state (try_create_instance agent_rt (sample_dps\<lparr>dps_node_name := ''node-b''\<rparr>) cluster_kube) joining_agent = (Ok (), w')
    \<and> created_or_joined (sample_dps\<lparr>dps_node_name := ''node-b''\<rparr>) (cluster_insts joining_agent) (cluster_insts w')
    \<and> serves (sample_dps\<lparr>dps_node_name := ''node-b''\<rparr>) (cluster_insts w')
    \<and> map_of (ag_map w') ''cam'' = Some \<lparr>list_and_watch_message_sender = 7, connectivity_status = Online\<rparr>"
proof -
  let ?dps = "sample_dps\<lparr>dps_node_name := ''node-b''\<rparr>"
  let ?run = "run_state (try_create_instance agent_rt ?dps cluster_kube) joining_agent"
  have "fst ?run = Ok ()" by code_simp
  then obtain w' where run: "?run = (Ok (), w')" by (cases ?run) auto
  from try_create_instance_spec [OF agent.dps_store_axioms run] run show ?thesis by (simp add: sample_dps_def)
qed

text \<open>
  C17: A new Instance has exactly as many slots as its Configuration's capacity, under distinct
  names, all free; and they are exactly the devices, in order, that are reported unhealthy
  when the Instance is gone, so the kubelet is told about every slot it knows.
\<close>

theorem new_instance_slots:
  "hm_wf (device_usage (new_instance dps))
   \<and> length (device_usage (new_instance dps)) = nat (capacity (dps_config dps))
   \<and> (\<forall>(s, own) \<in> set (device_usage (new_instance dps)). own = '''')
   \<and> map device_id (build_unhealthy_virtual_devices (capacity (dps_config dps)) (dps_instance_name dps))
       = hm_keys (device_usage (new_instance dps))
   \<and> (\<forall>d \<in> set (build_unhealthy_virtual_devices (capacity (dps_config dps)) (dps_instance_name dps)).
        health d = UNHEALTHY)"
  using distinct_slot_names [of "dps_instance_name dps" "capacity (dps_config dps)"]
  by (auto simp: new_instance_usage hm_wf_def hm_keys_def build_unhealthy_virtual_devices_def comp_def)
     (simp add: range_to_def)

theorem new_instance_slots_witness:
  "length (device_usage (new_instance sample_dps)) = 2"
  using new_instance_slots [of sample_dps] by (simp add: sample_dps_def sample_configuration_def)

text \<open>
  C18: The devices reported for an online Instance: one per slot, healthy exactly when the slot
  is free or this node's own. The only failure is an unshared Instance with a slot held by
  another node, which panics.
\<close>

theorem build_virtual_devices_spec:
  "(is_panic (build_virtual_devices du is_shared node) \<longleftrightarrow>
      \<not> is_shared \<and> (\<exists>(s, own) \<in> set du. own \<noteq> '''' \<and> own \<noteq> node))
   \<and> (\<forall>devices. build_virtual_devices du is_shared node = Ok devices \<longrightarrow>
        map device_id devices = hm_keys du
      \<and> list_all2 (\<lambda>d (s, own). health d = HEALTHY \<longleftrightarrow> own = '''' \<or> own = node) devices du
      \<and> list_all2 (\<lambda>d (s, own). health d = UNHEALTHY \<longleftrightarrow> own \<noteq> '''' \<and> own \<noteq> node) devices du)"
  unfolding build_virtual_devices_eq
  by (auto simp: hm_keys_def device_health_def list_all2_map1 intro!: list.rel_refl_strong split: if_splits)

theorem build_virtual_devices_spec_witness:
  "\<exists>ds. build_virtual_devices [(''cam-0'', ''''), (''cam-1'', ''node-b'')] True ''node-a'' = Ok ds
    \<and> map device_id ds = [''cam-0'', ''cam-1'']"
proof -
  obtain ds where "build_virtual_devices [(''cam-0'', ''''), (''cam-1'', ''node-b'')] True ''node-a'' = Ok ds"
    by (simp add: Let_def)
  with build_virtual_devices_spec [of "[(''cam-0'', ''''), (''cam-1'', ''node-b'')]" True "''node-a''"]
  show ?thesis by auto
qed

text \<open>
  What a kubelet can be told about an Instance: every slot that its Configuration's capacity
  allows for is unhealthy, or the slots of the stored Instance, healthy when free or this
  node's.
\<close>

definition reports_unhealthy :: "DevicePluginService \<Rightarrow> Device list \<Rightarrow> bool" where
  "reports_unhealthy dps ds \<longleftrightarrow>
     map device_id ds = map (\<lambda>i. dps_instance_name dps @ ''-'' @ show_nat i) [0..<nat (capacity (dps_config dps))]
   \<and> (\<forall>d \<in> set ds. health d = ''Unhealthy'')"

definition reports_slots :: "string \<Rightarrow> Instance \<Rightarrow> Device list \<Rightarrow> bool" where
  "reports_slots node i ds \<longleftrightarrow> list_all2 (\<lambda>(s, own) d. device_id d = s
     \<and> health d = (if own = '''' \<or> own = node then ''Healthy'' else ''Unhealthy'')) (device_usage i) ds"

definition online :: "InstanceMap \<Rightarrow> string \<Rightarrow> bool" where
  "online m nm \<longleftrightarrow> (\<exists>info. map_of m nm = Some info \<and> connectivity_status info = Online)"

lemma unhealthy_reported:
  "reports_unhealthy dps (build_unhealthy_virtual_devices (capacity (dps_config dps)) (dps_instance_name dps))"
  by (auto simp: reports_unhealthy_def build_unhealthy_virtual_devices_def range_to_def slot_name_def UNHEALTHY_def)

lemma slots_reported: "build_virtual_devices (device_usage i) sh node = Ok ds \<Longrightarrow> reports_slots node i ds"
  by (auto simp: build_virtual_devices_eq reports_slots_def device_health_def HEALTHY_def UNHEALTHY_def list_all2_map2
      intro!: list.rel_refl_strong split: if_splits)

context dps_store
begin

lemma wp_report:
  "wp (build_list_and_watch_response rt dps ki) (\<lambda>r _. (\<forall>e. r \<noteq> Err e) \<and> (\<forall>ds. r = Ok ds \<longrightarrow> reports_unhealthy dps ds
     \<or> online (imap w) (dps_instance_name dps) \<and> (\<exists>x. insts w (dps_instance_name dps, dps_config_namespace dps) = Some x
         \<and> reports_slots (dps_node_name dps) (spec x) ds))) w"
proof -
  have lock: "wp (lock_map rt) (\<lambda>m w'. m = imap w \<and> imap w' = imap w \<and> insts w' = insts w) w'"
    if "imap w' = imap w" "insts w' = insts w" for w' using lock_law [of w'] that by simp
  have no_err: "build_virtual_devices du sh node \<noteq> Err e" for du sh node e
    by (simp add: build_virtual_devices_eq)
  show ?thesis
    unfolding build_list_and_watch_response_def Let_def wp_bind
    by (rule wp_mono [OF lock])
       (auto simp: unhealthy_reported hm_contains_def no_err online_def split: option.splits result.splits
         dest: slots_reported intro!: wp_mono [OF lock] wp_find_instance)
qed

end

context reliable_dps_store
begin

lemma wp_report_online:
  assumes "online (imap w) (dps_instance_name dps)" "insts w (dps_instance_name dps, dps_config_namespace dps) = Some x"
  shows "wp (build_list_and_watch_response rt dps ki) (\<lambda>r _. (\<forall>ds. r = Ok ds \<longrightarrow> reports_slots (dps_node_name dps) (spec x) ds)
     \<and> (is_panic r \<longleftrightarrow> \<not> shared (spec x) \<and> (\<exists>(s, own) \<in> set (device_usage (spec x)). own \<noteq> '''' \<and> own \<noteq> dps_node_name dps))) w"
proof -
  from assms(1) obtain info where info: "map_of (imap w) (dps_instance_name dps) = Some info" "connectivity_status info = Online"
    by (auto simp: online_def)
  have lock: "wp (lock_map rt) (\<lambda>m w'. m = imap w \<and> imap w' = imap w \<and> insts w' = insts w) w'"
    if "imap w' = imap w" "insts w' = insts w" for w' using lock_law [of w'] that by simp
  define devices where "devices = build_virtual_devices (device_usage (spec x)) (shared (spec x)) (dps_node_name dps)"
  have devices: "(\<forall>ds. devices = Ok ds \<longrightarrow> reports_slots (dps_node_name dps) (spec x) ds)
      \<and> (is_panic devices \<longleftrightarrow> \<not> shared (spec x) \<and> (\<exists>(s, own) \<in> set (device_usage (spec x)). own \<noteq> '''' \<and> own \<noteq> dps_node_name dps))"
    using slots_reported by (auto simp: devices_def build_virtual_devices_eq split: if_splits)
  have found: "wp (find_instance ki (dps_instance_name dps) (dps_config_namespace dps)) (\<lambda>r _. r = Ok x) w'"
    if "insts w' = insts w" for w'
    by (rule wp_find_instance_ok) (use that assms(2) in auto)
  have "wp (build_list_and_watch_response rt dps ki) (\<lambda>r _. r = devices) w"
    unfolding build_list_and_watch_response_def Let_def wp_bind
    by (rule wp_mono [OF lock])
       (auto simp: info hm_contains_def devices_def intro!: wp_mono [OF lock] wp_mono [OF found])
  then show ?thesis by (rule wp_mono) (use devices in blast)
qed

end

text \<open>
  C19: What the kubelet is told. Whatever the cluster's calls return, the report is never an
  error: it is either every slot of the capacity as unhealthy, or, only while the Instance is
  online on the map, the slots of the stored Instance, each healthy exactly when it is free or
  this node's. When the cluster answers and the Instance is online and stored, it is the
  second; then the task panics exactly if the Instance is not shared and another node holds a
  slot.
\<close>

theorem list_and_watch_report:
  assumes "dps_store ki insts rt imap"
    and "run_state (build_list_and_watch_response rt dps ki) w = (r, w')"
    and "k = (dps_instance_name dps, dps_config_namespace dps)"
  shows "(\<forall>e. r \<noteq> Err e)
    \<and> (\<forall>ds. r = Ok ds \<longrightarrow> reports_unhealthy dps ds \<or> online (imap w) (dps_instance_name dps)
         \<and> (\<exists>x. insts w k = Some x \<and> reports_slots (dps_node_name dps) (spec x) ds))
    \<and> (\<forall>x. reliable_store ki insts \<longrightarrow> online (imap w) (dps_instance_name dps) \<longrightarrow> insts w k = Some x \<longrightarrow>
         (\<forall>ds. r = Ok ds \<longrightarrow> reports_slots (dps_node_name dps) (spec x) ds)
       \<and> (is_panic r \<longleftrightarrow> \<not> shared (spec x) \<and> (\<exists>(s, own) \<in> set (device_usage (spec x)). own \<noteq> '''' \<and> own \<noteq> dps_node_name dps)))"
proof (intro conjI allI impI)
  note report = wp_run [OF dps_store.wp_report [OF assms(1)] assms(2)]
  show "r \<noteq> Err e" for e using report by blast
  show "reports_unhealthy dps ds \<or> online (imap w) (dps_instance_name dps)
         \<and> (\<exists>x. insts w k = Some x \<and> reports_slots (dps_node_name dps) (spec x) ds)" if "r = Ok ds" for ds
    using report that unfolding assms(3) by blast
next
  fix x assume "reliable_store ki insts" "online (imap w) (dps_instance_name dps)" "insts w k = Some x"
  moreover from this(1) assms(1) have "reliable_dps_store ki insts rt imap" by (simp add: reliable_dps_store_def)
  ultimately have r: "(\<forall>ds. r = Ok ds \<longrightarrow> reports_slots (dps_node_name dps) (spec x) ds)
     \<and> (is_panic r \<longleftrightarrow> \<not> shared (spec x) \<and> (\<exists>(s, own) \<in> set (device_usage (spec x)). own \<noteq> '''' \<and> own \<noteq> dps_node_name dps))"
    using wp_run [OF reliable_dps_store.wp_report_online assms(2)] unfolding assms(3) by blast
  then show "reports_slots (dps_node_name dps) (spec x) ds" if "r = Ok ds" for ds using that by blast
  from r show "is_panic r \<longleftrightarrow> \<not> shared (spec x) \<and> (\<exists>(s, own) \<in> set (device_usage (spec x)). own \<noteq> '''' \<and> own \<noteq> dps_node_name dps)"
    by blast
qed

theorem list_and_watch_report_witness:
  "\<exists>w'. run_state (build_list_and_watch_response agent_rt sample_dps cluster_kube)
       (sample_agent\<lparr>ag_map := [(''cam'', \<lparr>list_and_watch_message_sender = 7, connectivity_status = Online\<rparr>)]\<rparr>)
     = (Ok [\<lparr>device_id = ''cam-0'', health = ''Healthy''\<rparr>, \<lparr>device_id = ''cam-1'', health = ''Healthy''\<rparr>], w')
   \<and> reports_slots ''node-a'' sample_instance
       [\<lparr>device_id = ''cam-0'', health = ''Healthy''\<rparr>, \<lparr>device_id = ''cam-1'', health = ''Healthy''\<rparr>]"
proof -
  let ?w = "sample_agent\<lparr>ag_map := [(''cam'', \<lparr>list_and_watch_message_sender = 7, connectivity_status = Online\<rparr>)]\<rparr>"
  let ?ds = "[\<lparr>device_id = ''cam-0'', health = ''Healthy''\<rparr>, \<lparr>device_id = ''cam-1'', health = ''Healthy''\<rparr>]"
  let ?run = "run_state (build_list_and_watch_response agent_rt sample_dps cluster_kube) ?w"
  have "fst ?run = Ok ?ds" by code_simp
  then obtain w' where run: "?run = (Ok ?ds, w')" by (cases ?run) auto
  have k: "(''cam'', ''ns'') = (dps_instance_name sample_dps, dps_config_namespace sample_dps)" by (simp add: sample_dps_def)
  have "online (ag_map ?w) (dps_instance_name sample_dps)" by (simp add: online_def sample_dps_def)
  moreover have "cluster_insts ?w (''cam'', ''ns'') = Some sample_object" by (simp add: sample_agent_insts)
  ultimately have "reports_slots (dps_node_name sample_dps) (spec sample_object) ?ds"
    using list_and_watch_report [OF agent.dps_store_axioms run k] cluster_rel.reliable_store_axioms by blast
  with run show ?thesis by (simp add: sample_dps_def)
qed

text \<open>
  The instance map is locked twice, once to see whether the Instance is on it and once to read
  its entry; an entry that disappears in between makes the task panic.
\<close>

lemma vanishing_entry_panics:
  assumes "run_state (lock_map rt) w = (m1, w1)" "hm_contains m1 (dps_instance_name dps)"
    and "run_state (lock_map rt) w1 = (m2, w2)" "map_of m2 (dps_instance_name dps) = None"
  shows "fst (run_state (build_list_and_watch_response rt dps ki) w) = Panic ''called Option::unwrap() on a None value''"
  using assms by (simp add: build_list_and_watch_response_def Let_def try_then_def)

text \<open>
  Ending a device plugin tells its \<open>list_and_watch\<close> to end and takes the Instance off the
  map, and changes no Instance of the cluster. It panics, with the map as it was, when the
  Instance is not on the map or when nobody listens to the channel.
\<close>

theorem terminate_spec:
  assumes "dps_store ki insts rt imap"
    and "run_state (terminate_device_plugin_service rt nm) w = (r, w')"
  shows "insts w' = insts w \<and> (\<forall>e. r \<noteq> Err e)
    \<and> (if is_ok r then nm \<in> set (hm_keys (imap w)) \<and> imap w' = hm_remove nm (imap w) else imap w' = imap w)"
  by (rule wp_run [OF dps_store.wp_terminate [OF assms(1)] assms(2)])

theorem terminate_spec_witness:
  "\<exists>r w'. run_state (terminate_device_plugin_service agent_rt ''cam'') sample_agent = (r, w')
    \<and> ag_map w' = [] \<and> (\<forall>e. r \<noteq> Err e)"
proof -
  let ?run = "run_state (terminate_device_plugin_service agent_rt ''cam'') sample_agent"
  obtain r w' where run: "?run = (r, w')" by (cases ?run)
  have "ag_map sample_agent = []"
    by (simp add: sample_agent_def cluster.extend_def agent_cluster.fields_def)
  with terminate_spec [OF agent.dps_store_axioms run] run show ?thesis by (auto split: if_splits)
qed

text \<open>
  The channel that stops the gRPC server: a send that succeeds is remembered, and receiving
  or reporting does not undo it.
\<close>

locale shutdown_channel =
  fixes rt :: "'w dps_rt" and ended :: "'w \<Rightarrow> bool"
  assumes ender_law: "wp (server_ender_send rt s) (\<lambda>r w'. is_ok r \<longrightarrow> ended w') w"
    and recv_keeps: "ended w \<Longrightarrow> wp (recv_message rt s t) (\<lambda>_. ended) w"
begin

lemma wp_ender: "wp (unwrapped (server_ender_send rt s)) (\<lambda>r w'. is_ok r \<longrightarrow> ended w') w"
  by (auto simp: unwrapped_def intro!: wp_mono [OF ender_law])

lemma wp_send: "wp (send_devices rt dps ds) (\<lambda>r w'. r = Ok False \<longrightarrow> ended w') w"
  unfolding send_devices_def wp_bind
proof (rule wp_any)
  fix sent :: "(unit, error) result" and w1
  have "wp (do { m \<leftarrow> lock_map rt; _ \<leftarrow> store_map rt (hm_remove (dps_instance_name dps) m);
      try_then (unwrapped (server_ender_send rt (dps_server_ender_sender dps))) (\<lambda>_. return (Ok False)) })
      (\<lambda>r w'. r = Ok False \<longrightarrow> ended w') w1"
    unfolding wp_bind wp_try_then
    by (rule wp_any, rule wp_any, rule wp_mono [OF wp_ender]) (auto split: result.split)
  then show "wp (case sent of Err e \<Rightarrow> do { m \<leftarrow> lock_map rt; _ \<leftarrow> store_map rt (hm_remove (dps_instance_name dps) m);
      try_then (unwrapped (server_ender_send rt (dps_server_ender_sender dps))) (\<lambda>_. return (Ok False)) }
      | Ok _ \<Rightarrow> return (Ok True) | Panic p \<Rightarrow> return (Panic p)) (\<lambda>r w'. r = Ok False \<longrightarrow> ended w') w1"
    by (cases sent) simp_all
qed

lemma wp_on_message:
  assumes "\<not> keep \<longrightarrow> ended w" "\<And>w. wp rest (\<lambda>r w'. r = Ok True \<longrightarrow> ended w') w"
  shows "wp (on_message rt dps keep rest msg) (\<lambda>r w'. r = Ok True \<longrightarrow> ended w') w"
proof (cases "msg = Received End")
  case True
  then show ?thesis
    unfolding on_message_def wp_try_then if_P [OF True]
    by (intro wp_any) (auto split: result.split intro!: wp_mono [OF wp_ender])
qed (use assms in \<open>auto simp: on_message_def\<close>)

lemma wp_loop: "wp (list_and_watch_loop rt dps ki n) (\<lambda>r w'. r = Ok True \<longrightarrow> ended w') w"
proof (induction n arbitrary: w)
  case (Suc n)
  have "wp (recv_message rt s t) (\<lambda>msg. wp (on_message rt dps keep (list_and_watch_loop rt dps ki n) msg)
      (\<lambda>r w'. r = Ok True \<longrightarrow> ended w')) w1" if "\<not> keep \<longrightarrow> ended w1" for keep w1 s t
  proof -
    have "wp (recv_message rt s t) (\<lambda>_ w2. \<not> keep \<longrightarrow> ended w2) w1"
      using that by (cases keep) (auto intro: recv_keeps)
    then show ?thesis by (rule wp_mono) (auto intro: wp_on_message Suc.IH)
  qed
  then have "wp (send_devices rt dps ds) (\<lambda>r w'. \<forall>keep. r = Ok keep \<longrightarrow> wp (recv_message rt s t)
      (\<lambda>msg. wp (on_message rt dps keep (list_and_watch_loop rt dps ki n) msg) (\<lambda>r w'. r = Ok True \<longrightarrow> ended w')) w') w1"
    for ds s t w1
    by (intro wp_mono [OF wp_send]) auto
  then show ?case
    unfolding list_and_watch_loop.simps wp_try_then wp_bind
    by (intro wp_any) (auto split: result.split)
qed simp

end

interpretation agent_ender: shutdown_channel agent_rt "\<lambda>w. ag_ended w \<noteq> []"
  by unfold_locales (auto simp: agent_rt_def wp_def split: list.split)

text \<open>
  C20: \<open>list_and_watch\<close> never stops on its own without telling the gRPC server to shut down:
  when the loop has ended, however many iterations it took and whatever was received, the
  message on the server's channel has been sent.
\<close>

theorem list_and_watch_shuts_down:
  assumes "shutdown_channel rt ended"
    and "run_state (list_and_watch_loop rt dps ki n) w = (Ok True, w')"
  shows "ended w'"
  using wp_run [OF shutdown_channel.wp_loop [OF assms(1)] assms(2)] by simp

definition ending_agent :: agent_cluster where
  "ending_agent = sample_agent\<lparr>ag_inbox := [Received End]\<rparr>"

theorem list_and_watch_shuts_down_witness:
  "\<exists>w'. run_state (list_and_watch_loop agent_rt sample_dps cluster_kube (Suc 0)) ending_agent = (Ok True, w')
     \<and> ag_ended w' \<noteq> []"
proof -
  let ?run = "run_state (list_and_watch_loop agent_rt sample_dps cluster_kube (Suc 0)) ending_agent"
  have "fst ?run = Ok True"
    by (simp add: build_list_and_watch_response_def Let_def try_then_def unwrapped_def agent_rt_def hm_contains_def
        send_devices_def on_message_def ending_agent_def sample_agent_def cluster.extend_def agent_cluster.fields_def)
  then obtain w' where run: "?run = (Ok True, w')" by (cases ?run) auto
  from list_and_watch_shuts_down [OF agent_ender.shutdown_channel_axioms run] run show ?thesis by auto
qed

text \<open>
  An Instance's name, made from its Configuration and the identity of the device, has no
  dots and no slashes, so the names of its Pods and Services contain it unchanged and its
  slots are numbered after it.
\<close>

theorem get_device_instance_name_normal:
  "CHR ''.'' \<notin> set (get_device_instance_name id' cfg) \<and> CHR ''/'' \<notin> set (get_device_instance_name id' cfg)
   \<and> create_pod_app_name (get_device_instance_name id' cfg) node False suffix =
       dash (get_device_instance_name id' cfg) suffix
   \<and> create_service_app_name cfg (get_device_instance_name id' cfg) suffix True =
       dash (get_device_instance_name id' cfg) suffix"
proof -
  have "CHR ''.'' \<notin> set (get_device_instance_name id' cfg)" "CHR ''/'' \<notin> set (get_device_instance_name id' cfg)"
    by (auto simp: get_device_instance_name_def replace_char_def)
  then show ?thesis
    by (simp add: create_pod_app_name_def create_service_app_name_def replace_char_idle)
qed

text \<open>The same clock for every socket.\<close>

locale wall_clock =
  fixes os :: "'w serve_rt" and clock :: "'w \<Rightarrow> nat"
  assumes os_polled: "polled_server (system_time_secs os) (connect_uds os p) (sleep os) clock"

sublocale wall_clock \<subseteq> polled: polled_server "system_time_secs os" "connect_uds os p" "sleep os" clock for p
  by (rule os_polled)

context wall_clock
begin

lemma wp_serve_wait:
  assumes "if connected then 1 \<le> n else deadline - clock w + 1 \<le> n"
  shows "wp (serve_wait os p deadline connected n) (\<lambda>r _. r \<noteq> Ok None) w"
  unfolding serve_wait_def by (rule polled.wp_wait_for_server [OF assms])

end

text \<open>
  Waiting for the gRPC server ends: on a host whose clock is not set back meanwhile, the loop
  that tests the server for ten seconds returns within eleven iterations, connected or not.
\<close>

theorem serve_wait_returns:
  assumes "wall_clock os clock" and "start \<le> clock w"
    and "run_state (serve_wait os socket_path (start + 10) False 11) w = (r, w')"
  shows "r \<noteq> Ok None"
  by (rule wp_run [OF wall_clock.wp_serve_wait [OF assms(1)] assms(3)]) (use assms(2) in auto)

text \<open>A host on which nothing can be reached; its state is the time.\<close>

definition quiet_host :: "nat serve_rt" where
  "quiet_host = \<lparr>create_dir_all = (\<lambda>_. return (Ok ())), bind_listener = (\<lambda>_. return (Ok ())),
     spawn_server = (\<lambda>_ _. return ()), connect_uds = (\<lambda>_. return (Err (Msg ''refused''))),
     kubelet_register = (\<lambda>_. return (Err (Msg ''refused''))),
     system_time_secs = State (\<lambda>t. (Ok t, t)), sleep = (\<lambda>d. State (\<lambda>t. ((), t + as_secs d))),
     env_var = (\<lambda>_. return (Ok ''node-a'')), new_channels = return (7, 8), ender_send = (\<lambda>_. return (Ok ()))\<rparr>"

interpretation quiet: wall_clock quiet_host "\<lambda>t. t"
  by (intro wall_clock.intro polled_server.intro) (simp_all add: quiet_host_def wp_def)

theorem serve_wait_returns_witness:
  "\<exists>r w'. run_state (serve_wait quiet_host ''/x/cam.sock'' (100 + 10) False 11) 100 = (r, w') \<and> r \<noteq> Ok None"
proof -
  let ?run = "run_state (serve_wait quiet_host ''/x/cam.sock'' (100 + 10) False 11) 100"
  obtain r w' where run: "?run = (r, w')" by (cases ?run)
  from serve_wait_returns [OF quiet.wall_clock_axioms _ run] run show ?thesis by auto
qed

end
