(* ===== verification/Grpc.thy ===== *)
theory Grpc
  imports Akri_Prelude
begin

text \<open>
  What the generated gRPC code of \<open>agent/src/util/v1beta1.rs\<close> and of the sample broker's
  \<open>camera.rs\<close> share: HTTP requests and responses, the answer to an unknown method, a call of a
  client method, and one method over a connection without losses.
\<close>

section \<open>Requests and responses\<close>

text \<open>Bodies are of a type \<open>'b\<close> left open; an empty body is \<open>None\<close>.\<close>

record 'b http_request =
  uri_path :: string
  request_body :: 'b

record 'b http_response =
  http_status :: nat
  http_headers :: "(string \<times> string) list"
  response_body :: "'b option"

definition unimplemented :: "'b http_response" where
  "unimplemented = \<lparr>http_status = 200, http_headers = [(''grpc-status'', ''12'')], response_body = None\<rparr>"

type_synonym ('w, 'b) http_service = "'b http_request \<Rightarrow> ('w, 'b http_response) state"

text \<open>\<open>_Inner\<close>: the implementation of the trait and an optional interceptor.\<close>

record ('t, 'i) grpc_inner =
  implementation :: 't
  interceptor :: "'i option"

text \<open>
  \<open>tonic::server::Grpc\<close> with a codec for one method: decodes the request, runs the method,
  encodes its response. And a client method, over the operations \<open>ready\<close> and \<open>unary\<close> (or
  \<open>server_streaming\<close>) of \<open>tonic::client::Grpc\<close>.
\<close>

type_synonym ('w, 'i, 'b, 'req, 'resp) server_method =
  "'i option \<Rightarrow> ('req \<Rightarrow> ('w, 'resp) io) \<Rightarrow> ('w, 'b) http_service"

type_synonym ('w, 'req, 'resp) client_method = "'req \<Rightarrow> string \<Rightarrow> ('w, 'resp) io"

definition client_call :: "('w, unit) io \<Rightarrow> ('w, 'req, 'resp) client_method \<Rightarrow> string \<Rightarrow> 'req \<Rightarrow> ('w, 'resp) io" where
  "client_call ready unary path request = do {
     r \<leftarrow> ready;
     case r of
       Ok _ \<Rightarrow> unary request path
     | Err _ \<Rightarrow> return (Err (Msg ''Service was not ready''))
     | Panic p \<Rightarrow> return (Panic p)
   }"

lemma client_call_ready [simp]: "client_call (return (Ok ())) unary path request = unary request path"
  by (simp add: client_call_def)

section \<open>A connection without losses\<close>

text \<open>
  What a client gets of the outcome of a method: the response, the status with its message, or
  a transport error when the task that serves the request panicked.
\<close>

definition status_message :: "error \<Rightarrow> string" where
  "status_message e = (case e of Msg s \<Rightarrow> s | KubeError s \<Rightarrow> s | ApiError n \<Rightarrow> show_nat n)"

definition received_result :: "('a, error) result \<Rightarrow> ('a, error) result" where
  "received_result r = (case r of Ok x \<Rightarrow> Ok x | Err e \<Rightarrow> Err (Msg (status_message e)) | Panic _ \<Rightarrow> Err (Msg ''transport error''))"

lemma received_Ok [simp]: "received_result r = Ok x \<longleftrightarrow> r = Ok x" "received_result r \<noteq> Panic p"
  by (simp_all add: received_result_def split: result.split)

text \<open>
  One method over a connection that loses and repeats nothing, which is the best case of what
  tonic and the network do: the client posts the encoded request to the path, the server hands
  the decoded request to the method and posts back its outcome, which the client reads.
\<close>

locale rpc_method =
  fixes client_method :: "('w, 'b) http_service \<Rightarrow> ('w, 'req, 'resp) client_method"
    and server_method :: "('w, 'i, 'b, 'req, 'resp) server_method"
    and encode_request :: "'req \<Rightarrow> 'b"
    and reply :: "('resp, error) result \<Rightarrow> 'b http_response"
    and read_reply :: "'b http_response \<Rightarrow> ('resp, error) result"
  assumes client_law: "client_method svc req path = do {
      resp \<leftarrow> svc \<lparr>uri_path = path, request_body = encode_request req\<rparr>; return (read_reply resp) }"
    and server_law: "server_method None m \<lparr>uri_path = path, request_body = encode_request req\<rparr> = do {
      r \<leftarrow> m req; return (reply r) }"
    and read_reply_law: "read_reply (reply r) = received_result r"
    and unimplemented_law: "read_reply unimplemented = Err (Msg ''unimplemented'')"
begin

text \<open>A client whose path the service routes to a method runs that method.\<close>

lemma routed:
  assumes "svc \<lparr>uri_path = path, request_body = encode_request req\<rparr>
      = server_method None m \<lparr>uri_path = path, request_body = encode_request req\<rparr>"
  shows "client_method svc req path = do { r \<leftarrow> m req; return (received_result r) }"
  by (simp add: client_law assms server_law read_reply_law)

lemma not_routed:
  assumes "svc \<lparr>uri_path = path, request_body = encode_request req\<rparr> = return unimplemented"
  shows "client_method svc req path = return (Err (Msg ''unimplemented''))"
  by (simp add: client_law assms unimplemented_law)

end

section \<open>An executable codec\<close>

text \<open>
  Over bodies of a type into which requests and responses are embedded, with the outcome of a
  method in the header fields of gRPC.
\<close>

definition codec_reply :: "('resp \<Rightarrow> 'b) \<Rightarrow> ('resp, error) result \<Rightarrow> 'b http_response" where
  "codec_reply enc r = (case r of
       Ok x \<Rightarrow> \<lparr>http_status = 200, http_headers = [(''grpc-status'', ''0'')], response_body = Some (enc x)\<rparr>
     | Err e \<Rightarrow> \<lparr>http_status = 200, http_headers = [(''grpc-status'', ''2''), (''grpc-message'', status_message e)], response_body = None\<rparr>
     | Panic _ \<Rightarrow> \<lparr>http_status = 500, http_headers = [], response_body = None\<rparr>)"

definition codec_read :: "('b \<Rightarrow> 'resp option) \<Rightarrow> 'b http_response \<Rightarrow> ('resp, error) result" where
  "codec_read dec resp =
     (if http_status resp \<noteq> 200 then Err (Msg ''transport error'')
      else if map_of (http_headers resp) ''grpc-status'' = Some ''12'' then Err (Msg ''unimplemented'')
      else case map_of (http_headers resp) ''grpc-message'' of
        Some m \<Rightarrow> Err (Msg m)
      | None \<Rightarrow> (case Option.bind (response_body resp) dec of
          Some x \<Rightarrow> Ok x
        | None \<Rightarrow> Err (Msg ''malformed response'')))"

definition codec_server :: "('b \<Rightarrow> 'req option) \<Rightarrow> ('resp \<Rightarrow> 'b) \<Rightarrow> ('w, 'i, 'b, 'req, 'resp) server_method" where
  "codec_server dec enc i m req = (case dec (request_body req) of
       Some r \<Rightarrow> do { x \<leftarrow> m r; return (codec_reply enc x) }
     | None \<Rightarrow> return (codec_reply enc (Err (Msg ''malformed request''))))"

definition codec_client :: "('req \<Rightarrow> 'b) \<Rightarrow> ('b \<Rightarrow> 'resp option) \<Rightarrow> ('w, 'b) http_service \<Rightarrow> ('w, 'req, 'resp) client_method" where
  "codec_client enc dec svc req path = do {
     resp \<leftarrow> svc \<lparr>uri_path = path, request_body = enc req\<rparr>;
     return (codec_read dec resp)
   }"

lemma codec_rpc:
  assumes "\<And>r. dec_req (enc_req r) = Some r" "\<And>x. dec_resp (enc_resp x) = Some x"
  shows "rpc_method (codec_client enc_req dec_resp) (codec_server dec_req enc_resp) enc_req (codec_reply enc_resp) (codec_read dec_resp)"
  by unfold_locales (auto simp: codec_client_def codec_server_def codec_reply_def codec_read_def assms
      received_result_def unimplemented_def split: result.split)

end
