(* ===== verification/Plugin_Api.thy ===== *)
theory Plugin_Api
  imports Device_Plugin Grpc
begin

text \<open>
  \<open>agent/src/util/v1beta1.rs\<close>: the clients and servers generated from the kubelet's device plugin
  API, and \<open>DevicePluginService\<close> as the implementation behind the server. The messages are the
  records of \<open>Device_Plugin\<close>. What tonic does for one method is a parameter.
\<close>

section \<open>The DevicePlugin service\<close>

text \<open>The trait. A stream of responses is the handle of the channel that feeds it.\<close>

type_synonym stream_handle = nat

record 'w DevicePlugin =
  dp_get_device_plugin_options :: "unit \<Rightarrow> ('w, DevicePluginOptions) io"
  dp_list_and_watch :: "unit \<Rightarrow> ('w, stream_handle) io"
  dp_allocate :: "ContainerAllocateRequest list \<Rightarrow> ('w, ContainerAllocateResponse list) io"
  dp_pre_start_container :: "string list \<Rightarrow> ('w, unit) io"

type_synonym ('w, 'i) DevicePluginServer = "('w DevicePlugin, 'i) grpc_inner"

definition DevicePluginServer_new :: "'w DevicePlugin \<Rightarrow> ('w, 'i) DevicePluginServer" where
  "DevicePluginServer_new inner = \<lparr>implementation = inner, interceptor = None\<rparr>"

definition DevicePluginServer_with_interceptor :: "'w DevicePlugin \<Rightarrow> 'i \<Rightarrow> ('w, 'i) DevicePluginServer" where
  "DevicePluginServer_with_interceptor inner i = \<lparr>implementation = inner, interceptor = Some i\<rparr>"

text \<open>tonic's server side for each of the four methods.\<close>

record ('w, 'i, 'b) plugin_grpc =
  unary_options :: "('w, 'i, 'b, unit, DevicePluginOptions) server_method"
  streaming_list_and_watch :: "('w, 'i, 'b, unit, stream_handle) server_method"
  unary_allocate :: "('w, 'i, 'b, ContainerAllocateRequest list, ContainerAllocateResponse list) server_method"
  unary_pre_start :: "('w, 'i, 'b, string list, unit) server_method"

definition DevicePluginServer_call :: "('w, 'i, 'b) plugin_grpc \<Rightarrow> ('w, 'i) DevicePluginServer \<Rightarrow> ('w, 'b) http_service" where
  "DevicePluginServer_call grpc self req =
     (let inner = implementation self; i = interceptor self; path = uri_path req
      in if path = ''/v1beta1.DevicePlugin/GetDevicePluginOptions'' then
           unary_options grpc i (\<lambda>request. dp_get_device_plugin_options inner request) req
         else if path = ''/v1beta1.DevicePlugin/ListAndWatch'' then
           streaming_list_and_watch grpc i (\<lambda>request. dp_list_and_watch inner request) req
         else if path = ''/v1beta1.DevicePlugin/Allocate'' then
           unary_allocate grpc i (\<lambda>request. dp_allocate inner request) req
         else if path = ''/v1beta1.DevicePlugin/PreStartContainer'' then
           unary_pre_start grpc i (\<lambda>request. dp_pre_start_container inner request) req
         else return unimplemented)"

text \<open>The client, over the operations of \<open>tonic::client::Grpc\<close> at the types of the methods.\<close>

record 'w DevicePluginClient =
  dpc_ready :: "('w, unit) io"
  dpc_options :: "('w, unit, DevicePluginOptions) client_method"
  dpc_list_and_watch :: "('w, unit, stream_handle) client_method"
  dpc_allocate :: "('w, ContainerAllocateRequest list, ContainerAllocateResponse list) client_method"
  dpc_pre_start :: "('w, string list, unit) client_method"

definition client_get_device_plugin_options :: "'w DevicePluginClient \<Rightarrow> unit \<Rightarrow> ('w, DevicePluginOptions) io" where
  "client_get_device_plugin_options self =
     client_call (dpc_ready self) (dpc_options self) ''/v1beta1.DevicePlugin/GetDevicePluginOptions''"

definition client_list_and_watch :: "'w DevicePluginClient \<Rightarrow> unit \<Rightarrow> ('w, stream_handle) io" where
  "client_list_and_watch self =
     client_call (dpc_ready self) (dpc_list_and_watch self) ''/v1beta1.DevicePlugin/ListAndWatch''"

definition client_allocate :: "'w DevicePluginClient \<Rightarrow> ContainerAllocateRequest list
    \<Rightarrow> ('w, ContainerAllocateResponse list) io" where
  "client_allocate self = client_call (dpc_ready self) (dpc_allocate self) ''/v1beta1.DevicePlugin/Allocate''"

definition client_pre_start_container :: "'w DevicePluginClient \<Rightarrow> string list \<Rightarrow> ('w, unit) io" where
  "client_pre_start_container self =
     client_call (dpc_ready self) (dpc_pre_start self) ''/v1beta1.DevicePlugin/PreStartContainer''"

text \<open>
  \<open>impl DevicePlugin for DevicePluginService\<close>. \<open>list_and_watch\<close> starts the task of the same name in
  \<open>Device_Plugin\<close> and answers with the channel on which that task sends the devices.
\<close>

definition DevicePluginService_impl :: "'w dps_rt \<Rightarrow> 'w kube_interface \<Rightarrow> (DevicePluginService \<Rightarrow> ('w, stream_handle) state)
    \<Rightarrow> DevicePluginService \<Rightarrow> 'w DevicePlugin" where
  "DevicePluginService_impl rt kube_interface spawn_list_and_watch self = \<lparr>
     dp_get_device_plugin_options = (\<lambda>_. return get_device_plugin_options),
     dp_list_and_watch = (\<lambda>_. do { kubelet_update_receiver \<leftarrow> spawn_list_and_watch self; return (Ok kubelet_update_receiver) }),
     dp_allocate = allocate rt self kube_interface,
     dp_pre_start_container = (\<lambda>_. return pre_start_container)\<rparr>"

section \<open>The Registration service\<close>

text \<open>The kubelet implements it; the Agent is its client.\<close>

record 'w Registration =
  reg_register :: "RegisterRequest \<Rightarrow> ('w, unit) io"

type_synonym ('w, 'i) RegistrationServer = "('w Registration, 'i) grpc_inner"

definition RegistrationServer_new :: "'w Registration \<Rightarrow> ('w, 'i) RegistrationServer" where
  "RegistrationServer_new inner = \<lparr>implementation = inner, interceptor = None\<rparr>"

definition RegistrationServer_with_interceptor :: "'w Registration \<Rightarrow> 'i \<Rightarrow> ('w, 'i) RegistrationServer" where
  "RegistrationServer_with_interceptor inner i = \<lparr>implementation = inner, interceptor = Some i\<rparr>"

definition RegistrationServer_call :: "('w, 'i, 'b, RegisterRequest, unit) server_method \<Rightarrow> ('w, 'i) RegistrationServer
    \<Rightarrow> ('w, 'b) http_service" where
  "RegistrationServer_call unary self req =
     (if uri_path req = ''/v1beta1.Registration/Register'' then
        unary (interceptor self) (\<lambda>request. reg_register (implementation self) request) req
      else return unimplemented)"

definition client_register :: "('w, unit) io \<Rightarrow> ('w, RegisterRequest, unit) client_method \<Rightarrow> RegisterRequest \<Rightarrow> ('w, unit) io" where
  "client_register ready unary = client_call ready unary ''/v1beta1.Registration/Register''"

section \<open>Calls reach the plugin\<close>

text \<open>
  A client of a plugin's server, given tonic's client for each method over an HTTP service, and
  a connection without losses for the four methods.
\<close>

definition plugin_client :: "('w, unit) io
    \<Rightarrow> (('w, 'b) http_service \<Rightarrow> ('w, unit, DevicePluginOptions) client_method)
    \<Rightarrow> (('w, 'b) http_service \<Rightarrow> ('w, unit, stream_handle) client_method)
    \<Rightarrow> (('w, 'b) http_service \<Rightarrow> ('w, ContainerAllocateRequest list, ContainerAllocateResponse list) client_method)
    \<Rightarrow> (('w, 'b) http_service \<Rightarrow> ('w, string list, unit) client_method)
    \<Rightarrow> ('w, 'b) http_service \<Rightarrow> 'w DevicePluginClient" where
  "plugin_client ready cu_options cu_watch cu_allocate cu_pre_start svc = \<lparr>dpc_ready = ready, dpc_options = cu_options svc,
     dpc_list_and_watch = cu_watch svc, dpc_allocate = cu_allocate svc, dpc_pre_start = cu_pre_start svc\<rparr>"

locale plugin_rpc =
  options: rpc_method cu_options "unary_options g" enc_o reply_o read_o
  + watch: rpc_method cu_watch "streaming_list_and_watch g" enc_w reply_w read_w
  + alloc: rpc_method cu_allocate "unary_allocate g" enc_a reply_a read_a
  + pre_start: rpc_method cu_pre_start "unary_pre_start g" enc_p reply_p read_p
  for g :: "('w, 'i, 'b) plugin_grpc" and cu_options enc_o reply_o read_o cu_watch enc_w reply_w read_w
    and cu_allocate enc_a reply_a read_a cu_pre_start enc_p reply_p read_p
begin

abbreviation connected :: "'w DevicePlugin \<Rightarrow> ('w, unit) io \<Rightarrow> 'w DevicePluginClient" where
  "connected p ready \<equiv> plugin_client ready cu_options cu_watch cu_allocate cu_pre_start
     (DevicePluginServer_call g (DevicePluginServer_new p))"

lemma call_options: "client_get_device_plugin_options (connected p (return (Ok ()))) u
    = do { r \<leftarrow> dp_get_device_plugin_options p u; return (received_result r) }"
  by (simp add: client_get_device_plugin_options_def plugin_client_def)
     (rule options.routed, simp add: DevicePluginServer_call_def DevicePluginServer_new_def)

lemma call_watch: "client_list_and_watch (connected p (return (Ok ()))) u
    = do { r \<leftarrow> dp_list_and_watch p u; return (received_result r) }"
  by (simp add: client_list_and_watch_def plugin_client_def)
     (rule watch.routed, simp add: DevicePluginServer_call_def DevicePluginServer_new_def)

lemma call_allocate: "client_allocate (connected p (return (Ok ()))) reqs
    = do { r \<leftarrow> dp_allocate p reqs; return (received_result r) }"
  by (simp add: client_allocate_def plugin_client_def)
     (rule alloc.routed, simp add: DevicePluginServer_call_def DevicePluginServer_new_def)

lemma call_pre_start: "client_pre_start_container (connected p (return (Ok ()))) ids
    = do { r \<leftarrow> dp_pre_start_container p ids; return (received_result r) }"
  by (simp add: client_pre_start_container_def plugin_client_def)
     (rule pre_start.routed, simp add: DevicePluginServer_call_def DevicePluginServer_new_def)

lemmas calls = call_options call_watch call_allocate call_pre_start

end

text \<open>
  Over a connection without losses, the kubelet's calls through the generated client and server
  are the operations of
  \<open>DevicePluginService\<close>: each client method runs the operation of its name once and gets its
  outcome, a status instead of a panic. A request for any other path is answered as not
  implemented and runs nothing.
\<close>

theorem plugin_served:
  assumes "plugin_rpc g cu_options enc_o reply_o read_o cu_watch enc_w reply_w read_w cu_allocate enc_a reply_a read_a
      cu_pre_start enc_p reply_p read_p"
    and "plugin = DevicePluginService_impl rt ki spawn dps"
    and "server = DevicePluginServer_call g (DevicePluginServer_new plugin)"
    and "client = plugin_client (return (Ok ())) cu_options cu_watch cu_allocate cu_pre_start server"
  shows "client_get_device_plugin_options client () = return (Ok \<lparr>pre_start_required = True\<rparr>)
    \<and> client_list_and_watch client () = do { h \<leftarrow> spawn dps; return (Ok h) }
    \<and> client_allocate client reqs = do { r \<leftarrow> allocate rt dps ki reqs; return (received_result r) }
    \<and> client_pre_start_container client ids = return (Ok ())
    \<and> (path \<notin> {''/v1beta1.DevicePlugin/GetDevicePluginOptions'', ''/v1beta1.DevicePlugin/ListAndWatch'',
         ''/v1beta1.DevicePlugin/Allocate'', ''/v1beta1.DevicePlugin/PreStartContainer''} \<longrightarrow>
       server \<lparr>uri_path = path, request_body = b\<rparr> = return unimplemented)"
  unfolding assms(2-) plugin_rpc.calls [OF assms(1)]
  by (simp add: DevicePluginService_impl_def get_device_plugin_options_def pre_start_container_def received_result_def
      DevicePluginServer_call_def)

text \<open>
  Registration: over the kubelet's generated server the request reaches the kubelet once, with the
  version of the API, the plugin's socket and its resource; if the kubelet refuses, the plugin's
  server is told to shut down.
\<close>

theorem registration_served:
  assumes "rpc_method cu su enc rep rd" "connect_uds os KUBELET_SOCKET = return (Ok ())"
    and "kubelet_register os = client_register (return (Ok ())) (cu (RegistrationServer_call su (RegistrationServer_new kubelet)))"
  shows "register os capability_id socket_name instance_name ender = do {
      r \<leftarrow> reg_register kubelet \<lparr>rr_version = K8S_DEVICE_PLUGIN_VERSION, rr_endpoint = socket_name,
             rr_resource_name = capability_id, rr_options = Some \<lparr>pre_start_required = False\<rparr>\<rparr>;
      if is_ok r then return (Ok ()) else ender_send os ender
    }"
proof -
  have call: "client_register (return (Ok ())) (cu (RegistrationServer_call su (RegistrationServer_new kubelet))) req
      = do { r \<leftarrow> reg_register kubelet req; return (received_result r) }" for req
    unfolding client_register_def client_call_ready
    by (rule rpc_method.routed [OF assms(1)]) (simp add: RegistrationServer_call_def RegistrationServer_new_def)
  show ?thesis unfolding register_def Let_def assms(2,3) call try_then_def bind_left_identity bind_assoc result.case
    by (intro arg_cong2 [where f = State_Monad.bind] refl ext) (simp add: received_result_def split: result.split)
qed

section \<open>An executable wire\<close>

text \<open>Bodies that carry the messages as they are.\<close>

datatype plugin_wire = WEmpty | WOptions DevicePluginOptions | WStream stream_handle
  | WRequests "ContainerAllocateRequest list" | WResponses "ContainerAllocateResponse list"
  | WIds "string list" | WRegister RegisterRequest

fun wire_empty :: "plugin_wire \<Rightarrow> unit option" where
  "wire_empty WEmpty = Some ()" | "wire_empty _ = None"
fun wire_options :: "plugin_wire \<Rightarrow> DevicePluginOptions option" where
  "wire_options (WOptions x) = Some x" | "wire_options _ = None"
fun wire_stream :: "plugin_wire \<Rightarrow> stream_handle option" where
  "wire_stream (WStream x) = Some x" | "wire_stream _ = None"
fun wire_requests :: "plugin_wire \<Rightarrow> ContainerAllocateRequest list option" where
  "wire_requests (WRequests x) = Some x" | "wire_requests _ = None"
fun wire_responses :: "plugin_wire \<Rightarrow> ContainerAllocateResponse list option" where
  "wire_responses (WResponses x) = Some x" | "wire_responses _ = None"
fun wire_ids :: "plugin_wire \<Rightarrow> string list option" where
  "wire_ids (WIds x) = Some x" | "wire_ids _ = None"
fun wire_register :: "plugin_wire \<Rightarrow> RegisterRequest option" where
  "wire_register (WRegister x) = Some x" | "wire_register _ = None"

definition wire_grpc :: "('w, unit, plugin_wire) plugin_grpc" where
  "wire_grpc = \<lparr>unary_options = codec_server wire_empty WOptions,
     streaming_list_and_watch = codec_server wire_empty WStream,
     unary_allocate = codec_server wire_requests WResponses,
     unary_pre_start = codec_server wire_ids (\<lambda>_. WEmpty)\<rparr>"

interpretation wire: plugin_rpc wire_grpc
  "codec_client (\<lambda>_. WEmpty) wire_options" "\<lambda>_. WEmpty" "codec_reply WOptions" "codec_read wire_options"
  "codec_client (\<lambda>_. WEmpty) wire_stream" "\<lambda>_. WEmpty" "codec_reply WStream" "codec_read wire_stream"
  "codec_client WRequests wire_responses" WRequests "codec_reply WResponses" "codec_read wire_responses"
  "codec_client WIds wire_empty" WIds "codec_reply (\<lambda>_. WEmpty)" "codec_read wire_empty"
  unfolding plugin_rpc_def wire_grpc_def by (simp add: codec_rpc)

interpretation registration: rpc_method "codec_client WRegister wire_empty" "codec_server wire_register (\<lambda>_. WEmpty)"
  WRegister "codec_reply (\<lambda>_. WEmpty)" "codec_read wire_empty"
  by (rule codec_rpc) simp_all

definition wire_client :: "('w, plugin_wire) http_service \<Rightarrow> 'w DevicePluginClient" where
  "wire_client = plugin_client (return (Ok ())) (codec_client (\<lambda>_. WEmpty) wire_options) (codec_client (\<lambda>_. WEmpty) wire_stream)
     (codec_client WRequests wire_responses) (codec_client WIds wire_empty)"

text \<open>The kubelet allocates a free slot of the sample Instance over the wire, and the Instance has it.\<close>

theorem plugin_served_witness:
  "\<exists>server :: (agent_cluster, plugin_wire) http_service.
     (\<exists>resp w'. run_state (client_allocate (wire_client server) [\<lparr>devices_i_ds = [''cam-0'']\<rparr>]) sample_agent = (Ok [resp], w')
        \<and> owns ''node-a'' (''cam'', ''ns'') (cluster_insts w') ''cam-0'')
     \<and> server \<lparr>uri_path = ''/v1beta1.DevicePlugin/Free'', request_body = WEmpty\<rparr> = return unimplemented"
proof -
  let ?server = "DevicePluginServer_call wire_grpc (DevicePluginServer_new
    (DevicePluginService_impl agent_rt cluster_kube (\<lambda>_. return 0) sample_dps))"
  note served = plugin_served [OF wire.plugin_rpc_axioms refl refl refl, of agent_rt cluster_kube "\<lambda>_. return 0" sample_dps
    "[\<lparr>devices_i_ds = [''cam-0'']\<rparr>]" "[]" "''/v1beta1.DevicePlugin/Free''" WEmpty, folded wire_client_def]
  let ?run = "run_state (allocate agent_rt sample_dps cluster_kube [\<lparr>devices_i_ds = [''cam-0'']\<rparr>]) sample_agent"
  have ran: "(case fst ?run of Ok resps \<Rightarrow> length resps = 1 | _ \<Rightarrow> False)
    \<and> map_option (\<lambda>x. slot_owner (spec x) ''cam-0'') (cluster_insts (snd ?run) (''cam'', ''ns'')) = Some (Some ''node-a'')"
    by code_simp
  then obtain resp w' where "?run = (Ok [resp], w')" "owns ''node-a'' (''cam'', ''ns'') (cluster_insts w') ''cam-0''"
    by (cases ?run) (auto simp: owns_def length_Suc_conv split: result.splits)
  with served show ?thesis by (intro exI [of _ ?server]) (auto simp: received_result_def)
qed

end
