(* ===== verification/Slot_Reconciliation.thy ===== *)
theory Slot_Reconciliation
  imports Kube_Store
begin

text \<open>
  \<open>agent/src/util/crictl_containers.rs\<close> and \<open>slot_reconciliation.rs\<close>: the Agent asks the
  container runtime which slots the containers of its node use and corrects the
  \<open>device_usage\<close> of every Instance accordingly. Parameters: the process runner
  (\<open>tokio::process::Command\<close>), the JSON parser (\<open>serde_json\<close>), the clock, and the
  interface to the cluster. The reconciler's own state, \<open>removal_slot_map\<close>, is threaded
  through.
\<close>

section \<open>Asking the container runtime\<close>

record CriCtlContainer =
  annotations :: "(string, string) hashmap"

record CriCtlOutput =
  cri_containers :: "CriCtlContainer list"

definition get_container_slot_usage ::
  "(string \<Rightarrow> (CriCtlOutput, string) result) \<Rightarrow> string \<Rightarrow> string list" where
  "get_container_slot_usage from_str crictl_output =
     (case from_str crictl_output of
        Ok crictl_output_parsed \<Rightarrow>
          List.map_filter (\<lambda>c. map_of (annotations c) AKRI_SLOT_ANNOTATION_NAME)
            (cri_containers crictl_output_parsed)
      | _ \<Rightarrow> [])"

record command_output =
  success :: bool
  stdout :: string
  stderr :: string

record CriCtlSlotQuery =
  crictl_path :: string
  runtime_endpoint :: string
  image_endpoint :: string

text \<open>A Rust \<open>HashSet\<close> of slots is a list here of which only the members matter.\<close>

definition get_node_slots ::
  "(string \<Rightarrow> string list \<Rightarrow> ('w, command_output) io) \<Rightarrow> (string \<Rightarrow> (CriCtlOutput, string) result)
   \<Rightarrow> CriCtlSlotQuery \<Rightarrow> ('w, string list) io" where
  "get_node_slots run_command from_str self = do {
     r \<leftarrow> run_command (crictl_path self)
        [''--runtime-endpoint'', runtime_endpoint self, ''--image-endpoint'', image_endpoint self,
         ''ps'', ''-v'', ''--output'', ''json''];
     return (case r of
         Ok out \<Rightarrow>
           if success out then Ok (get_container_slot_usage from_str (stdout out))
           else Err (Msg (''get_node_slots - Failed to call crictl: '' @ stderr out))
       | Err e \<Rightarrow> Err e
       | Panic p \<Rightarrow> Panic p)
   }"

section \<open>Reconciling\<close>

type_synonym removal_slot_map = "(string, nat) hashmap"

definition checked_duration_since :: "nat \<Rightarrow> nat \<Rightarrow> nat option" where
  "checked_duration_since now earlier = (if earlier \<le> now then Some (now - earlier) else None)"

definition unready :: "PodObject \<Rightarrow> bool" where
  "unready p = list_ex (\<lambda>condition. pc_type condition = ''ContainersReady'' \<and> pc_status condition \<noteq> ''True'')
     (case status p of None \<Rightarrow> [] | Some st \<Rightarrow> (case ps_conditions st of None \<Rightarrow> [] | Some cs \<Rightarrow> cs))"

definition slots_missing_this_node_name :: "string \<Rightarrow> string list \<Rightarrow> Instance \<Rightarrow> string list" where
  "slots_missing_this_node_name node_name node_slot_usage i =
     map fst (filter (\<lambda>(k, v). v \<noteq> node_name \<and> k \<in> set node_slot_usage) (device_usage i))"

definition slots_without_container :: "string \<Rightarrow> string list \<Rightarrow> Instance \<Rightarrow> string list" where
  "slots_without_container node_name node_slot_usage i =
     map fst (filter (\<lambda>(k, v). v = node_name \<and> k \<notin> set node_slot_usage) (device_usage i))"

text \<open>
  The second filter: a slot that is not tracked yet is tracked from now on; a tracked one
  passes when it has been tracked for longer than the grace period.
\<close>

definition slot_expired :: "nat \<Rightarrow> ('w, nat) state \<Rightarrow> string \<Rightarrow> removal_slot_map
    \<Rightarrow> ('w, bool \<times> removal_slot_map) state" where
  "slot_expired slot_grace_period instant_now slot local_slot_map =
     (case map_of local_slot_map slot of
        Some time \<Rightarrow> do {
          now \<leftarrow> instant_now;
          return (case checked_duration_since now time of
              Some duration \<Rightarrow> (slot_grace_period < duration, local_slot_map)
            | None \<Rightarrow> (False, local_slot_map))
        }
      | None \<Rightarrow> do {
          now \<leftarrow> instant_now;
          return (False, hm_insert slot now local_slot_map)
        })"

fun filter_expired :: "nat \<Rightarrow> ('w, nat) state \<Rightarrow> string list \<Rightarrow> removal_slot_map
    \<Rightarrow> ('w, string list \<times> removal_slot_map) state" where
  "filter_expired slot_grace_period instant_now [] m = return ([], m)"
| "filter_expired slot_grace_period instant_now (slot # rest) m = do {
     (expired, m') \<leftarrow> slot_expired slot_grace_period instant_now slot m;
     (kept, m'') \<leftarrow> filter_expired slot_grace_period instant_now rest m';
     return (if expired then slot # kept else kept, m'')
   }"

definition modified_device_usage :: "string \<Rightarrow> string list \<Rightarrow> string list \<Rightarrow> Instance
    \<Rightarrow> (string, string) hashmap" where
  "modified_device_usage node_name missing to_clean i =
     map (\<lambda>(slot, node). (slot,
        if slot \<in> set missing then node_name
        else if slot \<in> set to_clean then ''''
        else node)) (device_usage i)"

definition remove_slots :: "string list \<Rightarrow> removal_slot_map \<Rightarrow> removal_slot_map" where
  "remove_slots slots m = fold hm_remove slots m"

definition reconcile_instance ::
  "string \<Rightarrow> nat \<Rightarrow> ('w, nat) state \<Rightarrow> 'w kube_interface \<Rightarrow> string list \<Rightarrow> KubeAkriInstance
   \<Rightarrow> removal_slot_map \<Rightarrow> ('w, removal_slot_map) io" where
  "reconcile_instance node_name slot_grace_period instant_now kube_interface node_slot_usage inst m =
     (let missing = slots_missing_this_node_name node_name node_slot_usage (spec inst)
      in do {
        (slots_to_clean, m') \<leftarrow> filter_expired slot_grace_period instant_now
            (slots_without_container node_name node_slot_usage (spec inst)) m;
        if slots_to_clean \<noteq> [] \<or> missing \<noteq> [] then
          let modified_instance = (spec inst)\<lparr>device_usage :=
                modified_device_usage node_name missing slots_to_clean (spec inst)\<rparr>
          in try_then (return (unwrap (m_namespace (metadata inst)))) (\<lambda>namespace. do {
               r \<leftarrow> update_instance kube_interface modified_instance (m_name (metadata inst)) namespace;
               return (case r of
                   Ok _ \<Rightarrow> Ok (remove_slots slots_to_clean m')
                 | Err e \<Rightarrow> Ok m'
                 | Panic p \<Rightarrow> Panic p)
             })
        else return (Ok m')
      })"

fun reconcile_instances ::
  "string \<Rightarrow> nat \<Rightarrow> ('w, nat) state \<Rightarrow> 'w kube_interface \<Rightarrow> string list \<Rightarrow> KubeAkriInstance list
   \<Rightarrow> removal_slot_map \<Rightarrow> ('w, removal_slot_map) io" where
  "reconcile_instances node_name grace now ki usage [] m = return (Ok m)"
| "reconcile_instances node_name grace now ki usage (inst # rest) m =
     try_then (reconcile_instance node_name grace now ki usage inst m)
       (reconcile_instances node_name grace now ki usage rest)"

text \<open>\<open>format!("{}={}", "spec.nodeName", &node_name)\<close>\<close>

definition node_field_selector :: "string \<Rightarrow> string" where
  "node_field_selector node_name = equals ''spec.nodeName'' node_name"

definition reconcile ::
  "string \<Rightarrow> nat \<Rightarrow> ('w, nat) state \<Rightarrow> ('w, string list) io \<Rightarrow> 'w kube_interface
   \<Rightarrow> removal_slot_map \<Rightarrow> ('w, removal_slot_map) io" where
  "reconcile node_name slot_grace_period instant_now slot_query kube_interface removal_slot_map = do {
     q \<leftarrow> slot_query;
     case q of
       Err e \<Rightarrow> return (Ok removal_slot_map)
     | Panic p \<Rightarrow> return (Panic p)
     | Ok node_slot_usage \<Rightarrow>
         let m = remove_slots node_slot_usage removal_slot_map
         in do {
           gi \<leftarrow> get_instances kube_interface;
           case gi of
             Err e \<Rightarrow> return (Ok m)
           | Panic p \<Rightarrow> return (Panic p)
           | Ok instances \<Rightarrow> do {
               fp \<leftarrow> find_pods_with_field kube_interface (node_field_selector node_name);
               case fp of
                 Err e \<Rightarrow> return (Ok m)
               | Panic p \<Rightarrow> return (Panic p)
               | Ok pods \<Rightarrow>
                   if list_ex unready pods then return (Ok m)
                   else reconcile_instances node_name slot_grace_period instant_now kube_interface
                          node_slot_usage instances m
             }
         }
   }"

text \<open>
  The endless loop of \<open>periodic_slot_reconciliation\<close>, run for \<open>n\<close> iterations; the delay
  before each is a step of the environment. Before it the task reads its settings from the
  environment of the process; a variable that is not set ends it.
\<close>

fun reconciliation_loop ::
  "string \<Rightarrow> nat \<Rightarrow> ('w, nat) state \<Rightarrow> ('w, string list) io \<Rightarrow> 'w kube_interface
   \<Rightarrow> (nat \<Rightarrow> ('w, unit) state) \<Rightarrow> nat \<Rightarrow> removal_slot_map \<Rightarrow> ('w, removal_slot_map) io" where
  "reconciliation_loop node grace now slot_query ki delay_for 0 m = return (Ok m)"
| "reconciliation_loop node grace now slot_query ki delay_for (Suc n) m = do {
     _ \<leftarrow> delay_for (from_secs SLOT_RECONCILIATION_CHECK_DELAY_SECS);
     try_then (reconcile node grace now slot_query ki m)
       (reconciliation_loop node grace now slot_query ki delay_for n)
   }"

record 'w slot_rt =
  slot_env_var :: "string \<Rightarrow> string option"
  slot_run_command :: "string \<Rightarrow> string list \<Rightarrow> ('w, command_output) io"
  crictl_from_str :: "string \<Rightarrow> (CriCtlOutput, string) result"
  slot_now :: "('w, nat) state"
  slot_delay_for :: "nat \<Rightarrow> ('w, unit) state"

definition periodic_slot_reconciliation :: "'w slot_rt \<Rightarrow> 'w kube_interface \<Rightarrow> nat \<Rightarrow> nat \<Rightarrow> ('w, removal_slot_map) io" where
  "periodic_slot_reconciliation rt kube_interface slot_grace_period n =
     try_then (return (unwrap (slot_env_var rt ''AGENT_NODE_NAME''))) (\<lambda>node_name.
     try_then (return (unwrap (slot_env_var rt ''HOST_CRICTL_PATH''))) (\<lambda>path.
     try_then (return (unwrap (slot_env_var rt ''HOST_RUNTIME_ENDPOINT''))) (\<lambda>runtime.
     try_then (return (unwrap (slot_env_var rt ''HOST_IMAGE_ENDPOINT''))) (\<lambda>image.
       let slot_query = \<lparr>crictl_path = path, runtime_endpoint = runtime, image_endpoint = image\<rparr>
       in reconciliation_loop node_name slot_grace_period (slot_now rt)
            (get_node_slots (slot_run_command rt) (crictl_from_str rt) slot_query) kube_interface (slot_delay_for rt) n []))))"

section \<open>The changes a pass may make\<close>

text \<open>
  \<open>slot_change node U s o o'\<close>: slot \<open>s\<close> keeps its owner, or is taken over by the node
  because one of its containers uses it (\<open>s\<close> is in \<open>U\<close>), or is freed because the node
  held it and no container uses it.
\<close>

definition slot_change :: "string \<Rightarrow> string set \<Rightarrow> string \<Rightarrow> string option \<Rightarrow> string option \<Rightarrow> bool" where
  "slot_change node U s own own' \<longleftrightarrow> own' = own
     \<or> s \<in> U \<and> own \<noteq> None \<and> own' = Some node
     \<or> s \<notin> U \<and> own = Some node \<and> own' = Some ''''"

definition instance_change :: "string \<Rightarrow> string set \<Rightarrow> Instance \<Rightarrow> Instance \<Rightarrow> bool" where
  "instance_change node U i i' \<longleftrightarrow> same_besides_slots i i' \<and> (instance_wf i \<longrightarrow> instance_wf i')
     \<and> (\<forall>s. slot_change node U s (slot_owner i s) (slot_owner i' s))"

definition reconciled :: "string \<Rightarrow> string set \<Rightarrow> inst_store \<Rightarrow> inst_store \<Rightarrow> bool" where
  "reconciled node U st st' \<longleftrightarrow>
     (\<forall>k. rel_option (\<lambda>x x'. instance_change node U (spec x) (spec x')) (st k) (st' k))"

lemma instance_change_refl: "instance_change node U i i"
  by (simp add: instance_change_def slot_change_def same_besides_slots_def)

lemma reconciled_refl: "reconciled node U st st"
  by (auto simp: reconciled_def instance_change_refl intro!: option.rel_refl)

lemma remove_slots_get: "map_of (remove_slots slots m) s = (if s \<in> set slots then None else map_of m s)"
  unfolding remove_slots_def by (induction slots arbitrary: m) (auto simp: hashmap_simps)

lemma slot_owner_modified:
  "map_of (modified_device_usage node missing to_clean i) s = map_option (\<lambda>own.
     if s \<in> set missing then node else if s \<in> set to_clean then '''' else own) (slot_owner i s)"
  unfolding modified_device_usage_def by (rule map_of_map_values)

lemma missing_iff: "instance_wf i \<Longrightarrow> s \<in> set (slots_missing_this_node_name node U i) \<longleftrightarrow>
    (\<exists>own. slot_owner i s = Some own \<and> own \<noteq> node) \<and> s \<in> set U"
  by (auto simp: slots_missing_this_node_name_def instance_wf_def hm_wf_map_of image_iff)

lemma unused_iff: "instance_wf i \<Longrightarrow> s \<in> set (slots_without_container node U i) \<longleftrightarrow>
    slot_owner i s = Some node \<and> s \<notin> set U"
  by (auto simp: slots_without_container_def instance_wf_def hm_wf_map_of image_iff)

lemma distinct_unused: "instance_wf i \<Longrightarrow> distinct (slots_without_container node U i)"
  by (auto simp: slots_without_container_def instance_wf_def hm_wf_def hm_keys_def
      intro: distinct_map_filter)

text \<open>The instance that is written, relative to the one that was read.\<close>

lemma instance_change_modified:
  assumes "instance_wf i" "set to_clean \<subseteq> set (slots_without_container node U i)"
  shows "instance_change node (set U) i (i\<lparr>device_usage := modified_device_usage node
      (slots_missing_this_node_name node U i) to_clean i\<rparr>)"
proof -
  have "slot_change node (set U) s (slot_owner i s) (map_of (modified_device_usage node
      (slots_missing_this_node_name node U i) to_clean i) s)" for s
    using assms unused_iff [OF assms(1), of s node U]
    by (cases "slot_owner i s") (auto simp: slot_change_def slot_owner_modified missing_iff)
  moreover have "hm_wf (modified_device_usage node (slots_missing_this_node_name node U i) to_clean i)"
    using assms(1) unfolding modified_device_usage_def hm_wf_map_values by (simp add: instance_wf_def)
  ultimately show ?thesis using assms(1) by (simp add: instance_change_def instance_wf_def same_besides_slots_def)
qed

text \<open>Merging it into a stored object with the same slots stores just that.\<close>

lemma instance_change_merge:
  assumes "instance_change node U i cur" "instance_change node U i i'"
    and "\<And>s. slot_owner i' s = None \<Longrightarrow> slot_owner i s = None"
  shows "instance_change node U i (merge_instance cur i')"
proof -
  have "slot_change node U s (slot_owner i s) (slot_owner (merge_instance cur i') s)" for s
    using assms(1) [unfolded instance_change_def] assms(2) [unfolded instance_change_def] assms(3) [of s]
    by (cases "slot_owner i' s") (auto dest: spec [of _ s])
  then show ?thesis using assms(1,2) by (simp add: instance_change_def same_besides_slots_def)
qed

lemma reconciled_patch:
  assumes rec: "reconciled node U st cur" and x: "st (nm, ns) = Some x"
    and ch: "instance_change node U (spec x) i'"
    and dom: "\<And>s. slot_owner i' s = None \<Longrightarrow> slot_owner (spec x) s = None"
    and eff: "write_effect (patched i' nm ns) cur r cur'"
  shows "reconciled node U st cur'"
proof (cases "cur' = cur")
  case False
  with eff obtain y y' where y: "cur (nm, ns) = Some y" and c: "cur' = cur((nm, ns) \<mapsto> y')"
    and s: "spec y' = merge_instance (spec y) i'"
    by (auto simp: write_effect_def patched_def)
  from rec x y have "instance_change node U (spec x) (spec y)"
    unfolding reconciled_def by (metis option.rel_sel option.sel option.simps(3))
  from instance_change_merge [OF this ch dom] rec x show ?thesis
    by (auto simp: reconciled_def c s)
qed (use rec in simp)

section \<open>The grace period\<close>

text \<open>
  \<open>C\<close> is any property of the clock's readings. The slots that pass the filter were tracked
  before, with a reading that is more than the grace period later.
\<close>

definition overdue :: "(nat \<Rightarrow> bool) \<Rightarrow> nat \<Rightarrow> removal_slot_map \<Rightarrow> string \<Rightarrow> bool" where
  "overdue C grace m s \<longleftrightarrow> (\<exists>t now. map_of m s = Some t \<and> C now \<and> t + grace < now)"

text \<open>
  What the filter does with one slot, by a reading \<open>now\<close> of the clock: \<open>tm\<close> is the time since
  which it was tracked and \<open>tm'\<close> the one since which it is.
\<close>

definition sifted :: "(nat \<Rightarrow> bool) \<Rightarrow> nat \<Rightarrow> nat option \<Rightarrow> bool \<Rightarrow> nat option \<Rightarrow> bool" where
  "sifted C grace tm expired tm' \<longleftrightarrow> (\<exists>now. C now \<and> (case tm of
       None \<Rightarrow> \<not> expired \<and> tm' = Some now
     | Some t \<Rightarrow> (expired \<longleftrightarrow> t + grace < now) \<and> tm' = tm))"

lemma wp_slot_expired:
  assumes now: "\<And>w. J w \<Longrightarrow> wp instant_now (\<lambda>n w'. C n \<and> J w') w" and "J w"
  shows "wp (slot_expired grace instant_now s m) (\<lambda>(e, m') w'. J w'
     \<and> sifted C grace (map_of m s) e (map_of m' s) \<and> (\<forall>s'. s' \<noteq> s \<longrightarrow> map_of m' s' = map_of m s')) w"
  unfolding slot_expired_def
  by (auto simp: sifted_def checked_duration_since_def hashmap_simps less_diff_conv
      split: option.split if_splits intro!: wp_mono [OF now [OF \<open>J w\<close>]])

lemma wp_filter_sifted:
  assumes now: "\<And>w. J w \<Longrightarrow> wp instant_now (\<lambda>n w'. C n \<and> J w') w"
    and "J w" "distinct slots"
  shows "wp (filter_expired grace instant_now slots m) (\<lambda>(kept, m') w'. J w' \<and> set kept \<subseteq> set slots
     \<and> (\<forall>s \<in> set slots. sifted C grace (map_of m s) (s \<in> set kept) (map_of m' s))
     \<and> (\<forall>s. s \<notin> set slots \<longrightarrow> map_of m' s = map_of m s)) w"
  using assms(2,3)
proof (induction slots arbitrary: m w)
  case (Cons s slots)
  then have s: "s \<notin> set slots" "distinct slots" by auto
  show ?case
    unfolding filter_expired.simps wp_bind
  proof (rule wp_mono [OF wp_slot_expired [OF now Cons.prems(1)]], assumption, clarify, goal_cases)
    case (1 e m' w')
    note step = 1
    show ?case
      unfolding wp_bind prod.case
    proof (rule wp_mono [OF Cons.IH [OF 1(1) s(2)]], clarify, goal_cases)
      case (1 kept m'' w'')
      then have "s' \<in> set (if e then s # kept else kept) \<longleftrightarrow> (if s' = s then e else s' \<in> set kept)" for s'
        using s(1) by auto
      with 1 s(1) step show ?case by (auto split: if_splits)
    qed
  qed
qed simp

lemma sifted_overdue: "sifted C grace tm expired tm' \<Longrightarrow>
    (expired \<longrightarrow> (\<exists>t now. tm = Some t \<and> C now \<and> t + grace < now)) \<and> (tm' = tm \<or> tm = None)"
  by (auto simp: sifted_def split: option.splits)

lemma wp_filter_expired:
  assumes now: "\<And>w. J w \<Longrightarrow> wp instant_now (\<lambda>n w'. C n \<and> J w') w"
    and "J w" "distinct slots"
  shows "wp (filter_expired grace instant_now slots m) (\<lambda>(kept, m') w'. J w'
     \<and> set kept \<subseteq> {s \<in> set slots. overdue C grace m s}
     \<and> (\<forall>s. map_of m' s = map_of m s \<or> s \<in> set slots \<and> map_of m s = None)) w"
proof (rule wp_mono [OF wp_filter_sifted [where J = J and C = C, OF now assms(2,3)]], assumption, clarify, goal_cases)
  case (1 kept m' w')
  then show ?case using sifted_overdue by (fastforce simp: overdue_def)
qed

section \<open>A pass over a store\<close>

text \<open>The instances that a pass works on: what was stored when it began.\<close>

definition snapshot :: "inst_store \<Rightarrow> KubeAkriInstance \<Rightarrow> bool" where
  "snapshot st x \<longleftrightarrow> instance_wf (spec x) \<and>
     (\<exists>ns. m_namespace (metadata x) = Some ns \<and> st (m_name (metadata x), ns) = Some x)"

definition untracked :: "string set \<Rightarrow> removal_slot_map \<Rightarrow> bool" where
  "untracked U m \<longleftrightarrow> (\<forall>s \<in> U. map_of m s = None)"

lemma modified_claims:
  assumes "instance_wf i" "set to_clean \<subseteq> set (slots_without_container node U i)"
    and "s \<in> set U" "slot_owner i s \<noteq> None"
  shows "map_of (modified_device_usage node (slots_missing_this_node_name node U i) to_clean i) s = Some node"
  using assms unused_iff [OF assms(1), of s node U] by (auto simp: slot_owner_modified missing_iff)

text \<open>\<open>claimed node U st k st'\<close>: the slots of \<open>U\<close> in the Instance stored at \<open>k\<close> belong to the node.\<close>

definition claimed :: "string \<Rightarrow> string set \<Rightarrow> inst_store \<Rightarrow> string \<times> string \<Rightarrow> inst_store \<Rightarrow> bool" where
  "claimed node U st k st' \<longleftrightarrow> (\<forall>x s. st k = Some x \<longrightarrow> s \<in> U \<longrightarrow> slot_owner (spec x) s \<noteq> None \<longrightarrow>
     (\<exists>x'. st' k = Some x' \<and> slot_owner (spec x') s = Some node))"

lemma claimed_patch:
  assumes "st (nm, ns) = Some x" "claimed node U st k cur \<or> k = (nm, ns) \<and> is_ok r"
    and "\<forall>s \<in> U. slot_owner (spec x) s \<noteq> None \<longrightarrow> slot_owner i' s = Some node"
    and "write_effect (patched i' nm ns) cur r cur'"
  shows "claimed node U st k cur'"
  using assms unfolding claimed_def write_effect_def patched_def by (cases "k = (nm, ns)") fastforce+

lemma claimed_already:
  assumes "reconciled node U st cur" "st k = Some x"
    and "\<And>s. s \<in> U \<Longrightarrow> slot_owner (spec x) s \<noteq> None \<Longrightarrow> slot_owner (spec x) s = Some node"
  shows "claimed node U st k cur"
  unfolding claimed_def
proof (intro allI impI, goal_cases)
  case (1 y s)
  from assms(1,2) obtain x' where x': "cur k = Some x'" "instance_change node U (spec x) (spec x')"
    unfolding reconciled_def by (metis option.rel_cases option.distinct(1) option.inject)
  from x'(2) have "slot_change node U s (slot_owner (spec x) s) (slot_owner (spec x') s)"
    by (simp add: instance_change_def)
  with 1 assms(2,3) x'(1) show ?case by (auto simp: slot_change_def)
qed

text \<open>What holds after an Instance is handled; \<open>Done\<close> are the keys claimed before.\<close>

definition pass_post :: "string \<Rightarrow> string set \<Rightarrow> inst_store \<Rightarrow> (string \<times> string) set \<Rightarrow> bool
    \<Rightarrow> (string \<times> string) set \<Rightarrow> (removal_slot_map, error) result \<Rightarrow> inst_store \<Rightarrow> bool" where
  "pass_post node U st Done reliable New r st' \<longleftrightarrow> reconciled node U st st'
     \<and> (\<forall>m'. r = Ok m' \<longrightarrow> untracked U m')
     \<and> (\<forall>k \<in> Done. claimed node U st k st')
     \<and> (reliable \<longrightarrow> is_ok r \<and> (\<forall>k \<in> New. claimed node U st k st'))"

context clocked_store
begin

lemma wp_reconcile_write:
  assumes rec: "reconciled node (set U) st (insts w)" and st: "st (nm, ns) = Some x"
    and wf: "instance_wf (spec x)" and m: "untracked (set U) m"
    and cl: "\<forall>k \<in> Done. claimed node (set U) st k (insts w)"
    and ok: "reliable \<Longrightarrow> reliable_store ki insts"
    and tc: "set tc \<subseteq> set (slots_without_container node U (spec x))"
    and new: "new = (spec x)\<lparr>device_usage := modified_device_usage node
      (slots_missing_this_node_name node U (spec x)) tc (spec x)\<rparr>"
  shows "wp (update_instance ki new nm ns) (\<lambda>r w'. pass_post node (set U) st Done reliable {(nm, ns)}
      (case r of Ok _ \<Rightarrow> Ok (remove_slots tc m) | Err e \<Rightarrow> Ok m | Panic p \<Rightarrow> Panic p) (insts w')) w"
proof -
  have cl_new: "\<forall>s \<in> set U. slot_owner (spec x) s \<noteq> None \<longrightarrow> slot_owner new s = Some node"
    using modified_claims [OF wf tc] by (simp add: new)
  have eff: "reconciled node (set U) st (insts w') \<and> (\<forall>k \<in> Done. claimed node (set U) st k (insts w'))
      \<and> (is_ok r \<longrightarrow> claimed node (set U) st (nm, ns) (insts w'))"
    if "write_effect (patched new nm ns) (insts w) r (insts w')" for r :: "(unit, error) result" and w'
    using reconciled_patch [OF rec st instance_change_modified [OF wf tc] _ that [unfolded new]]
      claimed_patch [where st = st and nm = nm and ns = ns, OF st _ cl_new that] cl
    by (auto simp: slot_owner_modified)
  have "wp (update_instance ki new nm ns) (\<lambda>r w'. reliable \<longrightarrow> is_ok r) w"
  proof (cases reliable)
    case True
    from rec st obtain y where "insts w (nm, ns) = Some y"
      unfolding reconciled_def by (metis option.rel_cases option.distinct(1))
    from reliable_store.update_instance_ok [OF ok [OF True] this] show ?thesis by (simp add: True)
  qed simp
  from wp_conj [THEN iffD2, OF conjI [OF this update_instance_law [of new nm ns w]]]
  show ?thesis
    by (rule wp_mono) (use eff m in \<open>auto split: result.splits simp: pass_post_def untracked_def remove_slots_get\<close>)
qed

lemma wp_reconcile_instance:
  assumes rec: "reconciled node (set U) st (insts w)" and x: "snapshot st x" and m: "untracked (set U) m"
    and cl: "\<forall>k \<in> Done. claimed node (set U) st k (insts w)"
    and ok: "reliable \<Longrightarrow> reliable_store ki insts"
  shows "wp (reconcile_instance node grace instant_now ki U x m) (\<lambda>r w'. pass_post node (set U) st Done
      reliable {(m_name (metadata x), the (m_namespace (metadata x)))} r (insts w')) w"
proof -
  from x obtain ns where wf: "instance_wf (spec x)" and ns: "m_namespace (metadata x) = Some ns"
    and st: "st (m_name (metadata x), ns) = Some x" by (auto simp: snapshot_def)
  let ?un = "slots_without_container node U (spec x)"
  have clock: "wp instant_now (\<lambda>n w''. True \<and> insts w'' = insts w) w'" if "insts w' = insts w" for w'
    using now_law [of w'] that by simp
  have keep: "untracked (set U) m'"
    if "\<forall>s. map_of m' s = map_of m s \<or> s \<in> set ?un \<and> map_of m s = None" for m'
    using m that unused_iff [OF wf] unfolding untracked_def by metis
  have idle: "pass_post node (set U) st Done reliable {(m_name (metadata x), ns)} (Ok m') (insts w')"
    if "insts w' = insts w" "untracked (set U) m'" "slots_missing_this_node_name node U (spec x) = []" for m' w'
    using claimed_already [OF rec st] missing_iff [OF wf, of _ node U] that rec cl by (auto simp: pass_post_def)
  show ?thesis
    unfolding reconcile_instance_def Let_def wp_bind
    by (rule wp_mono [OF wp_filter_expired [where J = "\<lambda>w'. insts w' = insts w", OF clock refl distinct_unused [OF wf]]])
       (use rec st wf cl ok in \<open>auto simp: ns keep intro!: wp_reconcile_write idle split: prod.splits\<close>)
qed

lemma wp_reconcile_instances:
  assumes "reconciled node (set U) st (insts w)" "\<forall>x \<in> set xs. snapshot st x" "untracked (set U) m"
    and "\<forall>k \<in> Done. claimed node (set U) st k (insts w)" and ok: "reliable \<Longrightarrow> reliable_store ki insts"
  shows "wp (reconcile_instances node grace instant_now ki U xs m) (\<lambda>r w'. pass_post node (set U) st Done
      reliable ((\<lambda>x. (m_name (metadata x), the (m_namespace (metadata x)))) ` set xs) r (insts w')) w"
  using assms(1-4)
proof (induction xs arbitrary: w m Done)
  case Nil
  then show ?case by (simp add: pass_post_def)
next
  case (Cons x xs)
  let ?k = "(m_name (metadata x), the (m_namespace (metadata x)))"
  show ?case
    unfolding reconcile_instances.simps wp_try_then
  proof (rule wp_mono [OF wp_reconcile_instance [where reliable = reliable and x = x,
        OF Cons.prems(1) _ Cons.prems(3,4) ok]], goal_cases)
    case (3 r w')
    show ?case
    proof (cases r)
      case (Ok m')
      with 3 have "reconciled node (set U) st (insts w')" "untracked (set U) m'"
        "\<forall>k \<in> Done \<union> (if reliable then {?k} else {}). claimed node (set U) st k (insts w')"
        by (auto simp: pass_post_def)
      from Cons.IH [OF this(1) _ this(2,3)] Cons.prems(2) show ?thesis
        by (auto simp: Ok elim!: wp_mono) (auto simp: pass_post_def split: if_splits)
    qed (use 3 in \<open>auto simp: pass_post_def\<close>)
  qed (use Cons.prems in auto)
qed

end

section \<open>Properties\<close>

lemma ran_snapshot:
  assumes "kube_store ki insts" "\<forall>x \<in> ran (insts w). instance_wf (spec x)" "x \<in> ran (insts w)"
  shows "snapshot (insts w) x"
proof -
  from assms(3) obtain nm ns where x: "insts w (nm, ns) = Some x" by (auto simp: ran_def)
  with kube_store.insts_named [OF assms(1) this] assms(2,3) show ?thesis
    by (auto simp: snapshot_def stored_as_def)
qed

text \<open>The pass after a successful query, on a store that may or may not be reliable.\<close>

context clocked_store
begin

lemma wp_reconcile:
  assumes wf: "\<forall>x \<in> ran (insts w). instance_wf (spec x)"
    and rel: "reliable \<Longrightarrow> reliable_store ki insts"
    and ready: "reliable \<Longrightarrow> wp (get_instances ki) (\<lambda>_. wp (find_pods_with_field ki (node_field_selector node))
       (\<lambda>r _. \<exists>ps. r = Ok ps \<and> \<not> list_ex unready ps)) w"
  shows "wp (reconcile node grace instant_now (return (Ok usage)) ki m) (\<lambda>r w'.
     pass_post node (set usage) (insts w) {} reliable (dom (insts w)) r (insts w')) w"
proof -
  define Q where "Q r w' \<longleftrightarrow> pass_post node (set usage) (insts w) {} reliable (dom (insts w)) r (insts w')"
    for r w'
  have m: "untracked (set usage) (remove_slots usage m)" by (simp add: untracked_def remove_slots_get)
  have quiet: "insts w' = insts w \<Longrightarrow> \<not> reliable \<Longrightarrow> Q (Ok (remove_slots usage m)) w'"
    "insts w' = insts w \<Longrightarrow> \<not> reliable \<Longrightarrow> Q (Panic p) w'" for w' p
    using m by (simp_all add: Q_def pass_post_def reconciled_refl)
  have gi: "wp (get_instances ki) (\<lambda>r w1. (insts w1 = insts w \<and> (\<forall>xs. r = Ok xs \<longrightarrow> set xs = ran (insts w)))
      \<and> (reliable \<longrightarrow> is_ok r) \<and> (reliable \<longrightarrow> wp (find_pods_with_field ki (node_field_selector node))
          (\<lambda>r _. \<exists>ps. r = Ok ps \<and> \<not> list_ex unready ps) w1)) w"
    using get_instances_law rel ready by (cases reliable) (auto simp: wp_conj dest: reliable_store.get_instances_ok)
  have fp: "wp (find_pods_with_field ki (node_field_selector node)) (\<lambda>r w2. insts w2 = insts w1
      \<and> (reliable \<longrightarrow> (\<exists>ps. r = Ok ps \<and> \<not> list_ex unready ps))) w1"
    if "reliable \<longrightarrow> wp (find_pods_with_field ki (node_field_selector node))
          (\<lambda>r _. \<exists>ps. r = Ok ps \<and> \<not> list_ex unready ps) w1" for w1
    using find_pods_with_field_law that by (cases reliable) (auto simp: wp_conj)
  have loop: "wp (reconcile_instances node grace instant_now ki usage xs (remove_slots usage m)) Q w2"
    if "set xs = ran (insts w)" "insts w2 = insts w" for xs w2
  proof -
    have snap: "\<forall>x \<in> set xs. snapshot (insts w) x"
      using ran_snapshot [OF kube_store_axioms wf] that by simp
    have keys: "dom (insts w) \<subseteq> (\<lambda>x. (m_name (metadata x), the (m_namespace (metadata x)))) ` set xs"
      using that(1) insts_named [of w] by (force simp: ran_def stored_as_def)
    have "reconciled node (set usage) (insts w) (insts w2)" by (simp add: that reconciled_refl)
    from wp_reconcile_instances [where reliable = reliable and Done = "{}", OF this snap m _ rel]
    show ?thesis by (rule wp_mono) (use keys in \<open>auto simp: Q_def pass_post_def\<close>)
  qed
  show ?thesis
    unfolding reconcile_def Let_def wp_bind wp_return result.case Q_def [symmetric]
    by (rule wp_mono [OF gi])
       (auto split: result.splits intro!: quiet loop wp_mono [OF fp])
qed

end

text \<open>
  C5: Safety of slot reconciliation, on every store that keeps the contract and whether or not
  its calls succeed. After a pass with the slots \<open>usage\<close> in use on the node, every slot
  of every Instance is unchanged, or taken over by the node because it is in use there, or
  freed because the node held it and it is not in use; a slot that another node holds and
  no container of this node uses is never touched, and no other field of an Instance
  changes. No slot in use stays on the list of slots to be freed.
\<close>

theorem reconcile_safe:
  assumes "clocked_store ki insts now" and "\<forall>x \<in> ran (insts w). instance_wf (spec x)"
    and "run_state (reconcile node grace now (return (Ok usage)) ki m) w = (r, w')"
  shows "reconciled node (set usage) (insts w) (insts w') \<and> (\<forall>m'. r = Ok m' \<longrightarrow> untracked (set usage) m')"
  using wp_run [OF clocked_store.wp_reconcile [where reliable = False, OF assms(1,2)] assms(3)]
  by (simp add: pass_post_def)

theorem reconcile_safe_witness:
  "\<exists>r w'. run_state (reconcile ''node-a'' 300 cluster_now (return (Ok [''cam-0''])) cluster_kube [])
      sample_cluster = (r, w')
    \<and> reconciled ''node-a'' {''cam-0''} (cluster_insts sample_cluster) (cluster_insts w')"
proof -
  obtain r w' where run: "run_state (reconcile ''node-a'' 300 cluster_now (return (Ok [''cam-0'']))
      cluster_kube []) sample_cluster = (r, w')" by (cases "run_state (reconcile ''node-a'' 300 cluster_now
      (return (Ok [''cam-0''])) cluster_kube []) sample_cluster")
  from reconcile_safe [OF cluster_clock.clocked_store_axioms sample_wf run] run show ?thesis by auto
qed

text \<open>
  C39: Slot reconciliation repairs lost allocations: when the cluster answers and the node's Pods
  are ready, the pass succeeds and afterwards every slot that a container of the node uses
  is held by the node, in whatever Instance it is.
\<close>

theorem reconcile_claims:
  assumes "reliable_clocked_store ki insts now" and "\<forall>x \<in> ran (insts w). instance_wf (spec x)"
    and "wp (get_instances ki) (\<lambda>_. wp (find_pods_with_field ki (node_field_selector node))
       (\<lambda>r _. \<exists>ps. r = Ok ps \<and> \<not> list_ex unready ps)) w"
    and "run_state (reconcile node grace now (return (Ok usage)) ki m) w = (r, w')"
    and "insts w k = Some x" "s \<in> set usage" "slot_owner (spec x) s \<noteq> None"
  shows "is_ok r \<and> (\<exists>x'. insts w' k = Some x' \<and> slot_owner (spec x') s = Some node)"
proof -
  have c: "clocked_store ki insts now" and rel: "reliable_store ki insts"
    using assms(1) by (simp_all add: reliable_clocked_store_def)
  from wp_run [OF clocked_store.wp_reconcile [where reliable = True, OF c assms(2) rel assms(3)] assms(4)]
  have "is_ok r" "claimed node (set usage) (insts w) k (insts w')"
    using assms(5) by (auto simp: pass_post_def)
  then show ?thesis using assms(5-7) by (auto simp: claimed_def)
qed

theorem reconcile_claims_witness:
  "\<exists>r w' x'. run_state (reconcile ''node-b'' 300 cluster_now (return (Ok [''cam-0''])) cluster_kube [])
      sample_cluster = (r, w')
    \<and> is_ok r \<and> cluster_insts w' (''cam'', ''ns'') = Some x' \<and> slot_owner (spec x') ''cam-0'' = Some ''node-b''"
proof -
  obtain r w' where run: "run_state (reconcile ''node-b'' 300 cluster_now (return (Ok [''cam-0'']))
      cluster_kube []) sample_cluster = (r, w')" by (cases "run_state (reconcile ''node-b'' 300 cluster_now
      (return (Ok [''cam-0''])) cluster_kube []) sample_cluster")
  have ready: "wp (get_instances cluster_kube) (\<lambda>_. wp (find_pods_with_field cluster_kube
      (node_field_selector ''node-b'')) (\<lambda>r _. \<exists>ps. r = Ok ps \<and> \<not> list_ex unready ps)) sample_cluster"
    by (simp add: instance_get_instances_def find_pods_with_selector_def wp_api_call cluster_list_def
        sample_cluster_def typed_api_def instance_resource_def configuration_resource_def listed_def)
  from reconcile_claims [OF cluster_clock.reliable_clocked_store_axioms sample_wf ready run,
      of "(''cam'', ''ns'')" sample_object "''cam-0''"] run show ?thesis by (auto simp: sample_insts sample_instance_def)
qed

text \<open>
  C7: The grace period. On a clock that reads at most \<open>T\<close> during the pass, an Instance's slot
  that the node held is freed only if it had been on the list of unused slots since more
  than the grace period before \<open>T\<close>.
\<close>

theorem reconcile_grace_period:
  assumes "kube_store ki insts" and now: "\<forall>w1. wp now (\<lambda>t w2. t \<le> T \<and> insts w2 = insts w1) w1"
    and x: "snapshot (insts w) x" "m_namespace (metadata x) = Some ns" and "node \<noteq> ''''"
    and "run_state (reconcile_instance node grace now ki usage x m) w = (r, w')"
    and "slot_owner (spec x) s = Some node"
    and "insts w' (m_name (metadata x), ns) = Some x'" "slot_owner (spec x') s = Some ''''"
  shows "s \<notin> set usage \<and> (\<exists>t. map_of m s = Some t \<and> t + grace < T)"
proof -
  let ?nm = "m_name (metadata x)"
  let ?un = "slots_without_container node usage (spec x)"
  let ?Q = "\<lambda>w'. \<forall>x'. insts w' (?nm, ns) = Some x' \<longrightarrow> slot_owner (spec x') s = Some '''' \<longrightarrow>
      s \<notin> set usage \<and> (\<exists>t. map_of m s = Some t \<and> t + grace < T)"
  from x have wf: "instance_wf (spec x)" and st: "insts w (?nm, ns) = Some x" by (auto simp: snapshot_def)
  have clock: "wp now (\<lambda>t w2. t \<le> T \<and> insts w2 = insts w) w1" if "insts w1 = insts w" for w1
    using now [rule_format, of w1] that by simp
  have same: "?Q w1" if "insts w1 = insts w" for w1
    using that st assms(5,7) by simp
  have wr: "?Q w2"
    if eff: "write_effect (patched ((spec x)\<lparr>device_usage := modified_device_usage node
        (slots_missing_this_node_name node usage (spec x)) tc (spec x)\<rparr>) ?nm ns) (insts w) e (insts w2)"
      and tc: "set tc \<subseteq> {s \<in> set ?un. overdue (\<lambda>t. t \<le> T) grace m s}"
    for w2 tc and e :: "(unit, error) result"
    using that same [of w2] st assms(5,7) unused_iff [OF wf, of s node usage]
    by (auto simp: write_effect_def patched_def slot_owner_modified missing_iff [OF wf] overdue_def
        split: if_splits)
  have "wp (reconcile_instance node grace now ki usage x m) (\<lambda>_. ?Q) w"
    unfolding reconcile_instance_def Let_def wp_bind
    by (rule wp_mono [OF wp_filter_expired [where J = "\<lambda>w1. insts w1 = insts w", OF clock refl distinct_unused [OF wf]]])
       (auto simp: x(2) same intro!: wp_mono [OF kube_store.update_instance_law [OF assms(1)]]
         dest!: wr split: prod.splits)
  from wp_run [OF this assms(6)] assms(8,9) show ?thesis by blast
qed

theorem reconcile_grace_period_witness:
  "\<exists>r w' x'. run_state (reconcile_instance ''node-a'' 300 (return 1000) cluster_kube [] sample_object
      [(''cam-1'', 100)]) sample_cluster = (r, w')
    \<and> cluster_insts w' (''cam'', ''ns'') = Some x' \<and> slot_owner (spec x') ''cam-1'' = Some ''''
    \<and> (\<exists>t. map_of [(''cam-1'', 100)] ''cam-1'' = Some t \<and> t + 300 < (1000 :: nat))"
proof -
  have now: "\<forall>w1. wp (return (1000 :: nat)) (\<lambda>t w2. t \<le> 1000 \<and> cluster_insts w2 = cluster_insts w1) w1" by simp
  have snap: "snapshot (cluster_insts sample_cluster) sample_object"
    by (simp add: snapshot_def sample_insts instance_wf_def sample_instance_def)
  let ?run = "run_state (reconcile_instance ''node-a'' 300 (return 1000) cluster_kube [] sample_object
      [(''cam-1'', 100)]) sample_cluster"
  obtain r w' where run: "?run = (r, w')" by (cases ?run)
  have "map_option (\<lambda>x'. slot_owner (spec x') ''cam-1'') (cluster_insts (snd ?run) (''cam'', ''ns'')) = Some (Some '''')"
    by code_simp
  then obtain x' where x': "cluster_insts w' (''cam'', ''ns'') = Some x'" "slot_owner (spec x') ''cam-1'' = Some ''''"
    unfolding run by auto
  have "''node-a'' \<noteq> ''''" "slot_owner (spec sample_object) ''cam-1'' = Some ''node-a''"
    by (simp_all add: sample_instance_def)
  from reconcile_grace_period [OF cluster.impl.kube_store_axioms now snap _ this(1) run this(2)] x' run
  show ?thesis by auto
qed

text \<open>
  What the node's containers use, on every branch of the query: a failed call is an error
  (so that the pass ends without freeing anything), a successful one yields exactly the
  slot annotations of the listed containers. An output that does not parse, however, is
  reported as a node without containers.
\<close>

theorem get_node_slots_spec:
  assumes "run_state (run_command (crictl_path q) [''--runtime-endpoint'', runtime_endpoint q,
      ''--image-endpoint'', image_endpoint q, ''ps'', ''-v'', ''--output'', ''json'']) w = (out, w1)"
  shows "\<exists>r. run_state (get_node_slots run_command from_str q) w = (r, w1)
    \<and> (is_ok r \<longleftrightarrow> (\<exists>o'. out = Ok o' \<and> success o'))
    \<and> (\<forall>o' usage parsed. out = Ok o' \<longrightarrow> from_str (stdout o') = Ok parsed \<longrightarrow> r = Ok usage \<longrightarrow>
         set usage = {s. \<exists>c \<in> set (cri_containers parsed).
            map_of (annotations c) AKRI_SLOT_ANNOTATION_NAME = Some s})
    \<and> (\<forall>o' e. out = Ok o' \<longrightarrow> success o' \<longrightarrow> from_str (stdout o') = Err e \<longrightarrow> r = Ok [])"
  using assms
  by (auto simp: get_node_slots_def get_container_slot_usage_def List.map_filter_def
      split: result.split) force+

theorem get_node_slots_spec_witness:
  "\<exists>r. run_state (get_node_slots (\<lambda>_ _. return (Ok \<lparr>success = True, stdout = ''garbage'', stderr = ''''\<rparr>))
       (\<lambda>_. Err ''expected value'') \<lparr>crictl_path = ''crictl'', runtime_endpoint = '''', image_endpoint = ''''\<rparr>) ()
     = (r, ()) \<and> r = Ok []"
  using get_node_slots_spec [of "\<lambda>_ _. return (Ok \<lparr>success = True, stdout = ''garbage'', stderr = ''''\<rparr>)"
      "\<lparr>crictl_path = ''crictl'', runtime_endpoint = '''', image_endpoint = ''''\<rparr>" "()"
      "Ok \<lparr>success = True, stdout = ''garbage'', stderr = ''''\<rparr>" "()" "\<lambda>_. Err ''expected value''"]
  by auto

end
