(* ===== verification/Discovery.thy ===== *)
theory Discovery
  imports Akri_Types
begin

text \<open>
  \<open>agent/src/protocols/mod.rs\<close> and \<open>debug_echo/discovery_handler.rs\<close>: what discovery
  returns, the interface of the discovery handlers, and the choice of the handler for a
  Configuration. The hash function (crate \<open>blake2\<close>) and the environment of the process are
  parameters, and so are the handlers for ONVIF, udev and OPC UA.
\<close>

section \<open>Discovery results\<close>

record DiscoveryResult =
  digest :: string
  dr_properties :: "(string, string) hashmap"

text \<open>\<open>format!("{:02x}", num)\<close> of a byte.\<close>

definition hex_digit :: "nat \<Rightarrow> char" where
  "hex_digit d = (if d < 10 then char_of (48 + d) else char_of (87 + d))"

definition hex_byte :: "nat \<Rightarrow> string" where
  "hex_byte b = [hex_digit (b div 16), hex_digit (b mod 16)]"

text \<open>\<open>blake2b_3\<close> is \<open>VarBlake2b\<close> with three bytes of output, \<open>node_name\<close> is \<open>AGENT_NODE_NAME\<close>.\<close>

definition DiscoveryResult_new :: "(string \<Rightarrow> nat list) \<Rightarrow> string option \<Rightarrow> string \<Rightarrow> (string, string) hashmap
    \<Rightarrow> bool \<Rightarrow> (DiscoveryResult, error) result" where
  "DiscoveryResult_new blake2b_3 node_name id_to_digest props is_shared =
     (case (if is_shared then Ok id_to_digest
            else case unwrap node_name of Ok n \<Rightarrow> Ok (id_to_digest @ n) | Err e \<Rightarrow> Err e | Panic p \<Rightarrow> Panic p) of
        Ok input \<Rightarrow> Ok \<lparr>digest = concat (map hex_byte (blake2b_3 input)), dr_properties = props\<rparr>
      | Err e \<Rightarrow> Err e
      | Panic p \<Rightarrow> Panic p)"

section \<open>Handlers\<close>

record 'w discovery_handler =
  discover :: "('w, DiscoveryResult list) io"
  are_shared :: "(bool, error) result"

definition OFFLINE :: string where "OFFLINE = ''OFFLINE''"
definition DEBUG_ECHO_AVAILABILITY_CHECK_PATH :: string where
  "DEBUG_ECHO_AVAILABILITY_CHECK_PATH = ''/tmp/debug-echo-availability.txt''"

text \<open>\<open>str::contains\<close>\<close>

definition contains_str :: "string \<Rightarrow> string \<Rightarrow> bool" where
  "contains_str s p = list_ex (\<lambda>i. take (length p) (drop i s) = p) [0..<Suc (length s)]"

fun collect_results :: "('a, error) result list \<Rightarrow> ('a list, error) result" where
  "collect_results [] = Ok []"
| "collect_results (Ok a # rs) = (case collect_results rs of Ok as \<Rightarrow> Ok (a # as) | other \<Rightarrow> other)"
| "collect_results (Err e # rs) = Err e"
| "collect_results (Panic p # rs) = Panic p"

definition debug_echo_discover :: "(string \<Rightarrow> ('w, string) io) \<Rightarrow> (string \<Rightarrow> nat list) \<Rightarrow> string option
    \<Rightarrow> DebugEchoDiscoveryHandlerConfig \<Rightarrow> ('w, DiscoveryResult list) io" where
  "debug_echo_discover read_to_string blake2b_3 node_name cfg = do {
     r \<leftarrow> read_to_string DEBUG_ECHO_AVAILABILITY_CHECK_PATH;
     let availability = (case r of Ok s \<Rightarrow> s | _ \<Rightarrow> '''');
     return (if contains_str availability OFFLINE then Ok []
       else collect_results (map (\<lambda>description.
              DiscoveryResult_new blake2b_3 node_name description [] (de_shared cfg)) (descriptions cfg)))
   }"

definition DebugEchoDiscoveryHandler :: "(string \<Rightarrow> ('w, string) io) \<Rightarrow> (string \<Rightarrow> nat list) \<Rightarrow> string option
    \<Rightarrow> DebugEchoDiscoveryHandlerConfig \<Rightarrow> 'w discovery_handler" where
  "DebugEchoDiscoveryHandler read_to_string blake2b_3 node_name cfg =
     \<lparr>discover = debug_echo_discover read_to_string blake2b_3 node_name cfg, are_shared = Ok (de_shared cfg)\<rparr>"

text \<open>
  The choice of the handler, with every handler of the default build. \<open>get_env_var\<close> is the
  query of the process environment.
\<close>

definition inner_get_discovery_handler ::
  "(OnvifDiscoveryHandlerConfig \<Rightarrow> 'w discovery_handler) \<Rightarrow> (UdevDiscoveryHandlerConfig \<Rightarrow> 'w discovery_handler)
   \<Rightarrow> (OpcuaDiscoveryHandlerConfig \<Rightarrow> 'w discovery_handler) \<Rightarrow> (DebugEchoDiscoveryHandlerConfig \<Rightarrow> 'w discovery_handler)
   \<Rightarrow> (string \<Rightarrow> string option) \<Rightarrow> ProtocolHandler \<Rightarrow> ('w discovery_handler, error) result" where
  "inner_get_discovery_handler onvif_new udev_new opcua_new debug_echo_new get_env_var discovery_handler_config =
     (case discovery_handler_config of
        onvif c \<Rightarrow> Ok (onvif_new c)
      | udev c \<Rightarrow> Ok (udev_new c)
      | opcua c \<Rightarrow> Ok (opcua_new c)
      | debugEcho dbg \<Rightarrow> (case get_env_var ''ENABLE_DEBUG_ECHO'' of
            Some _ \<Rightarrow> Ok (debug_echo_new dbg)
          | None \<Rightarrow> Err (Msg ''No protocol configured'')))"

section \<open>Digests\<close>

lemma hex_digit_inj: "a < 16 \<Longrightarrow> b < 16 \<Longrightarrow> hex_digit a = hex_digit b \<Longrightarrow> a = b"
proof -
  assume ab: "a < 16" "b < 16" "hex_digit a = hex_digit b"
  then have "(of_char (hex_digit a) :: nat) = of_char (hex_digit b)" by simp
  with ab show "a = b" by (auto simp: hex_digit_def split: if_splits)
qed

lemma hex_byte_inj: "a < 256 \<Longrightarrow> b < 256 \<Longrightarrow> hex_byte a = hex_byte b \<Longrightarrow> a = b"
proof -
  assume "a < 256" "b < 256" "hex_byte a = hex_byte b"
  then have "a div 16 = b div 16" "a mod 16 = b mod 16"
    by (auto simp: hex_byte_def intro!: hex_digit_inj)
  then show "a = b" by (metis div_mult_mod_eq)
qed

lemma hex_bytes_inj: "length as = length bs \<Longrightarrow> list_all (\<lambda>b. b < 256) as \<Longrightarrow> list_all (\<lambda>b. b < 256) bs \<Longrightarrow>
    concat (map hex_byte as) = concat (map hex_byte bs) \<Longrightarrow> as = bs"
proof (induction as bs rule: list_induct2)
  case (Cons a as b bs)
  have len: "length (hex_byte x) = 2" for x by (simp add: hex_byte_def)
  from Cons.prems(3) have "hex_byte a = hex_byte b" "concat (map hex_byte as) = concat (map hex_byte bs)"
    by (auto simp: append_eq_append_conv len)
  with Cons show ?case by (auto dest: hex_byte_inj)
qed simp

text \<open>
  Two devices of a node get the same digest only if their hashes agree: the digest is the
  six-digit hexadecimal form of the three bytes of the hash, which loses nothing. What is
  hashed is the device's identity, followed by the node's name for a device that is not
  shared, so that two nodes name their own devices apart.
\<close>

theorem digest_identifies_hash:
  assumes "DiscoveryResult_new h n1 id1 p1 sh1 = Ok d1" "DiscoveryResult_new h n2 id2 p2 sh2 = Ok d2"
    and "\<forall>s. length (h s) = 3 \<and> list_all (\<lambda>b. b < 256) (h s)"
  shows "length (digest d1) = 6
    \<and> (digest d1 = digest d2 \<longleftrightarrow> h (if sh1 then id1 else id1 @ the n1) = h (if sh2 then id2 else id2 @ the n2))"
proof -
  let ?i1 = "if sh1 then id1 else id1 @ the n1" and ?i2 = "if sh2 then id2 else id2 @ the n2"
  have d: "digest d1 = concat (map hex_byte (h ?i1))" "digest d2 = concat (map hex_byte (h ?i2))"
    using assms(1,2) by (auto simp: DiscoveryResult_new_def split: if_splits result.splits)
  have "length (concat (map hex_byte bs)) = 2 * length bs" for bs
    by (induction bs) (auto simp: hex_byte_def)
  then show ?thesis using assms(3) d by (auto intro: hex_bytes_inj)
qed

theorem digest_identifies_hash_witness:
  "\<exists>d1 d2. DiscoveryResult_new (\<lambda>s. [length s mod 256, 1, 2]) None ''a'' [] True = Ok d1
    \<and> DiscoveryResult_new (\<lambda>s. [length s mod 256, 1, 2]) (Some ''node-a'') ''a'' [] False = Ok d2
    \<and> length (digest d1) = 6 \<and> digest d1 \<noteq> digest d2"
proof -
  let ?h = "\<lambda>s :: string. [length s mod 256, 1, 2]"
  obtain d1 d2 where d: "DiscoveryResult_new ?h None ''a'' [] True = Ok d1"
      "DiscoveryResult_new ?h (Some ''node-a'') ''a'' [] False = Ok d2"
    by (simp add: DiscoveryResult_new_def)
  have h: "\<forall>s. length (?h s) = 3 \<and> list_all (\<lambda>b. b < 256) (?h s)" by simp
  from digest_identifies_hash [OF d h] d show ?thesis by auto
qed

section \<open>What a filter lets pass\<close>

text \<open>Without a filter everything passes; otherwise what is listed passes if the list includes, and the rest if it excludes.\<close>

definition passes :: "FilterList option \<Rightarrow> string \<Rightarrow> bool" where
  "passes filter_list item \<longleftrightarrow> (\<forall>fl. filter_list = Some fl \<longrightarrow> (action fl = Include \<longleftrightarrow> item \<in> set (items fl)))"

lemma should_include_passes: "should_include filter_list item = passes filter_list item"
  by (auto simp: should_include_def passes_def split: option.split)

end
