(* ===== verification/Config_Action.thy ===== *)
theory Config_Action
  imports Device_Plugin Discovery
begin

text \<open>
  \<open>agent/src/util/config_action.rs\<close>: the Agent's reaction to Configurations. For each one it
  discovers devices periodically, keeps the connectivity status of every Instance on the
  Configuration's instance map, starts device plugins for new devices, and shuts down what
  belongs to a deleted Configuration. \<open>config_rt\<close> is what tokio provides: mutexes, channels
  and tasks.
\<close>

section \<open>Data\<close>

type_synonym handle = nat

record ConfigInfo =
  ci_instance_map :: handle
  stop_discovery_sender :: sender
  finished_discovery_sender :: sender

type_synonym ConfigMap = "(string, ConfigInfo) hashmap"

record PeriodicDiscovery =
  pd_config_name :: string
  pd_config_uid :: string
  pd_config_namespace :: string
  pd_config_spec :: Configuration
  pd_config_protocol :: ProtocolHandler
  pd_instance_map :: handle

text \<open>
  \<open>map_rt h\<close> is the runtime around the instance map with handle \<open>h\<close>; \<open>stop_recv\<close> is
  \<open>timeout(.., stop_discovery_receiver.recv()).is_ok()\<close>; \<open>spawn_add\<close> starts a task that runs
  \<open>handle_config_add\<close> and unwraps its result. The last three are the metrics: the timer of
  \<open>DISCOVERY_RESPONSE_TIME_METRIC\<close> for a Configuration, and \<open>INSTANCE_COUNT_METRIC\<close> set for a
  Configuration and whether its devices are shared.
\<close>

record 'w config_rt =
  lock_configs :: "('w, ConfigMap) state"
  store_configs :: "ConfigMap \<Rightarrow> ('w, unit) state"
  map_rt :: "handle \<Rightarrow> 'w dps_rt"
  new_instance_map :: "('w, handle) state"
  new_discovery_channels :: "('w, sender \<times> sender) state"
  stop_send :: "sender \<Rightarrow> ('w, unit) io"
  stop_recv :: "sender \<Rightarrow> nat \<Rightarrow> ('w, bool) state"
  finished_subscribe :: "sender \<Rightarrow> ('w, handle) state"
  finished_recv :: "handle \<Rightarrow> ('w, unit) io"
  finished_send :: "sender \<Rightarrow> ('w, unit) io"
  rt_now :: "('w, nat) state"
  spawn_add :: "KubeAkriConfig \<Rightarrow> ('w, unit) state"
  spawn_watch :: "('w, unit) state"
  join_all :: "('w, unit) io"
  start_timer :: "string \<Rightarrow> ('w, handle) state"
  observe_duration :: "handle \<Rightarrow> ('w, unit) state"
  instance_count_set :: "string \<Rightarrow> bool \<Rightarrow> nat \<Rightarrow> ('w, unit) state"

section \<open>Deleting an Instance\<close>

definition try_delete_instance :: "'w kube_interface \<Rightarrow> string \<Rightarrow> string \<Rightarrow> ('w, unit) io" where
  "try_delete_instance kube_interface instance_name instance_namespace = do {
     d \<leftarrow> delete_instance kube_interface instance_name instance_namespace;
     case d of
       Ok _ \<Rightarrow> return (Ok ())
     | Panic p \<Rightarrow> return (Panic p)
     | Err e \<Rightarrow> do {
         f \<leftarrow> find_instance kube_interface instance_name instance_namespace;
         return (case f of Err _ \<Rightarrow> Ok () | Ok _ \<Rightarrow> Err e | Panic p \<Rightarrow> Panic p)
       }
   }"

section \<open>Connectivity\<close>

text \<open>The body of the loop for one entry of the (cloned) instance map.\<close>

definition update_entry :: "'w dps_rt \<Rightarrow> ('w, nat) state \<Rightarrow> 'w kube_interface \<Rightarrow> string
    \<Rightarrow> (string, DiscoveryResult) hashmap \<Rightarrow> bool \<Rightarrow> string \<times> InstanceInfo \<Rightarrow> ('w, unit) io" where
  "update_entry rt now kube_interface config_namespace currently_visible_instances is_shared entry =
     (let (inst, instance_info) = entry
      in if hm_contains currently_visible_instances inst then
           (case connectivity_status instance_info of
              Offline _ \<Rightarrow> do {
                m \<leftarrow> lock_map rt;
                _ \<leftarrow> store_map rt (hm_insert inst (instance_info\<lparr>connectivity_status := Online\<rparr>) m);
                unwrapped (broadcast_send rt (list_and_watch_message_sender instance_info) Continue)
              }
            | Online \<Rightarrow> return (Ok ()))
         else
           (case connectivity_status instance_info of
              Online \<Rightarrow> do {
                t \<leftarrow> now;
                m \<leftarrow> lock_map rt;
                _ \<leftarrow> store_map rt (hm_insert inst (instance_info\<lparr>connectivity_status := Offline t\<rparr>) m);
                unwrapped (broadcast_send rt (list_and_watch_message_sender instance_info) Continue)
              }
            | Offline since \<Rightarrow> do {
                t \<leftarrow> now;
                let time_offline = as_secs (t - since);
                if \<not> is_shared \<or> SHARED_INSTANCE_OFFLINE_GRACE_PERIOD_SECS \<le> time_offline then
                  try_then (terminate_device_plugin_service rt inst) (\<lambda>_.
                    try_delete_instance kube_interface inst config_namespace)
                else return (Ok ())
              }))"

definition update_connectivity_status :: "'w dps_rt \<Rightarrow> ('w, nat) state \<Rightarrow> 'w kube_interface \<Rightarrow> string
    \<Rightarrow> (string, DiscoveryResult) hashmap \<Rightarrow> bool \<Rightarrow> ('w, DiscoveryResult list) io" where
  "update_connectivity_status rt now kube_interface config_namespace currently_visible_instances is_shared = do {
     instance_map_clone \<leftarrow> lock_map rt;
     let new_discovery_results = map snd (filter (\<lambda>(name, _). \<not> hm_contains instance_map_clone name)
           currently_visible_instances);
     try_then (try_for instance_map_clone
         (update_entry rt now kube_interface config_namespace currently_visible_instances is_shared))
       (\<lambda>_. return (Ok new_discovery_results))
   }"

section \<open>Periodic discovery\<close>

definition visible_instances :: "string \<Rightarrow> DiscoveryResult list \<Rightarrow> (string, DiscoveryResult) hashmap" where
  "visible_instances config_name discovery_results =
     hm_collect (map (\<lambda>d. (get_device_instance_name (digest d) config_name, d)) discovery_results)"

text \<open>A failure to build a device plugin is logged; the next iteration tries again.\<close>

fun build_device_plugins :: "'w serve_rt \<Rightarrow> nat \<Rightarrow> PeriodicDiscovery \<Rightarrow> bool \<Rightarrow> string
    \<Rightarrow> DiscoveryResult list \<Rightarrow> ('w, unit) io" where
  "build_device_plugins os n self is_shared device_plugin_path [] = return (Ok ())"
| "build_device_plugins os n self is_shared device_plugin_path (d # ds) = do {
     r \<leftarrow> build_device_plugin os n (get_device_instance_name (digest d) (pd_config_name self))
            (pd_config_name self) (pd_config_uid self) (pd_config_namespace self) (pd_config_spec self)
            is_shared (dr_properties d) device_plugin_path;
     case r of
       Panic p \<Rightarrow> return (Panic p)
     | _ \<Rightarrow> build_device_plugins os n self is_shared device_plugin_path ds
   }"

text \<open>
  The loop, for at most \<open>fuel\<close> iterations: \<open>Ok True\<close> when it was told to stop, \<open>Ok False\<close>
  when it is still running.
\<close>

fun periodic_discovery_loop :: "'w config_rt \<Rightarrow> 'w serve_rt \<Rightarrow> 'w kube_interface \<Rightarrow> PeriodicDiscovery
    \<Rightarrow> 'w discovery_handler \<Rightarrow> bool \<Rightarrow> sender \<Rightarrow> sender \<Rightarrow> string \<Rightarrow> nat \<Rightarrow> ('w, bool) io" where
  "periodic_discovery_loop rt os ki self proto is_shared stop finished path 0 = return (Ok False)"
| "periodic_discovery_loop rt os ki self proto is_shared stop finished path (Suc fuel) = do {
     timer \<leftarrow> start_timer rt (pd_config_name self);
     try_then (discover proto) (\<lambda>discovery_results. do {
       _ \<leftarrow> observe_duration rt timer;
       let currently_visible_instances = visible_instances (pd_config_name self) discovery_results;
       _ \<leftarrow> instance_count_set rt (pd_config_name self) is_shared (length currently_visible_instances);
       try_then (update_connectivity_status (map_rt rt (pd_instance_map self)) (rt_now rt) ki
           (pd_config_namespace self) currently_visible_instances is_shared)
         (\<lambda>new_discovery_results.
           try_then (build_device_plugins os 11 self is_shared path new_discovery_results) (\<lambda>_. do {
             stopped \<leftarrow> stop_recv rt stop (from_secs DISCOVERY_DELAY_SECS);
             if stopped then try_then (unwrapped (finished_send rt finished)) (\<lambda>_. return (Ok True))
             else periodic_discovery_loop rt os ki self proto is_shared stop finished path fuel
           }))
     })
   }"

definition do_periodic_discovery :: "(ProtocolHandler \<Rightarrow> ('w discovery_handler, error) result)
    \<Rightarrow> 'w config_rt \<Rightarrow> 'w serve_rt \<Rightarrow> 'w kube_interface \<Rightarrow> PeriodicDiscovery \<Rightarrow> sender \<Rightarrow> sender \<Rightarrow> string \<Rightarrow> nat
    \<Rightarrow> ('w, bool) io" where
  "do_periodic_discovery get_discovery_handler rt os kube_interface self stop_discovery_receiver
     finished device_plugin_path fuel =
     try_then (return (get_discovery_handler (pd_config_protocol self))) (\<lambda>proto.
       try_then (return (are_shared proto)) (\<lambda>is_shared.
         periodic_discovery_loop rt os kube_interface self proto is_shared stop_discovery_receiver
           finished device_plugin_path fuel))"

section \<open>Added and deleted Configurations\<close>

text \<open>
  Awaiting a task that panicked is a join error. \<open>fuel\<close> bounds the iterations of periodic
  discovery as above.
\<close>

definition handle_config_add :: "(ProtocolHandler \<Rightarrow> ('w discovery_handler, error) result)
    \<Rightarrow> 'w config_rt \<Rightarrow> 'w serve_rt \<Rightarrow> 'w kube_interface \<Rightarrow> KubeAkriConfig \<Rightarrow> nat \<Rightarrow> ('w, unit) io" where
  "handle_config_add get_discovery_handler rt os kube_interface config fuel =
     try_then (return (get_discovery_handler (protocol (spec config)))) (\<lambda>discovery_handler.
     try_then (discover discovery_handler) (\<lambda>discovery_results.
     try_then (return (unwrap (m_uid (metadata config)))) (\<lambda>config_uid.
     try_then (return (unwrap (m_namespace (metadata config)))) (\<lambda>config_namespace. do {
       instance_map \<leftarrow> new_instance_map rt;
       (stop, finished) \<leftarrow> new_discovery_channels rt;
       configs \<leftarrow> lock_configs rt;
       _ \<leftarrow> store_configs rt (hm_insert (m_name (metadata config))
            \<lparr>ci_instance_map = instance_map, stop_discovery_sender = stop,
             finished_discovery_sender = finished\<rparr> configs);
       r \<leftarrow> do_periodic_discovery get_discovery_handler rt os kube_interface
            \<lparr>pd_config_name = m_name (metadata config), pd_config_uid = config_uid,
             pd_config_namespace = config_namespace, pd_config_spec = spec config,
             pd_config_protocol = protocol (spec config), pd_instance_map = instance_map\<rparr>
            stop finished DEVICE_PLUGIN_PATH fuel;
       return (case r of Ok _ \<Rightarrow> Ok () | _ \<Rightarrow> Err (Msg ''JoinError''))
     }))))"

text \<open>The loop over the clone of the instance map, which stays locked; \<open>m\<close> is the locked map.\<close>

fun delete_instances :: "'w dps_rt \<Rightarrow> 'w kube_interface \<Rightarrow> string \<Rightarrow> (string \<times> InstanceInfo) list
    \<Rightarrow> InstanceMap \<Rightarrow> ('w, unit) io" where
  "delete_instances rt kube_interface namespace [] m = return (Ok ())"
| "delete_instances rt kube_interface namespace ((instance_name, instance_info) # rest) m =
     try_then (unwrapped (broadcast_send rt (list_and_watch_message_sender instance_info) End)) (\<lambda>_.
       let m' = hm_remove instance_name m
       in do {
         _ \<leftarrow> store_map rt m';
         try_then (try_delete_instance kube_interface instance_name namespace) (\<lambda>_.
           delete_instances rt kube_interface namespace rest m')
       })"

definition handle_config_delete :: "'w config_rt \<Rightarrow> 'w kube_interface \<Rightarrow> KubeAkriConfig \<Rightarrow> ('w, unit) io" where
  "handle_config_delete rt kube_interface config = do {
     configs \<leftarrow> lock_configs rt;
     try_then (return (unwrap (map_of configs (m_name (metadata config))))) (\<lambda>info. do {
       sent \<leftarrow> stop_send rt (stop_discovery_sender info);
       try_then (case sent of
           Ok _ \<Rightarrow> do {
             configs \<leftarrow> lock_configs rt;
             try_then (return (unwrap (map_of configs (m_name (metadata config))))) (\<lambda>info. do {
               receiver \<leftarrow> finished_subscribe rt (finished_discovery_sender info);
               unwrapped (finished_recv rt receiver)
             })
           }
         | Err _ \<Rightarrow> return (Ok ())
         | Panic p \<Rightarrow> return (Panic p)) (\<lambda>_. do {
         configs \<leftarrow> lock_configs rt;
         try_then (return (unwrap (map_of configs (m_name (metadata config))))) (\<lambda>info. do {
           _ \<leftarrow> store_configs rt (hm_remove (m_name (metadata config)) configs);
           let irt = map_rt rt (ci_instance_map info);
           m \<leftarrow> lock_map irt;
           try_then (return (unwrap (m_namespace (metadata config)))) (\<lambda>namespace.
             delete_instances irt kube_interface namespace m m)
         })
       })
     })
   }"

section \<open>Watching\<close>

definition handle_config :: "'w config_rt \<Rightarrow> 'w kube_interface \<Rightarrow> KubeAkriConfig WatchEvent \<Rightarrow> ('w, unit) io" where
  "handle_config rt kube_interface event =
     (case event of
        Added config \<Rightarrow> do { _ \<leftarrow> spawn_add rt config; return (Ok ()) }
      | Deleted config \<Rightarrow> try_then (handle_config_delete rt kube_interface config) (\<lambda>_. return (Ok ()))
      | Modified config \<Rightarrow> try_then (handle_config_delete rt kube_interface config) (\<lambda>_. do {
          _ \<leftarrow> spawn_add rt config;
          return (Ok ())
        })
      | WatchError e \<Rightarrow> return (Ok ()))"

text \<open>The events of the informer, in order; an error of the stream ends the watch.\<close>

fun watch_for_config_changes :: "'w config_rt \<Rightarrow> 'w kube_interface
    \<Rightarrow> (KubeAkriConfig WatchEvent, error) result list \<Rightarrow> ('w, unit) io" where
  "watch_for_config_changes rt ki [] = return (Ok ())"
| "watch_for_config_changes rt ki (ev # evs) =
     try_then (return ev) (\<lambda>event. try_then (handle_config rt ki event)
       (\<lambda>_. watch_for_config_changes rt ki evs))"

definition do_config_watch :: "'w config_rt \<Rightarrow> 'w kube_interface \<Rightarrow> ('w, unit) io" where
  "do_config_watch rt kube_interface =
     try_then (get_configurations kube_interface) (\<lambda>pre_existing_configs.
       try_then (try_for pre_existing_configs (\<lambda>config. do { _ \<leftarrow> spawn_add rt config; return (Ok ()) })) (\<lambda>_. do {
         _ \<leftarrow> spawn_watch rt;
         join_all rt
       }))"

section \<open>The contract of the runtime\<close>

text \<open>The instance map belongs to this process: calls to the cluster leave it alone.\<close>

locale agent_store = dps_store + clocked_store +
  assumes imap_now: "wp instant_now (\<lambda>_ w'. imap w' = imap w) w"
    and imap_find: "wp (find_instance ki nm ns) (\<lambda>_ w'. imap w' = imap w) w"
    and imap_delete: "wp (delete_instance ki nm ns) (\<lambda>_ w'. imap w' = imap w) w"

locale reliable_agent_store = agent_store + reliable_store

text \<open>
  \<open>entry_step C V is_shared n info info'\<close>: what becomes of an entry of the map when the
  devices in \<open>V\<close> are visible and the clock's readings satisfy \<open>C\<close> (\<open>None\<close>: it is gone).
\<close>

definition entry_step :: "(nat \<Rightarrow> bool) \<Rightarrow> (string, DiscoveryResult) hashmap \<Rightarrow> bool \<Rightarrow> string \<Rightarrow> InstanceInfo
    \<Rightarrow> InstanceInfo option \<Rightarrow> bool" where
  "entry_step C V is_shared n info info' \<longleftrightarrow>
     (if hm_contains V n then info' = Some (info\<lparr>connectivity_status := Online\<rparr>)
      else case connectivity_status info of
        Online \<Rightarrow> \<exists>t. C t \<and> info' = Some (info\<lparr>connectivity_status := Offline t\<rparr>)
      | Offline since \<Rightarrow> \<exists>t. C t \<and>
          (if \<not> is_shared \<or> since + from_secs SHARED_INSTANCE_OFFLINE_GRACE_PERIOD_SECS \<le> t
           then info' = None else info' = Some info))"

text \<open>The Instances that may be gone after a pass: those whose entries were taken off the map.\<close>

definition only_removed :: "string \<Rightarrow> string set \<Rightarrow> inst_store \<Rightarrow> inst_store \<Rightarrow> bool" where
  "only_removed ns N st st' \<longleftrightarrow> (\<forall>k. st' k = st k \<or> st' k = None \<and> snd k = ns \<and> fst k \<in> N)"

lemma only_removed_mono: "only_removed ns N st st' \<Longrightarrow> N \<subseteq> M \<Longrightarrow> only_removed ns M st st'"
  unfolding only_removed_def by blast

lemma only_removed_None: "only_removed ns N st st' \<Longrightarrow> st k = None \<Longrightarrow> st' k = None"
  unfolding only_removed_def by metis

lemma only_removed_refl: "only_removed ns N st st"
  by (simp add: only_removed_def)

lemma only_removed_trans:
  "only_removed ns N st st' \<Longrightarrow> only_removed ns M st' st'' \<Longrightarrow> only_removed ns (N \<union> M) st st''"
  unfolding only_removed_def by (metis UnI1 UnI2)

lemma grace_le: "SHARED_INSTANCE_OFFLINE_GRACE_PERIOD_SECS \<le> as_secs (t - since) \<longleftrightarrow>
    since + from_secs SHARED_INSTANCE_OFFLINE_GRACE_PERIOD_SECS \<le> t"
  by (simp add: le_as_secs from_secs_def SHARED_INSTANCE_OFFLINE_GRACE_PERIOD_SECS_def) arith

definition entry_post :: "(nat \<Rightarrow> bool) \<Rightarrow> (string, DiscoveryResult) hashmap \<Rightarrow> bool \<Rightarrow> string \<Rightarrow> string \<Rightarrow> InstanceInfo
    \<Rightarrow> InstanceMap \<Rightarrow> inst_store \<Rightarrow> (unit, error) result \<Rightarrow> InstanceMap \<Rightarrow> inst_store \<Rightarrow> bool" where
  "entry_post C V is_shared ns n info m st r m' st' \<longleftrightarrow> (is_ok r \<longrightarrow>
     entry_step C V is_shared n info (map_of m' n)
   \<and> (\<forall>n'. n' \<noteq> n \<longrightarrow> map_of m' n' = map_of m n')
   \<and> only_removed ns {n'. n' = n \<and> map_of m' n = None} st st')"

context agent_store
begin

lemma wp_try_delete:
  "wp (try_delete_instance ki nm ns) (\<lambda>_ w'. imap w' = imap w \<and> only_removed ns {nm} (insts w) (insts w')) w"
proof -
  have del: "wp (delete_instance ki nm ns) (\<lambda>_ w1. imap w1 = imap w \<and> only_removed ns {nm} (insts w) (insts w1)) w"
    unfolding wp_conj
    by (intro conjI imap_delete wp_delete_instance)
       (auto simp: write_effect_def removed_def only_removed_def split: if_splits)
  have find: "wp (find_instance ki nm ns) (\<lambda>_ w2. imap w2 = imap w1 \<and> insts w2 = insts w1) w1" for w1
    unfolding wp_conj by (intro conjI imap_find wp_find_instance)
  show ?thesis
    unfolding try_delete_instance_def wp_bind
    by (rule wp_mono [OF del]) (auto split: result.split intro!: wp_mono [OF find])
qed

text \<open>One entry of the map.\<close>

lemma wp_update_entry:
  assumes C: "\<And>w. wp instant_now (\<lambda>t _. C t) w" and entry: "map_of (imap w) n = Some info"
  shows "wp (update_entry rt instant_now ki ns V is_shared (n, info)) (\<lambda>r w'.
     entry_post C V is_shared ns n info (imap w) (insts w) r (imap w') (insts w')) w"
proof -
  let ?Q = "\<lambda>r w'. entry_post C V is_shared ns n info (imap w) (insts w) r (imap w') (insts w')"
  have now: "wp instant_now (\<lambda>t w'. C t \<and> imap w' = imap w \<and> insts w' = insts w) w"
    unfolding wp_conj by (intro conjI C imap_now now_law)
  have same: "?Q (Ok ()) w'" if "imap w' = imap w" "insts w' = insts w" "entry_step C V is_shared n info (Some info)" for w'
    using that entry by (simp add: entry_post_def only_removed_refl)
  have wr: "wp (do { m \<leftarrow> lock_map rt; _ \<leftarrow> store_map rt (hm_insert n info' m);
      unwrapped (broadcast_send rt s k) }) ?Q w1"
    if "imap w1 = imap w" "insts w1 = insts w" "entry_step C V is_shared n info (Some info')" for info' s k w1
    unfolding wp_bind
    by (rule wp_mono [OF lock_law], rule wp_mono [OF store_law])
       (auto simp: unwrapped_def that hashmap_simps entry_post_def only_removed_refl intro!: wp_mono [OF broadcast_law])
  have stop: "wp (try_then (terminate_device_plugin_service rt n) (\<lambda>_. try_delete_instance ki n ns)) ?Q w1"
    if "imap w1 = imap w" "insts w1 = insts w" "entry_step C V is_shared n info None" for w1
    unfolding wp_try_then
    by (rule wp_mono [OF wp_terminate])
       (auto simp: that hashmap_simps entry_post_def split: result.split
         intro!: wp_mono [OF wp_try_delete] elim!: only_removed_mono)
  show ?thesis
  proof (cases "hm_contains V n")
    case True
    show ?thesis
    proof (cases "connectivity_status info")
      case Online
      then have "info\<lparr>connectivity_status := Online\<rparr> = info" by (cases info) simp
      then have "entry_step C V is_shared n info (Some info)" using True by (simp add: entry_step_def)
      then show ?thesis using True Online same [of w] by (simp add: update_entry_def)
    next
      case (Offline since)
      have "entry_step C V is_shared n info (Some (info\<lparr>connectivity_status := Online\<rparr>))"
        using True by (simp add: entry_step_def)
      then show ?thesis using True Offline wr [OF refl refl] by (simp add: update_entry_def)
    qed
  next
    case False
    show ?thesis
    proof (cases "connectivity_status info")
      case Online
      have "entry_step C V is_shared n info (Some (info\<lparr>connectivity_status := Offline t\<rparr>))" if "C t" for t
        using False Online that by (auto simp: entry_step_def)
      then show ?thesis
        using False Online wr unfolding update_entry_def by (auto intro!: wp_mono [OF now])
    next
      case (Offline since)
      have gone: "entry_step C V is_shared n info None" if "C t" "\<not> is_shared \<or>
          since + from_secs SHARED_INSTANCE_OFFLINE_GRACE_PERIOD_SECS \<le> t" for t
        using False Offline that by (auto simp: entry_step_def)
      have keep: "entry_step C V is_shared n info (Some info)" if "C t" "is_shared"
          "\<not> since + from_secs SHARED_INSTANCE_OFFLINE_GRACE_PERIOD_SECS \<le> t" for t
        using False Offline that by (auto simp: entry_step_def)
      show ?thesis
        using False Offline stop same gone keep unfolding update_entry_def
        by (auto simp: grace_le intro!: wp_mono [OF now])
    qed
  qed
qed

lemma wp_update_connectivity:
  assumes C: "\<And>w. wp instant_now (\<lambda>t _. C t) w" and wf: "hm_wf (imap w)"
  shows "wp (update_connectivity_status rt instant_now ki ns V is_shared) (\<lambda>r w'. \<forall>news. r = Ok news \<longrightarrow>
     news = map snd (filter (\<lambda>(n, _). \<not> hm_contains (imap w) n) V)
   \<and> (\<forall>n. case map_of (imap w) n of None \<Rightarrow> map_of (imap w') n = None
        | Some info \<Rightarrow> entry_step C V is_shared n info (map_of (imap w') n))
   \<and> only_removed ns {n. map_of (imap w) n \<noteq> None \<and> map_of (imap w') n = None} (insts w) (insts w')) w"
proof -
  let ?m = "imap w"
  let ?gone = "\<lambda>m'. {n. map_of ?m n \<noteq> None \<and> map_of m' n = None}"
  define I where "I seen w' \<longleftrightarrow> (\<forall>n. if n \<in> fst ` set seen
       then \<exists>info. map_of ?m n = Some info \<and> entry_step C V is_shared n info (map_of (imap w') n)
       else map_of (imap w') n = map_of ?m n)
     \<and> only_removed ns (?gone (imap w')) (insts w) (insts w')" for seen :: "(string \<times> InstanceInfo) list" and w'
  have post: "I (seen @ [(n, info)]) w2"
    if I: "I seen w1" and n: "n \<notin> fst ` set seen" "map_of ?m n = Some info"
      and p: "entry_post C V is_shared ns n info (imap w1) (insts w1) (Ok ()) (imap w2) (insts w2)" for seen n info w1 w2
  proof -
    from I n have w1: "map_of (imap w1) n = Some info" by (simp add: I_def)
    from p have e: "entry_step C V is_shared n info (map_of (imap w2) n)"
      and same: "\<And>n'. n' \<noteq> n \<Longrightarrow> map_of (imap w2) n' = map_of (imap w1) n'"
      and rem: "only_removed ns {n'. n' = n \<and> map_of (imap w2) n = None} (insts w1) (insts w2)"
      by (simp_all add: entry_post_def)
    from I have "only_removed ns (?gone (imap w1)) (insts w) (insts w1)" by (simp add: I_def)
    moreover have "?gone (imap w1) \<subseteq> ?gone (imap w2)"
    proof
      fix n' assume g: "n' \<in> ?gone (imap w1)"
      with w1 have "n' \<noteq> n" by auto
      with g same show "n' \<in> ?gone (imap w2)" by simp
    qed
    moreover have "{n'. n' = n \<and> map_of (imap w2) n = None} \<subseteq> ?gone (imap w2)" using n by auto
    ultimately have "only_removed ns (?gone (imap w2)) (insts w) (insts w2)"
      using only_removed_trans [OF _ rem] by (meson Un_least only_removed_mono)
    moreover have "if n' \<in> fst ` set (seen @ [(n, info)])
       then \<exists>info. map_of ?m n' = Some info \<and> entry_step C V is_shared n' info (map_of (imap w2) n')
       else map_of (imap w2) n' = map_of ?m n'" for n'
      using I e n same [of n'] by (cases "n' = n") (auto simp: I_def)
    ultimately show ?thesis by (simp add: I_def)
  qed
  have step: "wp (update_entry rt instant_now ki ns V is_shared x)
      (\<lambda>r w2. case r of Ok _ \<Rightarrow> I (seen @ [x]) w2 | _ \<Rightarrow> True) w1"
    if m: "?m = seen @ x # rest" and I: "I seen w1" for seen x rest w1
  proof -
    obtain n info where x: "x = (n, info)" by (cases x)
    have n: "n \<notin> fst ` set seen" using wf unfolding m hm_wf_def hm_keys_def by (auto simp: x)
    have "map_of ?m n = Some info" using hm_wf_map_of [OF wf] by (simp add: m x)
    note n = n this
    from I n have "map_of (imap w1) n = Some info" by (simp add: I_def)
    from wp_update_entry [OF C this, of ns V is_shared] show ?thesis
      unfolding x by (rule wp_mono) (use post [OF I n] in \<open>auto split: result.split\<close>)
  qed
  have loop: "wp (try_for ?m (update_entry rt instant_now ki ns V is_shared)) (\<lambda>r w'. is_ok r \<longrightarrow> I ?m w') w1"
    if "imap w1 = imap w" "insts w1 = insts w" for w1
    by (rule wp_try_for [where I = I and E = "\<lambda>_ _. True"])
       (use that step in \<open>auto simp: I_def only_removed_refl\<close>)
  have fin: "(\<forall>n. case map_of ?m n of None \<Rightarrow> map_of (imap w') n = None
        | Some info \<Rightarrow> entry_step C V is_shared n info (map_of (imap w') n))
      \<and> only_removed ns (?gone (imap w')) (insts w) (insts w')" if "I ?m w'" for w'
  proof -
    from that have *: "if n \<in> dom (map_of ?m)
        then \<exists>info. map_of ?m n = Some info \<and> entry_step C V is_shared n info (map_of (imap w') n)
        else map_of (imap w') n = map_of ?m n" for n
      unfolding I_def dom_map_of_conv_image_fst by blast
    have "case map_of ?m n of None \<Rightarrow> map_of (imap w') n = None
        | Some info \<Rightarrow> entry_step C V is_shared n info (map_of (imap w') n)" for n
      using * [of n] by (cases "map_of ?m n") (auto split: if_splits)
    with that show ?thesis by (simp add: I_def)
  qed
  show ?thesis
    unfolding update_connectivity_status_def wp_bind Let_def wp_try_then
  proof (rule wp_mono [OF lock_law], goal_cases)
    case (1 m w1)
    then have m: "m = ?m" and eq: "imap w1 = imap w" "insts w1 = insts w" by simp_all
    show ?case
      unfolding m by (rule wp_mono [OF loop [OF eq]]) (auto split: result.split dest!: fin)
  qed
qed

end

context reliable_agent_store
begin

text \<open>On a reliable store a deletion never reports an error, and success means it is gone.\<close>

lemma wp_try_delete_reliable:
  "wp (try_delete_instance ki nm ns) (\<lambda>r w'. (\<forall>e. r \<noteq> Err e) \<and> (is_ok r \<longrightarrow> insts w' (nm, ns) = None)) w"
proof -
  have find: "wp (find_instance ki nm ns) (\<lambda>f w2. insts w2 = insts w1 \<and> \<not> is_ok f) w1"
    if "insts w1 (nm, ns) = None" for w1
    by (rule wp_find_instance) (use that in \<open>auto simp: is_ok_iff\<close>)
  have "wp (delete_instance ki nm ns) (\<lambda>r w1. write_effect (removed nm ns) (insts w) r (insts w1)
      \<and> (insts w (nm, ns) \<noteq> None \<longrightarrow> is_ok r)) w"
    unfolding wp_conj
    by (intro conjI delete_instance_law) (cases "insts w (nm, ns)"; auto dest: delete_instance_ok)
  then have "wp (delete_instance ki nm ns) (\<lambda>r w1. insts w1 (nm, ns) = None) w"
    by (rule wp_mono) (auto simp: write_effect_def removed_def)
  then show ?thesis
    unfolding try_delete_instance_def wp_bind
    by (rule wp_mono) (auto simp: is_ok_iff split: result.splits intro!: wp_mono [OF find])
qed

end

section \<open>An executable runtime\<close>

lemma cluster_send_ag_map: "cluster_send req w = (r, w') \<Longrightarrow> ag_map w' = ag_map w"
  by (cases "(req, w)" rule: cluster_send.cases; (elim exE)?)
     (auto simp: cluster_delete_def put_instance_def Let_def split: if_splits option.splits
      elim!: cluster_create.elims cluster_patch.elims)

lemma wp_cluster_ag_map: "wp (send_request cluster_client req) (\<lambda>_ w'. ag_map w' = ag_map w) w"
  by (auto split: prod.split dest: cluster_send_ag_map)

interpretation agent_conf: reliable_agent_store cluster_kube cluster_insts agent_rt ag_map cluster_now
  by unfold_locales
    (auto simp: cluster_now_def wp_def [of "State _"] instance_find_instance_def instance_delete_instance_def
      simp del: wp_cluster(1) intro!: wp_mono [OF wp_cluster_ag_map] split: result.split)

section \<open>Properties\<close>

text \<open>
  C6: One round of discovery, for a Configuration whose instance map has no duplicates. Every
  Instance on the map that is visible is online afterwards; one that was online and is not
  visible is offline from now on; one that was offline and still is not visible stays so
  while it is shared and has been offline for less than five minutes, and is taken off the
  map otherwise. Nothing else enters or leaves the map, the results that are returned are
  exactly the visible devices without an entry, and no Instance of the cluster is touched
  except that those taken off the map may be deleted.
\<close>

theorem update_connectivity_spec:
  assumes "agent_store ki insts rt imap now" and "\<forall>w. wp now (\<lambda>t _. C t) w" and "hm_wf (imap w)"
    and "run_state (update_connectivity_status rt now ki ns V is_shared) w = (Ok news, w')"
  shows "news = map snd (filter (\<lambda>(n, _). \<not> hm_contains (imap w) n) V)
   \<and> (\<forall>n. case map_of (imap w) n of None \<Rightarrow> map_of (imap w') n = None
        | Some info \<Rightarrow> entry_step C V is_shared n info (map_of (imap w') n))
   \<and> only_removed ns {n. map_of (imap w) n \<noteq> None \<and> map_of (imap w') n = None} (insts w) (insts w')"
  using wp_run [OF agent_store.wp_update_connectivity [OF assms(1) _ assms(3)] assms(4)] assms(2) by blast

definition online_agent :: agent_cluster where
  "online_agent = sample_agent\<lparr>ag_map := [(''cam'', \<lparr>list_and_watch_message_sender = 7, connectivity_status = Online\<rparr>)]\<rparr>"

theorem update_connectivity_spec_witness:
  "\<exists>news w' t. run_state (update_connectivity_status agent_rt cluster_now cluster_kube ''ns'' [] False) online_agent
      = (Ok news, w') \<and> news = []
    \<and> map_of (ag_map w') ''cam'' = Some \<lparr>list_and_watch_message_sender = 7, connectivity_status = Offline t\<rparr>"
proof -
  let ?run = "run_state (update_connectivity_status agent_rt cluster_now cluster_kube ''ns'' [] False) online_agent"
  have "is_ok (fst ?run)"
    by (simp add: update_connectivity_status_def update_entry_def agent_rt_def online_agent_def sample_agent_def
        try_then_def unwrapped_def cluster_now_def hm_contains_def cluster.extend_def agent_cluster.fields_def)
  then obtain news w' where run: "?run = (Ok news, w')" by (cases ?run) (auto simp: is_ok_iff)
  have m: "ag_map online_agent = [(''cam'', \<lparr>list_and_watch_message_sender = 7, connectivity_status = Online\<rparr>)]"
    by (simp add: online_agent_def)
  have C: "\<forall>w. wp cluster_now (\<lambda>t _. True) w" by simp
  have wf: "hm_wf (ag_map online_agent)" by (simp add: m)
  from update_connectivity_spec [OF agent_conf.agent_store_axioms C wf run] run m show ?thesis
    by (auto simp: entry_step_def hm_contains_def dest!: spec [of _ "''cam''"])
qed

text \<open>
  Deleting an Instance tolerates that another node was faster: when the cluster answers,
  the deletion never reports an error, and after it the Instance is gone, whether this node
  or another one deleted it.
\<close>

theorem try_delete_instance_gone:
  assumes "reliable_agent_store ki insts rt imap now"
    and "run_state (try_delete_instance ki nm ns) w = (r, w')"
  shows "(\<forall>e. r \<noteq> Err e) \<and> (is_ok r \<longrightarrow> insts w' (nm, ns) = None)"
  by (rule wp_run [OF reliable_agent_store.wp_try_delete_reliable [OF assms(1)] assms(2)])

theorem try_delete_instance_gone_witness:
  "\<exists>r w'. run_state (try_delete_instance cluster_kube ''cam'' ''ns'') sample_agent = (r, w')
    \<and> (\<forall>e. r \<noteq> Err e) \<and> (is_ok r \<longrightarrow> cluster_insts w' (''cam'', ''ns'') = None)"
proof -
  let ?run = "run_state (try_delete_instance cluster_kube ''cam'' ''ns'') sample_agent"
  obtain r w' where run: "?run = (r, w')" by (cases ?run)
  from try_delete_instance_gone [OF agent_conf.reliable_agent_store_axioms run] run show ?thesis by blast
qed

text \<open>
  The loop over the map, with \<open>R\<close> for a cluster whose answers are right: what a deletion
  then promises is promised for every Instance of the map.
\<close>

context agent_store
begin

lemma wp_delete_instances:
  assumes rel: "\<And>nm w. R \<Longrightarrow> wp (try_delete_instance ki nm ns)
      (\<lambda>r w'. (\<forall>e. r \<noteq> Err e) \<and> (is_ok r \<longrightarrow> insts w' (nm, ns) = None)) w"
  shows "wp (delete_instances rt ki ns es m) (\<lambda>r w'. only_removed ns (fst ` set es) (insts w) (insts w')
     \<and> (is_ok r \<longrightarrow> es = [] \<and> imap w' = imap w \<or> imap w' = fold hm_remove (map fst es) m)
     \<and> (R \<longrightarrow> (\<forall>e. r \<noteq> Err e) \<and> (is_ok r \<longrightarrow> (\<forall>n \<in> fst ` set es. insts w' (n, ns) = None)))) w"
proof (induction es arbitrary: m w)
  case (Cons e es)
  obtain n info where e: "e = (n, info)" by (cases e)
  define P where "P r w' \<longleftrightarrow> only_removed ns (insert n (fst ` set es)) (insts w) (insts w')
     \<and> (is_ok r \<longrightarrow> imap w' = fold hm_remove (map fst es) (hm_remove n m))
     \<and> (R \<longrightarrow> (\<forall>e. r \<noteq> Err e) \<and> (is_ok r \<longrightarrow> (\<forall>n' \<in> insert n (fst ` set es). insts w' (n', ns) = None)))"
    for r :: "(unit, error) result" and w'
  have rest: "wp (delete_instances rt ki ns es (hm_remove n m)) P w2"
    if "imap w2 = hm_remove n m" "only_removed ns {n} (insts w) (insts w2)" "R \<longrightarrow> insts w2 (n, ns) = None" for w2
    by (rule wp_mono [OF Cons.IH])
       (use that only_removed_trans [OF that(2)] in \<open>auto simp: P_def dest: only_removed_None\<close>)
  have "wp (try_delete_instance ki n ns) (\<lambda>r w2. imap w2 = imap w1 \<and> only_removed ns {n} (insts w1) (insts w2)
      \<and> (R \<longrightarrow> (\<forall>e. r \<noteq> Err e) \<and> (is_ok r \<longrightarrow> insts w2 (n, ns) = None))) w1" for w1
    by (cases R) (use wp_try_delete [of n ns w1] rel [of n w1] in \<open>auto simp: wp_def split: prod.split\<close>)
  note del = this
  have kill: "wp (do { _ \<leftarrow> store_map rt (hm_remove n m);
        try_then (try_delete_instance ki n ns) (\<lambda>_. delete_instances rt ki ns es (hm_remove n m)) }) P w1"
    if "insts w1 = insts w" for w1
    unfolding wp_bind wp_try_then
    by (rule wp_mono [OF store_law], rule wp_mono [OF del])
       (use that rest in \<open>auto simp: P_def split: result.split elim: only_removed_mono\<close>)
  have "wp (delete_instances rt ki ns (e # es) m) P w"
    unfolding e delete_instances.simps wp_try_then unwrapped_def wp_bind [of "broadcast_send _ _ _"] wp_return Let_def
  proof (rule wp_mono [OF broadcast_law], goal_cases)
    case (1 b w1)
    then show ?case using kill by (cases b) (simp_all add: P_def only_removed_refl)
  qed
  then show ?case by (rule wp_mono) (simp add: P_def e)
qed (simp add: only_removed_refl)

end

lemma fold_hm_remove_get:
  "map_of (fold hm_remove ns m) n = (if n \<in> set ns then None else map_of m n)"
  by (induction ns arbitrary: m) (auto simp: hashmap_simps)

text \<open>
  C22: Shutting down the Instances of a deleted Configuration. Whatever the cluster answers, no
  Instance of the cluster is removed that is not on the Configuration's map, and when the
  loop succeeds the map is empty. When the cluster's answers are right, there is no error,
  and success means that every Instance of the map is gone from the cluster. (A cluster that
  fails both to delete and to look up an Instance makes the loop succeed with the Instance
  still there.)
\<close>

theorem delete_instances_complete:
  assumes "agent_store ki insts rt imap now"
    and "run_state (delete_instances rt ki ns (imap w) (imap w)) w = (r, w')"
  shows "only_removed ns (set (hm_keys (imap w))) (insts w) (insts w')
    \<and> (is_ok r \<longrightarrow> (\<forall>n. map_of (imap w') n = None))
    \<and> (reliable_store ki insts \<longrightarrow> (\<forall>e. r \<noteq> Err e)
         \<and> (is_ok r \<longrightarrow> (\<forall>n \<in> set (hm_keys (imap w)). insts w' (n, ns) = None)))"
proof -
  have rel: "wp (try_delete_instance ki nm ns)
      (\<lambda>r w'. (\<forall>e. r \<noteq> Err e) \<and> (is_ok r \<longrightarrow> insts w' (nm, ns) = None)) w1" if "reliable_store ki insts" for nm w1
    using reliable_agent_store.wp_try_delete_reliable [OF reliable_agent_store.intro [OF assms(1) that]] .
  have "map_of (fold hm_remove (map fst (imap w)) (imap w)) n = None" for n
    by (auto simp: fold_hm_remove_get map_of_eq_None_iff)
  then show ?thesis
    using wp_run [OF agent_store.wp_delete_instances [OF assms(1), where R = "reliable_store ki insts"] assms(2)] rel
    unfolding hm_keys_def by (cases "imap w = []") auto
qed

text \<open>A cluster whose deletions and lookups fail: the loop succeeds and the Instance stays.\<close>

definition deaf_kube :: "agent_cluster kube_interface" where
  "deaf_kube = cluster_kube\<lparr>delete_instance := \<lambda>_ _. return (Err (Msg ''timeout'')),
     find_instance := \<lambda>_ _. return (Err (Msg ''timeout''))\<rparr>"

lemma unanswered_delete_succeeds:
  "run_state (try_delete_instance deaf_kube nm ns) w = (Ok (), w)"
  by (simp add: try_delete_instance_def deaf_kube_def)

theorem delete_instances_complete_witness:
  "\<exists>w'. run_state (delete_instances agent_rt cluster_kube ''ns'' (ag_map online_agent) (ag_map online_agent)) online_agent
      = (Ok (), w') \<and> ag_map w' = [] \<and> cluster_insts w' (''cam'', ''ns'') = None"
proof -
  let ?run = "run_state (delete_instances agent_rt cluster_kube ''ns'' (ag_map online_agent) (ag_map online_agent)) online_agent"
  have "fst ?run = Ok ()" by code_simp
  then obtain w' where run: "?run = (Ok (), w')" by (cases ?run) simp
  have m: "ag_map online_agent = [(''cam'', \<lparr>list_and_watch_message_sender = 7, connectivity_status = Online\<rparr>)]"
    by (simp add: online_agent_def)
  have rel: "reliable_store cluster_kube (cluster_insts :: agent_cluster \<Rightarrow> inst_store)"
    using agent_conf.reliable_agent_store_axioms by (simp add: reliable_agent_store_def)
  have e: "ms = []" if "\<forall>n. map_of ms n = None" for ms :: InstanceMap
    using that by (cases ms) (auto split: if_splits)
  from delete_instances_complete [OF agent_conf.agent_store_axioms run] rel have
    "(\<forall>n. map_of (ag_map w') n = None) \<and> cluster_insts w' (''cam'', ''ns'') = None" by (simp add: m)
  with run e show ?thesis by blast
qed

text \<open>
  An event for a Configuration that is not on the Agent's map (its addition is still being
  handled by another task, or it failed) panics: both deletion and modification look it up
  and unwrap. The cluster is not called and nothing is started.
\<close>

theorem handle_config_unknown:
  assumes "run_state (lock_configs rt) w = (configs, w1)" "map_of configs (m_name (metadata config)) = None"
    and "event \<in> {Deleted config, Modified config}"
  shows "run_state (handle_config rt ki event) w = (Panic ''called Option::unwrap() on a None value'', w1)"
  using assms by (auto simp: handle_config_def handle_config_delete_def try_then_def)

definition quiet_configs :: "'w config_rt" where
  "quiet_configs = \<lparr>lock_configs = return [], store_configs = (\<lambda>_. return ()),
     map_rt = (\<lambda>_. \<lparr>lock_map = return [], store_map = (\<lambda>_. return ()), broadcast_send = (\<lambda>_ _. return (Ok ())),
       recv_message = (\<lambda>_ _. return Elapsed), server_ender_send = (\<lambda>_. return (Ok ())),
       kubelet_update_send = (\<lambda>_. return (Ok ())), random_delay = return ()\<rparr>),
     new_instance_map = return 0, new_discovery_channels = return (1, 2), stop_send = (\<lambda>_. return (Ok ())),
     stop_recv = (\<lambda>_ _. return False), finished_subscribe = (\<lambda>_. return 0), finished_recv = (\<lambda>_. return (Ok ())),
     finished_send = (\<lambda>_. return (Ok ())), rt_now = return 0, spawn_add = (\<lambda>_. return ()),
     spawn_watch = return (), join_all = return (Ok ()), start_timer = (\<lambda>_. return 0),
     observe_duration = (\<lambda>_. return ()), instance_count_set = (\<lambda>_ _ _. return ())\<rparr>"

theorem handle_config_unknown_witness:
  "\<forall>ki. fst (run_state (handle_config quiet_configs ki (Deleted
      \<lparr>o_types = \<lparr>t_apiVersion = None, t_kind = None\<rparr>, metadata = ObjectMeta_default, spec = sample_configuration, status = None\<rparr>)) (0 :: nat))
   = Panic ''called Option::unwrap() on a None value''"
proof -
  have "run_state (lock_configs quiet_configs) (0 :: nat) = ([], 0)" by (simp add: quiet_configs_def)
  from handle_config_unknown [OF this, of "\<lparr>o_types = \<lparr>t_apiVersion = None, t_kind = None\<rparr>,
      metadata = ObjectMeta_default, spec = sample_configuration, status = None\<rparr>"]
  show ?thesis by simp
qed

end
