(* ===== verification/Node_Watcher.thy ===== *)
theory Node_Watcher
  imports Pod_Action Kube_Store
begin

text \<open>
  \<open>controller/src/util/node_watcher.rs\<close>: when a node goes away, the Controller takes it out of
  every Instance. The theorems say that the clean-up touches nothing but that node's entries
  and, when the cluster answers, leaves none; and that the watcher's state machine starts it
  exactly once for each disappearance.
\<close>

section \<open>Definitions\<close>

datatype NodeState = Known | NodeRunning | InstancesCleaned

record NodeWatcher =
  known_nodes :: "(string, NodeState) hashmap"

definition NodeWatcher_new :: NodeWatcher where
  "NodeWatcher_new = \<lparr>known_nodes = []\<rparr>"

definition is_node_ready :: "NodeObject \<Rightarrow> bool" where
  "is_node_ready k8s_node =
     (let conditions = (case status k8s_node of None \<Rightarrow> [] | Some st \<Rightarrow>
            (case ns_conditions st of None \<Rightarrow> [] | Some cs \<Rightarrow> cs));
          ready = map (\<lambda>condition. nc_status condition = ''True'')
            (filter (\<lambda>condition. nc_type condition = ''Ready'') conditions)
      in (if ready = [] then False else last ready) = True)"

definition try_remove_nodes_from_instance :: "string \<Rightarrow> string \<Rightarrow> string \<Rightarrow> KubeAkriInstance
    \<Rightarrow> 'w kube_interface \<Rightarrow> ('w, unit) io" where
  "try_remove_nodes_from_instance vanished_node_name instance_name instance_namespace inst kube_interface =
     (let modified_nodes = filter (\<lambda>node. vanished_node_name \<noteq> node) (nodes (spec inst));
          modified_usage = hm_collect (map (\<lambda>(slot, node).
            (slot, if vanished_node_name = node then '''' else node)) (device_usage (spec inst)));
          modified_instance = \<lparr>configuration_name = configuration_name (spec inst),
            instance_metadata = instance_metadata (spec inst), shared = shared (spec inst),
            nodes = modified_nodes, device_usage = modified_usage, rbac = rbac (spec inst)\<rparr>
      in update_instance kube_interface modified_instance instance_name instance_namespace)"

text \<open>The inner loop over the tries, \<open>xs\<close> being the values of \<open>x\<close> that are left.\<close>

fun remove_node_tries :: "'w controller_rt \<Rightarrow> string \<Rightarrow> string \<Rightarrow> string \<Rightarrow> KubeAkriInstance
    \<Rightarrow> 'w kube_interface \<Rightarrow> nat list \<Rightarrow> ('w, unit) io" where
  "remove_node_tries rt vanished instance_name instance_namespace inst ki [] = return (Ok ())"
| "remove_node_tries rt vanished instance_name instance_namespace inst ki (x # xs) =
     try_then
       (if x = 0 then return (Ok inst) else find_instance ki instance_name instance_namespace) (\<lambda>retry_instance. do {
       r \<leftarrow> try_remove_nodes_from_instance vanished instance_name instance_namespace retry_instance ki;
       case r of
         Ok _ \<Rightarrow> return (Ok ())
       | Err e \<Rightarrow> if x = MAX_INSTANCE_UPDATE_TRIES - 1 then return (Err e)
           else do {
             _ \<leftarrow> controller_random_delay rt;
             remove_node_tries rt vanished instance_name instance_namespace inst ki xs
           }
       | Panic p \<Rightarrow> return (Panic p)
     })"

definition clean_instance :: "'w controller_rt \<Rightarrow> string \<Rightarrow> 'w kube_interface \<Rightarrow> KubeAkriInstance
    \<Rightarrow> ('w, unit) io" where
  "clean_instance rt vanished kube_interface inst =
     (let instance_name = m_name (metadata inst)
      in try_then (return (ok_or (m_namespace (metadata inst))
           (Msg (''Namespace not found for instance: '' @ instance_name)))) (\<lambda>instance_namespace.
         remove_node_tries rt vanished instance_name instance_namespace inst kube_interface
           [0..<MAX_INSTANCE_UPDATE_TRIES]))"

definition handle_node_disappearance :: "'w controller_rt \<Rightarrow> string \<Rightarrow> 'w kube_interface \<Rightarrow> ('w, unit) io" where
  "handle_node_disappearance rt vanished_node_name kube_interface =
     try_then (get_instances kube_interface) (\<lambda>insts.
       try_for insts (clean_instance rt vanished_node_name kube_interface))"

text \<open>The watcher is returned as it is left, whether or not the handler succeeds.\<close>

definition call_handle_node_disappearance_if_needed :: "'w controller_rt \<Rightarrow> NodeWatcher \<Rightarrow> NodeObject
    \<Rightarrow> 'w kube_interface \<Rightarrow> ('w, (unit, error) result \<times> NodeWatcher) state" where
  "call_handle_node_disappearance_if_needed rt self node kube_interface =
     (let last_known_state = (case map_of (known_nodes self) (m_name (metadata node)) of
            Some s \<Rightarrow> s | None \<Rightarrow> NodeRunning)
      in if last_known_state = NodeRunning then do {
           r \<leftarrow> handle_node_disappearance rt (m_name (metadata node)) kube_interface;
           return (case r of
               Ok _ \<Rightarrow> (Ok (), self\<lparr>known_nodes := hm_insert (m_name (metadata node)) InstancesCleaned (known_nodes self)\<rparr>)
             | Err e \<Rightarrow> (Err e, self)
             | Panic p \<Rightarrow> (Panic p, self))
         }
         else return (Ok (), self))"

definition handle_node :: "'w controller_rt \<Rightarrow> NodeWatcher \<Rightarrow> NodeObject WatchEvent \<Rightarrow> 'w kube_interface
    \<Rightarrow> ('w, (unit, error) result \<times> NodeWatcher) state" where
  "handle_node rt self event kube_interface = (case event of
       Added node \<Rightarrow>
         if is_node_ready node
         then return (Ok (), self\<lparr>known_nodes := hm_insert (m_name (metadata node)) NodeRunning (known_nodes self)\<rparr>)
         else return (Ok (), self\<lparr>known_nodes := hm_insert (m_name (metadata node)) Known (known_nodes self)\<rparr>)
     | Modified node \<Rightarrow>
         if is_node_ready node
         then return (Ok (), self\<lparr>known_nodes := hm_insert (m_name (metadata node)) NodeRunning (known_nodes self)\<rparr>)
         else call_handle_node_disappearance_if_needed rt self node kube_interface
     | Deleted node \<Rightarrow> call_handle_node_disappearance_if_needed rt self node kube_interface
     | WatchError e \<Rightarrow> return (Ok (), self))"

text \<open>The watch loop over the events that the informer's polls deliver.\<close>

fun watch_nodes :: "'w controller_rt \<Rightarrow> 'w kube_interface \<Rightarrow> NodeWatcher
    \<Rightarrow> (NodeObject WatchEvent, error) result list \<Rightarrow> ('w, (unit, error) result \<times> NodeWatcher) state" where
  "watch_nodes rt ki self [] = return (Ok (), self)"
| "watch_nodes rt ki self (ev # evs) = (case ev of
       Ok event \<Rightarrow> do {
         (r, self') \<leftarrow> handle_node rt self event ki;
         case r of Ok _ \<Rightarrow> watch_nodes rt ki self' evs | _ \<Rightarrow> return (r, self')
       }
     | Err e \<Rightarrow> return (Err e, self)
     | Panic p \<Rightarrow> return (Panic p, self))"

section \<open>The clean-up\<close>

text \<open>
  \<open>node_removed v i i'\<close>: Instance \<open>i'\<close> is \<open>i\<close>, perhaps without the node \<open>v\<close> in its list and
  perhaps with slots of \<open>v\<close> freed. \<open>node_gone\<close>: nothing refers to \<open>v\<close> any more.
\<close>

definition node_removed :: "string \<Rightarrow> Instance \<Rightarrow> Instance \<Rightarrow> bool" where
  "node_removed v i i' \<longleftrightarrow> nodes i' \<in> {nodes i, filter (\<lambda>n. n \<noteq> v) (nodes i)}
     \<and> (\<forall>s. slot_owner i' s = slot_owner i s \<or> slot_owner i s = Some v \<and> slot_owner i' s = Some '''')
     \<and> shared i' = shared i \<and> configuration_name i' = configuration_name i \<and> rbac i' = rbac i
     \<and> map_of (instance_metadata i') = map_of (instance_metadata i)"

definition node_gone :: "string \<Rightarrow> Instance \<Rightarrow> bool" where
  "node_gone v i \<longleftrightarrow> v \<notin> set (nodes i) \<and> (\<forall>s. slot_owner i s \<noteq> Some v)"

definition cleaned :: "string \<Rightarrow> inst_store \<Rightarrow> inst_store \<Rightarrow> bool" where
  "cleaned v st st' \<longleftrightarrow> (\<forall>k. case st k of None \<Rightarrow> st' k = None
     | Some x \<Rightarrow> \<exists>x'. st' k = Some x' \<and> instance_wf (spec x') \<and> node_removed v (spec x) (spec x'))"

definition without_node :: "string \<Rightarrow> Instance \<Rightarrow> Instance" where
  "without_node v i = i\<lparr>nodes := filter (\<lambda>n. v \<noteq> n) (nodes i),
     device_usage := hm_collect (map (\<lambda>(s, n). (s, if v = n then '''' else n)) (device_usage i))\<rparr>"

lemma try_remove_eq: "try_remove_nodes_from_instance v nm ns x ki = update_instance ki (without_node v (spec x)) nm ns"
  by (cases "spec x") (simp add: try_remove_nodes_from_instance_def without_node_def Let_def)

lemma without_node_sel:
  assumes "instance_wf i"
  shows "nodes (without_node v i) = filter (\<lambda>n. n \<noteq> v) (nodes i)"
    "slot_owner (without_node v i) s = map_option (\<lambda>n. if v = n then '''' else n) (slot_owner i s)"
    "shared (without_node v i) = shared i" "configuration_name (without_node v i) = configuration_name i"
    "rbac (without_node v i) = rbac i" "instance_metadata (without_node v i) = instance_metadata i"
proof -
  have "distinct (map fst (map (\<lambda>(s, n). (s, if v = n then '''' else n)) (device_usage i)))"
    using assms by (simp add: instance_wf_def hm_wf_def hm_keys_def comp_def case_prod_beta)
  then show "slot_owner (without_node v i) s = map_option (\<lambda>n. if v = n then '''' else n) (slot_owner i s)"
    by (simp add: without_node_def hm_collect_distinct hashmap_simps)
  show "nodes (without_node v i) = filter (\<lambda>n. n \<noteq> v) (nodes i)"
    by (auto simp: without_node_def intro: filter_cong)
qed (simp_all add: without_node_def)

lemma node_removed_refl [simp]: "node_removed v i i"
  by (simp add: node_removed_def)

text \<open>
  Patching \<open>cur\<close> with the cleaned version of \<open>seen\<close>, where both are the original with some
  of \<open>v\<close>'s entries removed, removes the rest.
\<close>

lemma patch_without_node:
  assumes "instance_wf seen" and cur: "node_removed v orig cur" and seen: "node_removed v orig seen"
  shows "node_removed v orig (merge_instance cur (without_node v seen))"
    and "v \<noteq> '''' \<Longrightarrow> node_gone v (merge_instance cur (without_node v seen))"
proof -
  have slots: "slot_owner (merge_instance cur (without_node v seen)) s =
      map_option (\<lambda>n. if v = n then '''' else n) (slot_owner orig s)" for s
  proof -
    have "slot_owner cur s = slot_owner orig s \<or> slot_owner orig s = Some v \<and> slot_owner cur s = Some ''''"
      "slot_owner seen s = slot_owner orig s \<or> slot_owner orig s = Some v \<and> slot_owner seen s = Some ''''"
      using cur seen by (simp_all add: node_removed_def)
    then show ?thesis by (cases "slot_owner orig s") (auto simp: without_node_sel [OF assms(1)])
  qed
  have nds: "nodes (merge_instance cur (without_node v seen)) = filter (\<lambda>n. n \<noteq> v) (nodes orig)"
    using seen by (auto simp: node_removed_def without_node_sel [OF assms(1)])
  have md: "map_of (instance_metadata (merge_instance cur (without_node v seen))) = map_of (instance_metadata orig)"
    using cur seen by (simp add: merge_instance_def merge_conv' without_node_sel [OF assms(1)] node_removed_def
        map_add_def fun_eq_iff split: option.split)
  show "node_removed v orig (merge_instance cur (without_node v seen))"
  proof -
    have "slot_owner (merge_instance cur (without_node v seen)) s = slot_owner orig s
        \<or> slot_owner orig s = Some v \<and> slot_owner (merge_instance cur (without_node v seen)) s = Some ''''" for s
      unfolding slots by (cases "slot_owner orig s") auto
    moreover have "rbac (merge_instance cur (without_node v seen)) = rbac orig"
      using seen by (simp add: merge_instance_def without_node_sel [OF assms(1)] node_removed_def)
    ultimately show ?thesis using seen md nds unfolding node_removed_def
      by (simp add: without_node_sel [OF assms(1)] del: merge_instance_sel(4))
  qed
  show "v \<noteq> '''' \<Longrightarrow> node_gone v (merge_instance cur (without_node v seen))"
    unfolding node_gone_def nds slots by (auto split: option.splits if_splits)
qed

definition same_but :: "string \<times> string \<Rightarrow> inst_store \<Rightarrow> inst_store \<Rightarrow> bool" where
  "same_but k st st' \<longleftrightarrow> (\<forall>k'. k' \<noteq> k \<longrightarrow> st' k' = st k')"

lemma same_but_refl [simp]: "same_but k st st"
  by (simp add: same_but_def)

lemma same_but_trans: "same_but k st st' \<Longrightarrow> same_but k st' st'' \<Longrightarrow> same_but k st st''"
  by (simp add: same_but_def)

lemma cleaned_refl: "\<forall>x \<in> ran st. instance_wf (spec x) \<Longrightarrow> cleaned v st st"
  by (auto simp: cleaned_def ran_def split: option.split)

lemma cleanedD: "cleaned v st st' \<Longrightarrow> st' k = Some x' \<Longrightarrow>
    \<exists>x. st k = Some x \<and> instance_wf (spec x') \<and> node_removed v (spec x) (spec x')"
  unfolding cleaned_def by (drule spec [of _ k]) (auto split: option.splits)

lemma cleaned_patch:
  assumes "cleaned v st0 st" "st0 (nm, ns) = Some x0" and "instance_wf seen" "node_removed v (spec x0) seen"
    and "patched (without_node v seen) nm ns st st'"
  shows "cleaned v st0 st'" and "\<exists>x'. st' (nm, ns) = Some x' \<and> (v \<noteq> '''' \<longrightarrow> node_gone v (spec x'))"
    and "same_but (nm, ns) st st'"
proof -
  from assms(5) obtain x x' where x: "st (nm, ns) = Some x" "st' = st((nm, ns) \<mapsto> x')"
    "spec x' = merge_instance (spec x) (without_node v seen)" by (auto simp: patched_def)
  have "instance_wf (spec x)" "node_removed v (spec x0) (spec x)"
    using cleanedD [OF assms(1) x(1)] assms(2) by auto
  then have x': "instance_wf (spec x')" "node_removed v (spec x0) (spec x')" "v \<noteq> '''' \<longrightarrow> node_gone v (spec x')"
    using x(3) patch_without_node [OF assms(3) _ assms(4)] by auto
  then show "\<exists>x'. st' (nm, ns) = Some x' \<and> (v \<noteq> '''' \<longrightarrow> node_gone v (spec x'))" using x by auto
  show "cleaned v st0 st'" unfolding cleaned_def
  proof
    fix k
    show "case st0 k of None \<Rightarrow> st' k = None
      | Some x \<Rightarrow> \<exists>x'. st' k = Some x' \<and> instance_wf (spec x') \<and> node_removed v (spec x) (spec x')"
      using spec [OF assms(1) [unfolded cleaned_def], of k] assms(2) x(2) x' by (cases "k = (nm, ns)") (auto split: option.splits)
  qed
  show "same_but (nm, ns) st st'" using x by (simp add: same_but_def)
qed

text \<open>The store as the Controller sees it: its delays and its clock leave the Instances alone.\<close>

locale controller_store = kube_store +
  fixes rt :: "'a controller_rt"
  assumes delay_keeps: "wp (controller_random_delay rt) (\<lambda>_ w'. insts w' = insts w) w"
    and utc_now_keeps: "wp (utc_now rt) (\<lambda>_ w'. insts w' = insts w) w"
begin

lemma wp_delay: "(\<And>w'. insts w' = insts w \<Longrightarrow> Q () w') \<Longrightarrow> wp (controller_random_delay rt) Q w"
  by (rule wp_mono [OF delay_keeps]) auto

text \<open>One update of the loop.\<close>

lemma wp_update_clean:
  assumes "cleaned v st0 (insts w)" "st0 (nm, ns) = Some x0" and "instance_wf (spec seen)" "node_removed v (spec x0) (spec seen)"
    and "\<And>r w'. cleaned v st0 (insts w') \<Longrightarrow> same_but (nm, ns) (insts w) (insts w') \<Longrightarrow>
       (is_ok r \<Longrightarrow> v \<noteq> '''' \<Longrightarrow> \<exists>x'. insts w' (nm, ns) = Some x' \<and> node_gone v (spec x')) \<Longrightarrow> Q r w'"
  shows "wp (try_remove_nodes_from_instance v nm ns seen ki) Q w"
  unfolding try_remove_eq
proof (rule wp_update_instance)
  fix r :: "(unit, error) result" and w'
  assume "write_effect (patched (without_node v (spec seen)) nm ns) (insts w) r (insts w')"
  then consider "patched (without_node v (spec seen)) nm ns (insts w) (insts w')"
    | "\<not> is_ok r" "insts w' = insts w" by (auto simp: write_effect_def)
  then show "Q r w'"
  proof cases
    case 1
    from cleaned_patch [OF assms(1-4) 1] show ?thesis by (intro assms(5)) blast+
  qed (use assms(1) in \<open>auto intro!: assms(5)\<close>)
qed

lemma wp_remove_node_tries:
  assumes "cleaned v st0 (insts w)" "st0 (nm, ns) = Some x0" and "instance_wf (spec inst)" "node_removed v (spec x0) (spec inst)"
    and "xs \<noteq> []" "last xs = MAX_INSTANCE_UPDATE_TRIES - 1"
    and Q: "\<And>r w'. cleaned v st0 (insts w') \<Longrightarrow> same_but (nm, ns) (insts w) (insts w') \<Longrightarrow>
       (is_ok r \<Longrightarrow> v \<noteq> '''' \<Longrightarrow> \<exists>x'. insts w' (nm, ns) = Some x' \<and> node_gone v (spec x')) \<Longrightarrow> Q r w'"
  shows "wp (remove_node_tries rt v nm ns inst ki xs) Q w"
  using assms(1,5-)
proof (induction xs arbitrary: w)
  case (Cons x xs)
  have body: "wp (State_Monad.bind (try_remove_nodes_from_instance v nm ns seen ki) (\<lambda>r. case r of
       Ok _ \<Rightarrow> return (Ok ())
     | Err e \<Rightarrow> if x = MAX_INSTANCE_UPDATE_TRIES - 1 then return (Err e)
         else do { _ \<leftarrow> controller_random_delay rt; remove_node_tries rt v nm ns inst ki xs }
     | Panic p \<Rightarrow> return (Panic p))) Q w1"
    if seen: "instance_wf (spec seen)" "node_removed v (spec x0) (spec seen)" and w1: "insts w1 = insts w" for seen w1
    unfolding wp_bind
  proof (rule wp_update_clean [where ?st0.0 = st0 and ?x0.0 = x0, OF _ assms(2) seen])
    show "cleaned v st0 (insts w1)" using Cons.prems(1) w1 by simp
  next
    fix r :: "(unit, error) result" and w2
    assume r: "cleaned v st0 (insts w2)" "same_but (nm, ns) (insts w1) (insts w2)"
      "is_ok r \<Longrightarrow> v \<noteq> '''' \<Longrightarrow> \<exists>x'. insts w2 (nm, ns) = Some x' \<and> node_gone v (spec x')"
    have again: "wp (remove_node_tries rt v nm ns inst ki xs) Q w3"
      if "insts w3 = insts w2" "x \<noteq> MAX_INSTANCE_UPDATE_TRIES - 1" for w3
      by (rule Cons.IH) (use Cons.prems that r w1 in \<open>auto split: if_splits intro: same_but_trans\<close>)
    show "wp (case r of Ok _ \<Rightarrow> return (Ok ())
       | Err e \<Rightarrow> if x = MAX_INSTANCE_UPDATE_TRIES - 1 then return (Err e)
           else do { _ \<leftarrow> controller_random_delay rt; remove_node_tries rt v nm ns inst ki xs }
       | Panic p \<Rightarrow> return (Panic p)) Q w2"
      using r w1 again by (cases r) (auto intro!: wp_delay Cons.prems(4))
  qed
  show ?case
  proof (cases "x = 0")
    case True
    then show ?thesis using body [OF assms(3,4) refl]
      by (simp only: remove_node_tries.simps refl if_True try_then_return result.case)
  next
    case False
    have "wp (find_instance ki nm ns) (\<lambda>r w'. case r of
        Ok seen \<Rightarrow> wp (State_Monad.bind (try_remove_nodes_from_instance v nm ns seen ki) (\<lambda>r. case r of
             Ok _ \<Rightarrow> return (Ok ())
           | Err e \<Rightarrow> if x = MAX_INSTANCE_UPDATE_TRIES - 1 then return (Err e)
               else do { _ \<leftarrow> controller_random_delay rt; remove_node_tries rt v nm ns inst ki xs }
           | Panic p \<Rightarrow> return (Panic p))) Q w'
      | Err e \<Rightarrow> Q (Err e) w' | Panic p \<Rightarrow> Q (Panic p) w') w"
    proof (rule wp_find_instance)
      fix r :: "(KubeAkriInstance, error) result" and w' assume r: "insts w' = insts w" "\<And>x. r = Ok x \<Longrightarrow> insts w (nm, ns) = Some x"
      show "case r of
        Ok seen \<Rightarrow> wp (State_Monad.bind (try_remove_nodes_from_instance v nm ns seen ki) (\<lambda>r. case r of
             Ok _ \<Rightarrow> return (Ok ())
           | Err e \<Rightarrow> if x = MAX_INSTANCE_UPDATE_TRIES - 1 then return (Err e)
               else do { _ \<leftarrow> controller_random_delay rt; remove_node_tries rt v nm ns inst ki xs }
           | Panic p \<Rightarrow> return (Panic p))) Q w'
      | Err e \<Rightarrow> Q (Err e) w' | Panic p \<Rightarrow> Q (Panic p) w'"
      proof (cases r)
        case (Ok seen)
        from cleanedD [OF Cons.prems(1) r(2) [OF Ok]] assms(2)
        show ?thesis unfolding Ok result.case by (intro body r(1)) auto
      qed (use Cons.prems(1) r in \<open>auto intro!: Cons.prems(4)\<close>)
    qed
    then show ?thesis using False by (simp del: One_nat_def)
  qed
qed simp

end

context controller_store
begin

text \<open>The loop over the Instances: those handled so far no longer refer to the node.\<close>

lemma wp_disappearance:
  assumes wf: "\<forall>x \<in> ran (insts w). instance_wf (spec x)"
  shows "wp (handle_node_disappearance rt v ki) (\<lambda>r w'. cleaned v (insts w) (insts w')
     \<and> (is_ok r \<longrightarrow> v \<noteq> '''' \<longrightarrow> (\<forall>x \<in> ran (insts w'). node_gone v (spec x)))) w"
proof -
  define handled :: "KubeAkriInstance list \<Rightarrow> inst_store \<Rightarrow> bool"
    where "handled = (\<lambda>done st. \<forall>x ns x'. x \<in> set done \<longrightarrow> m_namespace (metadata x) = Some ns \<longrightarrow>
      st (m_name (metadata x), ns) = Some x' \<longrightarrow> v \<noteq> '''' \<longrightarrow> node_gone v (spec x'))"
  define post where "post = (\<lambda>(r :: (unit, error) result) w'. cleaned v (insts w) (insts w')
     \<and> (is_ok r \<longrightarrow> v \<noteq> '''' \<longrightarrow> (\<forall>x \<in> ran (insts w'). node_gone v (spec x))))"
  have "wp (try_for xs (clean_instance rt v ki)) post w1" if xs: "set xs = ran (insts w)" and w1: "insts w1 = insts w" for xs w1
  proof (rule wp_try_for [where I = "\<lambda>done w'. cleaned v (insts w) (insts w') \<and> handled done (insts w')"
        and E = "\<lambda>_ w'. cleaned v (insts w) (insts w')"])
    show "cleaned v (insts w) (insts w1) \<and> handled [] (insts w1)"
      using wf w1 by (simp add: cleaned_refl handled_def)
  next
    fix w' assume end': "cleaned v (insts w) (insts w') \<and> handled xs (insts w')"
    have "node_gone v (spec x')" if x': "insts w' k = Some x'" "v \<noteq> ''''" for k x'
    proof -
      obtain nm ns where k: "k = (nm, ns)" by (cases k)
      from cleanedD end' x'(1) obtain x where x: "insts w k = Some x" by blast
      then have "stored_as x nm ns" "x \<in> set xs" using insts_named k xs by (auto intro: ranI)
      then show ?thesis using end' x' k unfolding handled_def stored_as_def by blast
    qed
    then show "post (Ok ()) w'" using end' by (auto simp: post_def ran_def)
  next
    fix "done" x rest w'
    assume split: "xs = done @ x # rest" and inv: "cleaned v (insts w) (insts w') \<and> handled done (insts w')"
    then obtain nm ns where x: "insts w (nm, ns) = Some x" using xs by (force simp: ran_def)
    then have st: "stored_as x nm ns" "instance_wf (spec x)" using insts_named wf by (auto intro: ranI)
    have step: "cleaned v (insts w) (insts w2) \<and> handled (done @ [x]) (insts w2)"
      if "cleaned v (insts w) (insts w2)" "same_but (nm, ns) (insts w') (insts w2)"
        "v \<noteq> '''' \<Longrightarrow> \<exists>x'. insts w2 (nm, ns) = Some x' \<and> node_gone v (spec x')" for w2
    proof -
      have "handled (done @ [x]) (insts w2)"
        unfolding handled_def
      proof (intro allI impI)
        fix y nsy y' assume y: "y \<in> set (done @ [x])" "m_namespace (metadata y) = Some nsy"
          "insts w2 (m_name (metadata y), nsy) = Some y'" "v \<noteq> ''''"
        show "node_gone v (spec y')"
        proof (cases "(m_name (metadata y), nsy) = (nm, ns)")
          case True
          then show ?thesis using that(3) y by auto
        next
          case False
          then have "y \<in> set done" using y(1,2) st by (auto simp: stored_as_def)
          moreover have "insts w' (m_name (metadata y), nsy) = Some y'"
            using False that(2) y(3) unfolding same_but_def by metis
          ultimately show ?thesis using inv y unfolding handled_def by blast
        qed
      qed
      then show ?thesis using that(1) by simp
    qed
    have "wp (remove_node_tries rt v nm ns x ki tries) (\<lambda>r w2. case r of
        Ok _ \<Rightarrow> cleaned v (insts w) (insts w2) \<and> handled (done @ [x]) (insts w2) | _ \<Rightarrow> cleaned v (insts w) (insts w2)) w'"
      by (rule wp_remove_node_tries [where ?st0.0 = "insts w" and ?x0.0 = x])
         (use inv x st step in \<open>auto simp: tries_eq MAX_INSTANCE_UPDATE_TRIES_def split: result.split\<close>)
    then show "wp (clean_instance rt v ki x) (\<lambda>r w2. case r of
        Ok _ \<Rightarrow> cleaned v (insts w) (insts w2) \<and> handled (done @ [x]) (insts w2) | _ \<Rightarrow> cleaned v (insts w) (insts w2)) w'"
      using st(1) by (simp add: clean_instance_def Let_def try_then_return stored_as_def)
  qed (simp add: post_def)
  then have "wp (handle_node_disappearance rt v ki) post w"
    unfolding handle_node_disappearance_def wp_try_then
    by (intro wp_get_instances) (auto simp: post_def cleaned_refl wf split: result.split)
  then show ?thesis by (simp add: post_def)
qed

end

locale reliable_controller_store = controller_store + reliable_store
begin

lemma wp_clean_ok:
  assumes "insts w (m_name (metadata x), ns) \<noteq> None" "m_namespace (metadata x) = Some ns"
  shows "wp (clean_instance rt v ki x) (\<lambda>r w'. r = Ok () \<and> dom (insts w') = dom (insts w)) w"
proof -
  obtain y where y: "insts w (m_name (metadata x), ns) = Some y" using assms(1) by blast
  have "wp (try_remove_nodes_from_instance v (m_name (metadata x)) ns x ki)
      (\<lambda>r w'. r = Ok () \<and> dom (insts w') = dom (insts w)) w"
    unfolding try_remove_eq by (rule wp_update_instance_ok [OF y]) (use y in \<open>auto simp: patched_def split: if_splits\<close>)
  then have "wp (remove_node_tries rt v (m_name (metadata x)) ns x ki (0 # xs))
      (\<lambda>r w'. r = Ok () \<and> dom (insts w') = dom (insts w)) w" for xs
    by (auto simp: try_then_return elim!: wp_mono)
  then show ?thesis using assms(2) by (simp add: clean_instance_def Let_def try_then_return tries_cons)
qed

lemma wp_disappearance_ok: "wp (handle_node_disappearance rt v ki) (\<lambda>r _. r = Ok ()) w"
proof -
  have "wp (try_for xs (clean_instance rt v ki)) (\<lambda>r _. r = Ok ()) w1"
    if xs: "set xs = ran (insts w)" and w1: "insts w1 = insts w" for xs w1
  proof (rule wp_try_for [where I = "\<lambda>_ w'. dom (insts w') = dom (insts w)" and E = "\<lambda>_ _. False"])
    fix "done" x rest w'
    assume "xs = done @ x # rest" and inv: "dom (insts w') = dom (insts w)"
    then obtain nm ns where x: "insts w (nm, ns) = Some x" using xs by (force simp: ran_def)
    then have "stored_as x nm ns" by (rule insts_named)
    moreover have "insts w' (nm, ns) \<noteq> None" using inv x by auto
    ultimately have "wp (clean_instance rt v ki x) (\<lambda>r w2. r = Ok () \<and> dom (insts w2) = dom (insts w')) w'"
      by (intro wp_clean_ok) (auto simp: stored_as_def)
    then show "wp (clean_instance rt v ki x) (\<lambda>r w2. case r of Ok _ \<Rightarrow> dom (insts w2) = dom (insts w) | _ \<Rightarrow> False) w'"
      by (rule wp_mono) (use inv in auto)
  qed (use w1 in auto)
  note loop = this
  have "wp (get_instances ki) (\<lambda>r w'. is_ok r \<and> insts w' = insts w \<and> (\<forall>xs. r = Ok xs \<longrightarrow> set xs = ran (insts w))) w"
    using get_instances_ok get_instances_law by (simp add: wp_conj)
  then show ?thesis unfolding handle_node_disappearance_def wp_try_then
    by (rule wp_mono) (auto simp: is_ok_iff intro: loop)
qed

end

interpretation cluster_controller: reliable_controller_store cluster_kube cluster_insts sample_rt
  by unfold_locales (simp_all add: sample_rt_def)

text \<open>
  C27: Cleaning up after a node is safe on every store that keeps the contract, whatever fails
  and however often updates are tried again: no Instance appears or disappears, and an
  Instance changes at most by losing the node from its list and by having slots freed that
  the node held. If success is reported, no Instance refers to the node any more.
\<close>

theorem node_cleanup_safe:
  assumes "controller_store ki insts rt" and "\<forall>x \<in> ran (insts w). instance_wf (spec x)" and "v \<noteq> ''''"
    and "run_state (handle_node_disappearance rt v ki) w = (r, w')"
  shows "cleaned v (insts w) (insts w') \<and> (is_ok r \<longrightarrow> (\<forall>x \<in> ran (insts w'). node_gone v (spec x)))"
  using wp_run [OF controller_store.wp_disappearance [OF assms(1,2)] assms(4)] assms(3) by simp

theorem node_cleanup_safe_witness:
  "cleaned ''node-a'' (cluster_insts sample_cluster)
     (cluster_insts (snd (run_state (handle_node_disappearance sample_rt ''node-a'' cluster_kube) sample_cluster)))"
proof -
  obtain r w' where run: "run_state (handle_node_disappearance sample_rt ''node-a'' cluster_kube) sample_cluster = (r, w')"
    by (metis surj_pair)
  show ?thesis
    using node_cleanup_safe [OF cluster_controller.controller_store_axioms sample_wf _ run] by (simp add: run)
qed

text \<open>
  When the cluster answers, cleaning up after a node succeeds, and afterwards no Instance
  of the cluster lists the node or has a slot that the node holds.
\<close>

theorem node_cleanup_complete:
  assumes "reliable_controller_store ki insts rt" and "\<forall>x \<in> ran (insts w). instance_wf (spec x)" and "v \<noteq> ''''"
    and "run_state (handle_node_disappearance rt v ki) w = (r, w')"
  shows "r = Ok () \<and> (\<forall>x \<in> ran (insts w'). node_gone v (spec x))"
proof -
  have st: "controller_store ki insts rt" using assms(1) by (simp add: reliable_controller_store_def)
  show ?thesis
    using wp_run [OF reliable_controller_store.wp_disappearance_ok [OF assms(1)] assms(4)] assms(3)
      wp_run [OF controller_store.wp_disappearance [OF st assms(2)] assms(4)] by simp
qed

theorem node_cleanup_complete_witness:
  "fst (run_state (handle_node_disappearance sample_rt ''node-a'' cluster_kube) sample_cluster) = Ok ()"
proof -
  obtain r w' where run: "run_state (handle_node_disappearance sample_rt ''node-a'' cluster_kube) sample_cluster = (r, w')"
    by (metis surj_pair)
  show ?thesis
    using node_cleanup_complete [OF cluster_controller.reliable_controller_store_axioms sample_wf _ run] by (simp add: run)
qed

section \<open>The watcher as a state machine\<close>

text \<open>
  The machine over what is known of each node: \<open>watcher_cleans\<close> is the node whose
  disappearance an event reveals, \<open>watcher_next\<close> the knowledge after it. A node that was
  never seen counts as running when its first sign is that it is gone.
\<close>

type_synonym node_knowledge = "string \<Rightarrow> NodeState option"

fun watcher_cleans :: "node_knowledge \<Rightarrow> NodeObject WatchEvent \<Rightarrow> string option" where
  "watcher_cleans st (Modified node) = (if \<not> is_node_ready node \<and> st (m_name (metadata node)) \<in> {None, Some NodeRunning}
     then Some (m_name (metadata node)) else None)"
| "watcher_cleans st (Deleted node) = (if st (m_name (metadata node)) \<in> {None, Some NodeRunning}
     then Some (m_name (metadata node)) else None)"
| "watcher_cleans st _ = None"

fun watcher_next :: "node_knowledge \<Rightarrow> NodeObject WatchEvent \<Rightarrow> node_knowledge" where
  "watcher_next st (Added node) = st(m_name (metadata node) \<mapsto> (if is_node_ready node then NodeRunning else Known))"
| "watcher_next st (Modified node) = (if is_node_ready node then st(m_name (metadata node) \<mapsto> NodeRunning)
     else if st (m_name (metadata node)) \<in> {None, Some NodeRunning}
     then st(m_name (metadata node) \<mapsto> InstancesCleaned) else st)"
| "watcher_next st (Deleted node) = (if st (m_name (metadata node)) \<in> {None, Some NodeRunning}
     then st(m_name (metadata node) \<mapsto> InstancesCleaned) else st)"
| "watcher_next st (WatchError e) = st"

fun watcher_cleanups :: "node_knowledge \<Rightarrow> NodeObject WatchEvent list \<Rightarrow> string option list" where
  "watcher_cleanups st [] = []"
| "watcher_cleanups st (ev # evs) = watcher_cleans st ev # watcher_cleanups (watcher_next st ev) evs"

definition is_get_instances :: "kube_event \<Rightarrow> bool" where
  "is_get_instances ev \<longleftrightarrow> (case ev of EvGetInstances _ \<Rightarrow> True | _ \<Rightarrow> False)"

definition clean_up_calls :: "kube_event list \<Rightarrow> nat" where
  "clean_up_calls tr = length (filter is_get_instances tr)"

lemma emits_remove_node_tries: "emits (\<lambda>ev. \<not> is_get_instances ev) (remove_node_tries (spied_rt rt) v nm ns x (spied ki) xs)"
proof (induction xs)
  case (Cons a xs)
  then show ?case
    by (auto simp: try_remove_eq is_get_instances_def intro!: emits_try_then emits_bind emits_return emits_spy
        emits_unrecorded split: result.split)
qed (simp add: emits_return)

lemma emits_clean_instance: "emits (\<lambda>ev. \<not> is_get_instances ev) (clean_instance (spied_rt rt) v (spied ki) x)"
  unfolding clean_instance_def Let_def by (intro emits_try_return emits_remove_node_tries)

text \<open>One clean-up lists the Instances once.\<close>

lemma wp_disappearance_calls:
  "wp (handle_node_disappearance (spied_rt rt) v (spied ki))
     (\<lambda>_ (_, tr'). clean_up_calls tr' = clean_up_calls tr + 1) (w, tr)"
proof -
  have one: "clean_up_calls (tr @ [EvGetInstances r]) = clean_up_calls tr + 1" for r
    by (simp add: clean_up_calls_def is_get_instances_def)
  have loop: "wp (try_for xs (clean_instance (spied_rt rt) v (spied ki)))
      (\<lambda>_ (_, tr'). clean_up_calls tr' = clean_up_calls tr + 1) (w', tr @ [EvGetInstances r])" for xs w' r
    by (rule wp_mono [OF emitsD [OF emits_try_for [OF emits_clean_instance]]])
       (auto simp: clean_up_calls_def is_get_instances_def [of "EvGetInstances _"] list_all_iff)
  show ?thesis
    unfolding handle_node_disappearance_def wp_try_then spied_sel wp_spy
    by (rule wp_runI) (auto simp: one split: result.split intro: loop [simplified])
qed

lemma wp_handle_node:
  "wp (handle_node (spied_rt rt) self ev (spied ki)) (\<lambda>(r, self') (_, tr'). is_ok r \<longrightarrow>
      map_of (known_nodes self') = watcher_next (map_of (known_nodes self)) ev
    \<and> clean_up_calls tr' = clean_up_calls tr + (if watcher_cleans (map_of (known_nodes self)) ev = None then 0 else 1)) (w, tr)"
proof -
  have gone: "wp (call_handle_node_disappearance_if_needed (spied_rt rt) self node (spied ki)) (\<lambda>(r, self') (_, tr'). is_ok r \<longrightarrow>
      map_of (known_nodes self') = watcher_next (map_of (known_nodes self)) (Deleted node)
    \<and> clean_up_calls tr' = clean_up_calls tr + (if watcher_cleans (map_of (known_nodes self)) (Deleted node) = None then 0 else 1)) (w, tr)"
    for node
    unfolding call_handle_node_disappearance_if_needed_def Let_def
    by (auto simp: hashmap_simps fun_eq_iff split: option.split result.splits
        intro!: wp_mono [OF wp_disappearance_calls])
  show ?thesis
  proof (cases ev)
    case (Modified node)
    then show ?thesis using gone [of node] by (auto simp: handle_node_def hashmap_simps fun_eq_iff cong: if_cong)
  next
    case (Deleted node)
    then show ?thesis using gone [of node] by (simp add: handle_node_def)
  qed (auto simp: handle_node_def hashmap_simps fun_eq_iff)
qed

definition sees_ready :: "string \<Rightarrow> NodeObject WatchEvent \<Rightarrow> bool" where
  "sees_ready n ev \<longleftrightarrow> (case ev of Added node \<Rightarrow> m_name (metadata node) = n \<and> is_node_ready node
     | Modified node \<Rightarrow> m_name (metadata node) = n \<and> is_node_ready node | _ \<Rightarrow> False)"

text \<open>A node that is settled stays so until it is seen ready, and is not cleaned up meanwhile.\<close>

lemma settled_step:
  assumes "st n \<in> {Some Known, Some InstancesCleaned}"
  shows "watcher_cleans st ev \<noteq> Some n"
    and "\<not> sees_ready n ev \<Longrightarrow> watcher_next st ev n \<in> {Some Known, Some InstancesCleaned}"
  using assms by (cases ev; force simp: sees_ready_def split: if_splits)+

lemma cleans_next: "watcher_cleans st ev = Some n \<Longrightarrow> watcher_next st ev n = Some InstancesCleaned"
  by (cases ev) (auto split: if_splits)

lemma settled_until_ready:
  assumes "st n \<in> {Some Known, Some InstancesCleaned}" "k < length evs" "watcher_cleanups st evs ! k = Some n"
  shows "\<exists>i < k. sees_ready n (evs ! i)"
  using assms
proof (induction evs arbitrary: st k)
  case (Cons ev evs)
  obtain k' where k: "k = Suc k'" using Cons.prems settled_step(1) by (cases k) auto
  show ?case
  proof (cases "sees_ready n ev")
    case False
    then have "\<exists>i < k'. sees_ready n (evs ! i)"
      using Cons.prems k settled_step(2) by (intro Cons.IH [of "watcher_next st ev"]) auto
    then show ?thesis using k by auto
  qed (use k in auto)
qed simp

lemma cleaned_once:
  assumes "j < k" "k < length evs" "watcher_cleanups st evs ! j = Some n" "watcher_cleanups st evs ! k = Some n"
  shows "\<exists>i. j < i \<and> i < k \<and> sees_ready n (evs ! i)"
  using assms
proof (induction evs arbitrary: st j k)
  case (Cons ev evs)
  obtain k' where k: "k = Suc k'" using Cons.prems(1) by (cases k) auto
  show ?case
  proof (cases j)
    case 0
    then have "watcher_next st ev n = Some InstancesCleaned" using Cons.prems(3) cleans_next by simp
    then have "\<exists>i < k'. sees_ready n (evs ! i)"
      using Cons.prems k by (intro settled_until_ready [of "watcher_next st ev"]) auto
    then show ?thesis using 0 k by auto
  next
    case (Suc j')
    then have "\<exists>i. j' < i \<and> i < k' \<and> sees_ready n (evs ! i)"
      using Cons.prems k by (intro Cons.IH [of j' k' "watcher_next st ev"]) auto
    then show ?thesis using Suc k by auto
  qed
qed simp

lemma wp_watch_nodes:
  "wp (watch_nodes (spied_rt rt) (spied ki) self (map Ok evs)) (\<lambda>(r, self') (_, tr'). is_ok r \<longrightarrow>
      map_of (known_nodes self') = fold (\<lambda>ev st. watcher_next st ev) evs (map_of (known_nodes self))
    \<and> clean_up_calls tr' = clean_up_calls tr + length (filter (\<lambda>c. c \<noteq> None) (watcher_cleanups (map_of (known_nodes self)) evs))) (w, tr)"
proof (induction evs arbitrary: self w tr)
  case (Cons ev evs)
  have "wp (handle_node (spied_rt rt) self ev (spied ki)) (\<lambda>(r, self') s. wp (case r of
        Ok _ \<Rightarrow> watch_nodes (spied_rt rt) (spied ki) self' (map Ok evs) | _ \<Rightarrow> return (r, self'))
      (\<lambda>(r, self') (_, tr'). is_ok r \<longrightarrow>
      map_of (known_nodes self') = fold (\<lambda>ev st. watcher_next st ev) (ev # evs) (map_of (known_nodes self))
    \<and> clean_up_calls tr' = clean_up_calls tr + length (filter (\<lambda>c. c \<noteq> None) (watcher_cleanups (map_of (known_nodes self)) (ev # evs)))) s) (w, tr)"
  proof (rule wp_mono [OF wp_handle_node], clarify, goal_cases)
    case (1 r self' w' tr')
    then show ?case
      by (cases r) (auto intro!: wp_mono [OF Cons.IH])
  qed
  then show ?case by (simp add: case_prod_beta' split_def)
qed simp

text \<open>
  C28: The node watcher does what its state machine says. Over any sequence of node events that
  it handles without error, its knowledge of each node is the machine's, and it starts a
  clean-up (it lists the Instances) exactly as often as the machine does: once per
  disappearance, since between two clean-ups of one node the node was seen ready.
\<close>

theorem watch_nodes_spec:
  assumes "run_state (watch_nodes (spied_rt rt) (spied ki) self (map Ok evs)) (w, []) = ((r, self'), (w', tr))"
    and "is_ok r" and "cs = watcher_cleanups (map_of (known_nodes self)) evs"
  shows "map_of (known_nodes self') = fold (\<lambda>ev st. watcher_next st ev) evs (map_of (known_nodes self))
    \<and> clean_up_calls tr = length (filter (\<lambda>c. c \<noteq> None) cs)
    \<and> (\<forall>j k n. j < k \<longrightarrow> k < length evs \<longrightarrow> cs ! j = Some n \<longrightarrow> cs ! k = Some n \<longrightarrow>
         (\<exists>i. j < i \<and> i < k \<and> sees_ready n (evs ! i)))"
  using wp_run [OF wp_watch_nodes assms(1)] assms(2,3) cleaned_once
  by (auto simp: clean_up_calls_def)

text \<open>A node of a cluster without Instances is seen ready and then deleted.\<close>

definition empty_cluster :: cluster where
  "empty_cluster = sample_cluster\<lparr>cl_instances := []\<rparr>"

definition sample_node :: NodeObject where
  "sample_node = \<lparr>o_types = \<lparr>t_apiVersion = None, t_kind = None\<rparr>,
     metadata = ObjectMeta_default\<lparr>m_name := ''node-a''\<rparr>, spec = '''',
     status = Some \<lparr>ns_conditions = Some [\<lparr>nc_type = ''Ready'', nc_status = ''True''\<rparr>]\<rparr>\<rparr>"

lemma empty_disappearance: "run_state (handle_node_disappearance (spied_rt sample_rt) ''node-a'' (spied cluster_kube))
    (empty_cluster, tr) = (Ok (), (empty_cluster, tr @ [EvGetInstances (Ok [])]))"
  by (simp add: handle_node_disappearance_def spy_def instance_get_instances_def try_then_def
      cluster_client_def cluster_list_def listed_def empty_cluster_def request_def)

theorem watch_nodes_spec_witness:
  "clean_up_calls (snd (snd (run_state (watch_nodes (spied_rt sample_rt) (spied cluster_kube) NodeWatcher_new
      (map Ok [Added sample_node, Deleted sample_node])) (empty_cluster, [])))) = 1"
proof -
  obtain r self' w' tr where run: "run_state (watch_nodes (spied_rt sample_rt) (spied cluster_kube) NodeWatcher_new
      (map Ok [Added sample_node, Deleted sample_node])) (empty_cluster, []) = ((r, self'), (w', tr))"
    by (metis surj_pair)
  have ready: "is_node_ready sample_node" "m_name (metadata sample_node) = ''node-a''"
    by (simp_all add: is_node_ready_def sample_node_def)
  have "is_ok r" using run
    by (auto simp: handle_node_def ready call_handle_node_disappearance_if_needed_def NodeWatcher_new_def Let_def
        empty_disappearance split_def)
  from watch_nodes_spec [OF run this refl] have "clean_up_calls tr = 1"
    by (simp add: ready NodeWatcher_new_def)
  then show ?thesis unfolding run by simp
qed

end
