(* ===== verification/Instance_Action.thy ===== *)
theory Instance_Action
  imports Pod_Action Kube_Store
begin

text \<open>
  \<open>controller/src/util/instance_action.rs\<close>: the Controller's reaction to an Instance that is
  added, modified or deleted. From the Instance's nodes and the broker Pods that exist it
  plans one action per node, then deletes and creates Pods. The lemmas say which calls it
  makes on every cluster, and exactly which ones when the calls succeed.
\<close>

section \<open>Definitions\<close>

definition PENDING_POD_GRACE_PERIOD_MINUTES :: int where "PENDING_POD_GRACE_PERIOD_MINUTES = 5"
definition FAILED_POD_GRACE_PERIOD_MINUTES :: int where "FAILED_POD_GRACE_PERIOD_MINUTES = 0"

record PodContext =
  ctx_node_name :: "string option"
  ctx_namespace :: "string option"
  ctx_action :: PodAction

type_synonym pod_plan = "(string, PodContext) hashmap"

definition determine_action_for_pod :: "'w controller_rt \<Rightarrow> PodObject \<Rightarrow> InstanceAction \<Rightarrow> pod_plan
    \<Rightarrow> ('w, pod_plan) io" where
  "determine_action_for_pod rt k8s_pod iact nodes_to_act_on =
     (case status k8s_pod of None \<Rightarrow> return (Ok nodes_to_act_on)
      | Some st \<Rightarrow> (case phase st of None \<Rightarrow> return (Ok nodes_to_act_on)
      | Some pod_phase \<Rightarrow> (case map_of (m_labels (metadata k8s_pod)) AKRI_TARGET_NODE_LABEL_NAME of
          None \<Rightarrow> return (Ok nodes_to_act_on)
      | Some node_to_run_pod_on \<Rightarrow>
          (case map_of (m_labels (metadata k8s_pod)) AKRI_INSTANCE_LABEL_NAME of
             None \<Rightarrow> return (Ok nodes_to_act_on)
           | Some _ \<Rightarrow> do {
               let update_pod_context = \<lparr>ctx_node_name = Some node_to_run_pod_on,
                     ctx_namespace = m_namespace (metadata k8s_pod), ctx_action = NoAction\<rparr>;
               let pod_action_info = \<lparr>
                     pending_grace_time_in_minutes = PENDING_POD_GRACE_PERIOD_MINUTES,
                     ended_grace_time_in_minutes = FAILED_POD_GRACE_PERIOD_MINUTES,
                     pai_phase = pod_phase,
                     pai_instance_action = iact,
                     status_start_time = start_time st,
                     unknown_node = \<not> hm_contains nodes_to_act_on node_to_run_pod_on,
                     trace_node_name = m_name (metadata k8s_pod)\<rparr>;
               a \<leftarrow> select_pod_action rt pod_action_info;
               return (case a of
                   Ok act \<Rightarrow> Ok (hm_insert node_to_run_pod_on (update_pod_context\<lparr>ctx_action := act\<rparr>) nodes_to_act_on)
                 | Err _ \<Rightarrow> Ok nodes_to_act_on
                 | Panic p \<Rightarrow> Panic p)
             }))))"

text \<open>\<open>instance_pods.items.iter().for_each(..)\<close>.\<close>

fun determine_actions :: "'w controller_rt \<Rightarrow> InstanceAction \<Rightarrow> PodObject list \<Rightarrow> pod_plan \<Rightarrow> ('w, pod_plan) io"
where
  "determine_actions rt iact [] m = return (Ok m)"
| "determine_actions rt iact (p # ps) m =
     try_then (determine_action_for_pod rt p iact m) (determine_actions rt iact ps)"

definition handle_deletion_work :: "'w controller_rt \<Rightarrow> string \<Rightarrow> string \<Rightarrow> bool \<Rightarrow> string \<Rightarrow> PodContext
    \<Rightarrow> 'w kube_interface \<Rightarrow> ('w, unit) io" where
  "handle_deletion_work rt instance_name cfg_name instance_shared node_to_delete_pod context kube_interface =
     try_then (return (ok_or (ctx_node_name context)
       (Msg (''handle_deletion_work - Context node_name is missing for '' @ node_to_delete_pod)))) (\<lambda>context_node_name.
     try_then (return (ok_or (ctx_namespace context)
       (Msg (''handle_deletion_work - Context namespace is missing for '' @ node_to_delete_pod)))) (\<lambda>context_namespace.
     let pod_app_name = create_pod_app_name instance_name context_node_name instance_shared ''pod''
     in try_then (remove_pod kube_interface pod_app_name context_namespace) (\<lambda>_. do {
          _ \<leftarrow> broker_pod_count_dec rt cfg_name context_node_name;
          return (Ok ())
        })))"

definition handle_addition_work :: "'w controller_rt \<Rightarrow> string \<Rightarrow> string \<Rightarrow> string \<Rightarrow> string \<Rightarrow> bool \<Rightarrow> string
    \<Rightarrow> KubeAkriConfig \<Rightarrow> 'w kube_interface \<Rightarrow> ('w, unit) io" where
  "handle_addition_work rt instance_name instance_uid instance_namespace instance_class_name instance_shared
     new_node instance_configuration kube_interface =
     (case broker_pod_spec (spec instance_configuration) of
        Some template \<Rightarrow>
          let capability_id = AKRI_PREFIX @ ''/'' @ instance_name
          in try_then (return (create_new_pod_from_spec instance_namespace instance_name instance_class_name
                 (OwnershipInfo_new OwnedByInstance instance_name instance_uid) capability_id new_node
                 instance_shared template)) (\<lambda>new_pod.
             try_then (create_pod kube_interface new_pod instance_namespace) (\<lambda>_. do {
               _ \<leftarrow> broker_pod_count_inc rt instance_class_name new_node;
               return (Ok ())
             }))
      | None \<Rightarrow> return (Ok ()))"

definition default_pod_action :: "InstanceAction \<Rightarrow> PodAction" where
  "default_pod_action iact = (case iact of InstanceRemove \<Rightarrow> NoAction | _ \<Rightarrow> Add)"

definition initial_plan :: "InstanceAction \<Rightarrow> string list \<Rightarrow> pod_plan" where
  "initial_plan iact ns = hm_collect (map (\<lambda>node. (node,
     \<lparr>ctx_node_name = None, ctx_namespace = None, ctx_action = default_pod_action iact\<rparr>)) ns)"

definition pods_to_remove :: "pod_plan \<Rightarrow> (string \<times> PodContext) list" where
  "pods_to_remove m = filter (\<lambda>(_, v). ctx_action v = Remove \<or> ctx_action v = RemoveAndAdd) m"

definition nodes_to_add :: "pod_plan \<Rightarrow> string list" where
  "nodes_to_add m = map fst (filter (\<lambda>(_, v). ctx_action v = Add \<or> ctx_action v = RemoveAndAdd) m)"

definition execute_plan :: "'w controller_rt \<Rightarrow> KubeAkriInstance \<Rightarrow> string \<Rightarrow> string \<Rightarrow> 'w kube_interface
    \<Rightarrow> pod_plan \<Rightarrow> ('w, unit) io" where
  "execute_plan rt inst instance_namespace instance_uid kube_interface nodes_to_act_on =
     (let instance_name = m_name (metadata inst);
          cfg_name = configuration_name (spec inst);
          new_nodes = nodes_to_add nodes_to_act_on;
          additions = (\<lambda>instance_configuration_option. try_for new_nodes (\<lambda>new_node.
            try_then (return (unwrap instance_configuration_option)) (\<lambda>instance_configuration.
              handle_addition_work rt instance_name instance_uid instance_namespace cfg_name
                (shared (spec inst)) new_node instance_configuration kube_interface)))
      in try_then (try_for (pods_to_remove nodes_to_act_on) (\<lambda>(node_to_delete_pod, context).
           handle_deletion_work rt instance_name cfg_name (shared (spec inst)) node_to_delete_pod context
             kube_interface)) (\<lambda>_.
         if new_nodes \<noteq> [] then do {
           c \<leftarrow> find_configuration kube_interface cfg_name instance_namespace;
           case c of
             Ok config \<Rightarrow> additions (Some config)
           | Err _ \<Rightarrow> return (Ok ())
           | Panic p \<Rightarrow> return (Panic p)
         }
         else additions None))"

definition handle_instance_change :: "'w controller_rt \<Rightarrow> KubeAkriInstance \<Rightarrow> InstanceAction
    \<Rightarrow> 'w kube_interface \<Rightarrow> ('w, unit) io" where
  "handle_instance_change rt inst iact kube_interface =
     (let instance_name = m_name (metadata inst)
      in try_then (return (ok_or (m_namespace (metadata inst))
           (Msg (''Namespace not found for instance: '' @ instance_name)))) (\<lambda>instance_namespace.
         try_then (return (ok_or (m_uid (metadata inst))
           (Msg (''UID not found for instance: '' @ instance_name)))) (\<lambda>instance_uid.
         try_then (find_pods_with_label kube_interface (equals AKRI_INSTANCE_LABEL_NAME instance_name)) (\<lambda>instance_pods.
         try_then (determine_actions rt iact instance_pods (initial_plan iact (nodes (spec inst))))
           (execute_plan rt inst instance_namespace instance_uid kube_interface)))))"

definition handle_instance :: "'w controller_rt \<Rightarrow> KubeAkriInstance WatchEvent \<Rightarrow> 'w kube_interface
    \<Rightarrow> ('w, unit) io" where
  "handle_instance rt event kube_interface = (case event of
       Added inst \<Rightarrow> handle_instance_change rt inst InstanceAdd kube_interface
     | Deleted inst \<Rightarrow> handle_instance_change rt inst InstanceRemove kube_interface
     | Modified inst \<Rightarrow> handle_instance_change rt inst InstanceUpdate kube_interface
     | WatchError _ \<Rightarrow> return (Ok ()))"

text \<open>
  The tasks started for the Instances that exist already; a task that fails panics, which
  the final \<open>try_join_all\<close> reports. The tasks run one after the other in some order.
\<close>

fun join_tasks :: "('w, unit) io list \<Rightarrow> ('w, unit) io" where
  "join_tasks [] = return (Ok ())"
| "join_tasks (t # ts) = do {
     r \<leftarrow> t;
     rs \<leftarrow> join_tasks ts;
     return (if is_ok r then rs else Err (Msg ''task panicked''))
   }"

definition internal_handle_existing_instances :: "'w controller_rt \<Rightarrow> 'w kube_interface \<Rightarrow> ('w, unit) io" where
  "internal_handle_existing_instances rt kube_interface =
     try_then (get_instances kube_interface) (\<lambda>pre_existing_instances.
       join_tasks (map (\<lambda>inst. handle_instance_change rt inst InstanceUpdate kube_interface) pre_existing_instances))"

text \<open>The watch loop over the events that the informer's polls deliver.\<close>

fun internal_do_instance_watch :: "'w controller_rt \<Rightarrow> 'w kube_interface
    \<Rightarrow> (KubeAkriInstance WatchEvent, error) result list \<Rightarrow> ('w, unit) io" where
  "internal_do_instance_watch rt ki [] = return (Ok ())"
| "internal_do_instance_watch rt ki (ev # evs) =
     try_then (return ev) (\<lambda>event. try_then (handle_instance rt event ki)
       (\<lambda>_. internal_do_instance_watch rt ki evs))"

section \<open>The plan\<close>

text \<open>The decision about a Pod with the clock at \<open>t\<close>; \<open>None\<close> when the limit is out of range.\<close>

definition decision_at :: "'w controller_rt \<Rightarrow> PodActionInfo \<Rightarrow> time \<Rightarrow> PodAction option" where
  "decision_at rt self t = (if needs_clock self then
      (case grace_limit rt self of None \<Rightarrow> Some NoAction | Some None \<Rightarrow> None
       | Some (Some limit) \<Rightarrow> Some (pod_decision self (limit \<le> t)))
    else Some (pod_decision self False))"

lemma wp_select_at:
  assumes C: "\<And>w. wp (utc_now rt) (\<lambda>t _. C t) w"
    and Q: "\<And>t w'. C t \<Longrightarrow> Q (case decision_at rt self t of Some a \<Rightarrow> Ok a
        | None \<Rightarrow> Err (Msg ''checked_add_signed failed'')) (w', tr)"
  shows "wp (select_pod_action (spied_rt rt) self) Q (w, tr)"
proof -
  have limit: "grace_limit (spied_rt rt) self = grace_limit rt self" by (simp add: grace_limit_def)
  obtain t0 where t0: "C t0" using C [of w] by (auto simp: wp_def split: prod.splits)
  show ?thesis
  proof (cases "\<exists>l. needs_clock self \<and> grace_limit rt self = Some (Some l)")
    case True
    then obtain l where l: "needs_clock self" "grace_limit rt self = Some (Some l)" by blast
    have "wp (utc_now rt) (\<lambda>t w'. Q (Ok (pod_decision self (l \<le> t))) (w', tr)) w"
      using C by (rule wp_mono) (use Q l in \<open>force simp: decision_at_def\<close>)
    then show ?thesis using l by (simp add: select_pod_action_cases limit)
  next
    case False
    then show ?thesis using Q [OF t0, of w]
      by (auto simp: select_pod_action_cases limit decision_at_def split: option.splits if_splits)
  qed
qed

text \<open>
  The node a Pod is planned for: the one in its label, provided the Pod has a phase and
  names its Instance; any other Pod is ignored.
\<close>

definition pod_target :: "PodObject \<Rightarrow> string option" where
  "pod_target p = (case status p of None \<Rightarrow> None | Some st \<Rightarrow>
     (if phase st = None \<or> map_of (m_labels (metadata p)) AKRI_INSTANCE_LABEL_NAME = None then None
      else map_of (m_labels (metadata p)) AKRI_TARGET_NODE_LABEL_NAME))"

definition pod_info :: "InstanceAction \<Rightarrow> PodObject \<Rightarrow> bool \<Rightarrow> PodActionInfo" where
  "pod_info iact p unknown = \<lparr>
     pending_grace_time_in_minutes = PENDING_POD_GRACE_PERIOD_MINUTES,
     ended_grace_time_in_minutes = FAILED_POD_GRACE_PERIOD_MINUTES,
     pai_phase = the (phase (the (status p))), pai_instance_action = iact,
     status_start_time = start_time (the (status p)), unknown_node = unknown,
     trace_node_name = m_name (metadata p)\<rparr>"

definition pod_context :: "PodObject \<Rightarrow> string \<Rightarrow> PodAction \<Rightarrow> PodContext" where
  "pod_context p n a = \<lparr>ctx_node_name = Some n, ctx_namespace = m_namespace (metadata p), ctx_action = a\<rparr>"

lemma pod_context_sel [simp]: "ctx_node_name (pod_context p n a) = Some n"
  "ctx_namespace (pod_context p n a) = m_namespace (metadata p)" "ctx_action (pod_context p n a) = a"
  by (simp_all add: pod_context_def)

text \<open>How one Pod changes the plan, with the clock at \<open>t\<close>.\<close>

definition plan_pod :: "'w controller_rt \<Rightarrow> InstanceAction \<Rightarrow> time \<Rightarrow> PodObject \<Rightarrow> pod_plan \<Rightarrow> pod_plan" where
  "plan_pod rt iact t p m = (case pod_target p of None \<Rightarrow> m
     | Some n \<Rightarrow> (case decision_at rt (pod_info iact p (\<not> hm_contains m n)) t of None \<Rightarrow> m
         | Some a \<Rightarrow> hm_insert n (pod_context p n a) m))"

lemma wp_determine_action_for_pod:
  assumes C: "\<And>w. wp (utc_now rt) (\<lambda>t _. C t) w"
    and Q: "\<And>t w'. C t \<Longrightarrow> Q (Ok (plan_pod rt iact t p m)) (w', tr)"
  shows "wp (determine_action_for_pod (spied_rt rt) p iact m) Q (w, tr)"
proof (cases "pod_target p")
  case None
  obtain t0 where "C t0" using C [of w] by (auto simp: wp_def split: prod.splits)
  then have "Q (Ok m) (w, tr)" using Q [of t0 w] None by (simp add: plan_pod_def)
  then show ?thesis using None
    by (auto simp: determine_action_for_pod_def pod_target_def split: option.splits if_splits)
next
  case (Some n)
  define sel where "sel = select_pod_action (spied_rt rt) (pod_info iact p (\<not> hm_contains m n))"
  have "determine_action_for_pod (spied_rt rt) p iact m = do { a \<leftarrow> sel; return (case a of
       Ok act \<Rightarrow> Ok (hm_insert n (pod_context p n act) m) | Err _ \<Rightarrow> Ok m | Panic q \<Rightarrow> Panic q) }"
    using Some by (auto simp: determine_action_for_pod_def pod_target_def sel_def pod_info_def pod_context_def
        split: option.splits if_splits cong: result.case_cong)
  moreover have "wp sel (\<lambda>a. Q (case a of
       Ok act \<Rightarrow> Ok (hm_insert n (pod_context p n act) m) | Err _ \<Rightarrow> Ok m | Panic q \<Rightarrow> Panic q)) (w, tr)"
    unfolding sel_def
  proof (rule wp_select_at [OF C])
    fix t w' assume "C t"
    from Q [OF this, of w'] Some
    show "Q (case case decision_at rt (pod_info iact p (\<not> hm_contains m n)) t of Some a \<Rightarrow> Ok a
          | None \<Rightarrow> Err (Msg ''checked_add_signed failed'') of
        Ok act \<Rightarrow> Ok (hm_insert n (pod_context p n act) m) | Err _ \<Rightarrow> Ok m | Panic q \<Rightarrow> Panic q) (w', tr)"
      by (auto simp: plan_pod_def split: option.splits)
  qed
  ultimately show ?thesis by simp
qed

text \<open>All Pods in turn, the clock standing at the times \<open>ts\<close>.\<close>

fun plan_pods :: "'w controller_rt \<Rightarrow> InstanceAction \<Rightarrow> time list \<Rightarrow> PodObject list \<Rightarrow> pod_plan \<Rightarrow> pod_plan" where
  "plan_pods rt iact (t # ts) (p # ps) m = plan_pods rt iact ts ps (plan_pod rt iact t p m)"
| "plan_pods rt iact _ _ m = m"

lemma wp_determine_actions:
  assumes C: "\<And>w. wp (utc_now rt) (\<lambda>t _. C t) w"
    and Q: "\<And>ts w'. length ts = length ps \<Longrightarrow> list_all C ts \<Longrightarrow> Q (Ok (plan_pods rt iact ts ps m)) (w', tr)"
  shows "wp (determine_actions (spied_rt rt) iact ps m) Q (w, tr)"
  using Q
proof (induction ps arbitrary: m w)
  case Nil
  then show ?case using Nil [of "[]"] by simp
next
  case (Cons p ps)
  have "wp (determine_actions (spied_rt rt) iact ps (plan_pod rt iact t p m)) Q (w', tr)" if "C t" for t w'
    by (rule Cons.IH) (use that in \<open>auto intro: Cons.prems [of "t # ts" for ts, simplified]\<close>)
  then show ?case by (auto intro!: wp_determine_action_for_pod [OF C])
qed

text \<open>
  What every plan satisfies: a Pod is removed only because a listed Pod targets that node,
  under that Pod's node and namespace; Pods are added only while the Instance exists, on its
  nodes or (see below) on a node that a listed Pod targets.
\<close>

definition entry_ok :: "InstanceAction \<Rightarrow> string list \<Rightarrow> PodObject list \<Rightarrow> string \<Rightarrow> PodContext \<Rightarrow> bool" where
  "entry_ok iact ns ps n c \<longleftrightarrow>
     (ctx_action c \<in> {Remove, RemoveAndAdd} \<longrightarrow> (\<exists>p \<in> set ps. pod_target p = Some n \<and>
        ctx_node_name c = Some n \<and> ctx_namespace c = m_namespace (metadata p)))
   \<and> (ctx_action c \<in> {Add, RemoveAndAdd} \<longrightarrow> iact \<noteq> InstanceRemove \<and>
        (n \<in> set ns \<or> (\<exists>p \<in> set ps. pod_target p = Some n)))"

definition plan_ok :: "InstanceAction \<Rightarrow> string list \<Rightarrow> PodObject list \<Rightarrow> pod_plan \<Rightarrow> bool" where
  "plan_ok iact ns ps m \<longleftrightarrow> hm_wf m \<and> (\<forall>n c. map_of m n = Some c \<longrightarrow> entry_ok iact ns ps n c)"

lemma map_of_initial_plan: "map_of (initial_plan iact ns) n = (if n \<in> set ns then
    Some \<lparr>ctx_node_name = None, ctx_namespace = None, ctx_action = default_pod_action iact\<rparr> else None)"
proof -
  have "map_of (map (\<lambda>node. (node, c)) xs) n = (if n \<in> set xs then Some c else None)" for c :: PodContext and xs
    by (induction xs) auto
  then show ?thesis by (simp add: initial_plan_def hashmap_simps rev_map)
qed

lemma plan_ok_initial: "plan_ok iact ns ps (initial_plan iact ns)"
  by (auto simp: plan_ok_def map_of_initial_plan entry_ok_def default_pod_action_def
      split: if_splits InstanceAction.splits) (simp_all add: initial_plan_def)

lemma decision_at_values:
  "decision_at rt self t \<noteq> Some Add"
  "decision_at rt self t = Some RemoveAndAdd \<Longrightarrow> \<not> unknown_node self \<and> pai_instance_action self \<noteq> InstanceRemove"
  by (auto simp: decision_at_def pod_decision_def needs_clock_def split: if_splits option.splits)

lemma pod_info_sel [simp]: "unknown_node (pod_info iact p b) = b" "pai_instance_action (pod_info iact p b) = iact"
  by (simp_all add: pod_info_def)

lemma plan_ok_pod: "plan_ok iact ns ps m \<Longrightarrow> p \<in> set ps \<Longrightarrow> plan_ok iact ns ps (plan_pod rt iact t p m)"
  by (auto simp: plan_ok_def plan_pod_def hashmap_simps entry_ok_def split: option.splits if_splits
      simp: decision_at_values(1) dest: decision_at_values(2))

lemma plan_ok_pods: "plan_ok iact ns ps m \<Longrightarrow> set qs \<subseteq> set ps \<Longrightarrow> plan_ok iact ns ps (plan_pods rt iact ts qs m)"
  by (induction rt iact ts qs m rule: plan_pods.induct) (auto simp: plan_ok_pod)

section \<open>The calls that are made\<close>

text \<open>
  The name of the broker Pod for an Instance and a node: the Instance's name with dashes for
  dots, after the node's name when the Instance is shared.
\<close>

definition instance_pod_name :: "KubeAkriInstance \<Rightarrow> string \<Rightarrow> string" where
  "instance_pod_name inst n = (if shared (spec inst) then n @ ''-'' else [])
     @ map (\<lambda>c. if c = CHR ''.'' then CHR ''-'' else c) (m_name (metadata inst)) @ ''-pod''"

lemma instance_pod_name: "create_pod_app_name (m_name (metadata inst)) n (shared (spec inst)) ''pod'' = instance_pod_name inst n"
  by (simp add: create_pod_app_name_def instance_pod_name_def replace_char_def)

text \<open>
  A call that the reaction to an event of \<open>inst\<close> may make after the Pods \<open>ps\<close> were listed.
\<close>

fun instance_call :: "KubeAkriInstance \<Rightarrow> InstanceAction \<Rightarrow> PodObject list \<Rightarrow> kube_event \<Rightarrow> bool" where
  "instance_call inst iact ps (EvRemovePod nm ns r) \<longleftrightarrow> (\<exists>p \<in> set ps. \<exists>n.
     pod_target p = Some n \<and> m_namespace (metadata p) = Some ns \<and> nm = instance_pod_name inst n)"
| "instance_call inst iact ps (EvCreatePod pod ns r) \<longleftrightarrow> iact \<noteq> InstanceRemove \<and> m_namespace (metadata inst) = Some ns
     \<and> (\<exists>n. (n \<in> set (nodes (spec inst)) \<or> (\<exists>p \<in> set ps. pod_target p = Some n))
          \<and> pod_label pod AKRI_TARGET_NODE_LABEL_NAME = Some n \<and> pod_name pod = Some (instance_pod_name inst n)
          \<and> pod_label pod AKRI_INSTANCE_LABEL_NAME = Some (m_name (metadata inst)))"
| "instance_call inst iact ps (EvFindConfiguration nm ns r) \<longleftrightarrow> iact \<noteq> InstanceRemove
     \<and> nm = configuration_name (spec inst) \<and> m_namespace (metadata inst) = Some ns"
| "instance_call inst iact ps _ \<longleftrightarrow> False"

lemma emits_deletion_work:
  assumes "\<And>n ns r. ctx_node_name c = Some n \<Longrightarrow> ctx_namespace c = Some ns \<Longrightarrow>
      Q (EvRemovePod (create_pod_app_name nm n sh ''pod'') ns r)"
  shows "emits Q (handle_deletion_work (spied_rt rt) nm cfg sh k c (spied ki))"
  unfolding handle_deletion_work_def Let_def spied_sel spied_rt_sel
  by (rule emits_try_return, rule emits_try_return, rule emits_try_then)
     (auto intro!: emits_rules assms)

lemma emits_addition_work:
  assumes "\<And>pod r. pod_label pod AKRI_TARGET_NODE_LABEL_NAME = Some n \<Longrightarrow>
      pod_label pod AKRI_INSTANCE_LABEL_NAME = Some nm \<Longrightarrow>
      pod_name pod = Some (create_pod_app_name nm n sh ''pod'') \<Longrightarrow> Q (EvCreatePod pod ns r)"
  shows "emits Q (handle_addition_work (spied_rt rt) nm uid ns cls sh n cfg (spied ki))"
  unfolding handle_addition_work_def Let_def spied_sel spied_rt_sel
  by (auto split: option.split intro!: emits_return emits_try_return emits_try_then [OF emits_spy]
      emits_bind [OF emits_unrecorded] assms simp: pod_label_new pod_name_new)

lemma set_nodes_to_add: "hm_wf m \<Longrightarrow> n \<in> set (nodes_to_add m) \<longleftrightarrow>
    (\<exists>c. map_of m n = Some c \<and> (ctx_action c = Add \<or> ctx_action c = RemoveAndAdd))"
  by (force simp: nodes_to_add_def hm_wf_map_of)

lemma set_pods_to_remove: "hm_wf m \<Longrightarrow> (n, c) \<in> set (pods_to_remove m) \<longleftrightarrow>
    map_of m n = Some c \<and> (ctx_action c = Remove \<or> ctx_action c = RemoveAndAdd)"
  by (auto simp: pods_to_remove_def hm_wf_map_of)

lemma plan_okD:
  assumes "plan_ok iact ns ps m"
  shows "(n, c) \<in> set (pods_to_remove m) \<Longrightarrow> \<exists>p \<in> set ps. pod_target p = Some n \<and>
      ctx_node_name c = Some n \<and> ctx_namespace c = m_namespace (metadata p)"
    and "n \<in> set (nodes_to_add m) \<Longrightarrow> iact \<noteq> InstanceRemove \<and> (n \<in> set ns \<or> (\<exists>p \<in> set ps. pod_target p = Some n))"
  using assms by (auto simp: plan_ok_def entry_ok_def set_pods_to_remove set_nodes_to_add)

lemma emits_execute_plan:
  assumes "plan_ok iact (nodes (spec inst)) ps m" and "m_namespace (metadata inst) = Some ns"
  shows "emits (instance_call inst iact ps) (execute_plan (spied_rt rt) inst ns uid (spied ki) m)"
proof -
  have del: "emits (instance_call inst iact ps) (handle_deletion_work (spied_rt rt) (m_name (metadata inst)) cfg
       (shared (spec inst)) n c (spied ki))" if "(n, c) \<in> set (pods_to_remove m)" for n c cfg
    using plan_okD(1) [OF assms(1) that]
    by (intro emits_deletion_work) (fastforce simp: instance_pod_name)
  have add: "emits (instance_call inst iact ps) (handle_addition_work (spied_rt rt) (m_name (metadata inst)) uid ns cls
       (shared (spec inst)) n cfg (spied ki))" if "n \<in> set (nodes_to_add m)" for n cfg cls
    using plan_okD(2) [OF assms(1) that] assms(2)
    by (intro emits_addition_work) (auto simp: instance_pod_name)
  have conf: "nodes_to_add m \<noteq> [] \<Longrightarrow> iact \<noteq> InstanceRemove"
    using plan_okD(2) [OF assms(1), of "hd (nodes_to_add m)"] by auto
  show ?thesis
    unfolding execute_plan_def Let_def spied_sel
    using conf assms(2)
    by (auto intro!: emits_try_then emits_try_for emits_bind emits_return emits_spy emits_try_return del add
        split: result.split)
qed

lemma wp_handle_instance_change:
  assumes C: "\<And>w. wp (utc_now rt) (\<lambda>t _. C t) w"
    and "m_namespace (metadata inst) = Some ns" "m_uid (metadata inst) = Some uid"
    and none: "\<And>r w'. \<not> is_ok r \<Longrightarrow> Q (map_result (\<lambda>_. ()) id r) (w', tr @ [EvFindPodsWithLabel sel r])"
    and some: "\<And>ps ts w'. length ts = length ps \<Longrightarrow> list_all C ts \<Longrightarrow>
       wp (find_pods_with_label ki sel) (\<lambda>r _. r = Ok ps) w \<Longrightarrow>
       wp (execute_plan (spied_rt rt) inst ns uid (spied ki)
            (plan_pods rt iact ts ps (initial_plan iact (nodes (spec inst))))) Q
          (w', tr @ [EvFindPodsWithLabel sel (Ok ps)])"
    and sel: "sel = equals AKRI_INSTANCE_LABEL_NAME (m_name (metadata inst))"
  shows "wp (handle_instance_change (spied_rt rt) inst iact (spied ki)) Q (w, tr)"
proof -
  have "wp (find_pods_with_label ki sel) (\<lambda>r w'. case r of
      Ok ps \<Rightarrow> wp (try_then (determine_actions (spied_rt rt) iact ps (initial_plan iact (nodes (spec inst))))
        (execute_plan (spied_rt rt) inst ns uid (spied ki))) Q (w', tr @ [EvFindPodsWithLabel sel r])
    | Err e \<Rightarrow> Q (Err e) (w', tr @ [EvFindPodsWithLabel sel r])
    | Panic p \<Rightarrow> Q (Panic p) (w', tr @ [EvFindPodsWithLabel sel r])) w"
  proof (rule wp_runI)
    fix r w' assume run: "run_state (find_pods_with_label ki sel) w = (r, w')"
    show "case r of
      Ok ps \<Rightarrow> wp (try_then (determine_actions (spied_rt rt) iact ps (initial_plan iact (nodes (spec inst))))
        (execute_plan (spied_rt rt) inst ns uid (spied ki))) Q (w', tr @ [EvFindPodsWithLabel sel r])
    | Err e \<Rightarrow> Q (Err e) (w', tr @ [EvFindPodsWithLabel sel r])
    | Panic p \<Rightarrow> Q (Panic p) (w', tr @ [EvFindPodsWithLabel sel r])"
    proof (cases r)
      case (Ok ps)
      with run have ps: "wp (find_pods_with_label ki sel) (\<lambda>r _. r = Ok ps) w" by (simp add: wp_def)
      show ?thesis unfolding Ok result.case wp_try_then
        by (rule wp_determine_actions [OF C], unfold result.case, rule some [OF _ _ ps])
    qed (use none [of r w'] in simp_all)
  qed
  then show ?thesis
    using assms(2,3) by (simp add: handle_instance_change_def try_then_return sel Let_def cong: result.case_cong)
qed

text \<open>A listed Pod that has the name the Controller gives to the Pod of its node.\<close>

definition named_by_controller :: "KubeAkriInstance \<Rightarrow> PodObject \<Rightarrow> bool" where
  "named_by_controller inst p \<longleftrightarrow> (\<forall>n. pod_target p = Some n \<longrightarrow> m_name (metadata p) = instance_pod_name inst n)"

text \<open>
  C25: What the Controller does to the cluster on an event of an Instance, on every cluster
  and whatever fails. It lists the Instance's Pods first. After that it removes Pods only
  under the name that the Controller gives to the Pod of a node which a listed Pod's label
  names, and in that listed Pod's namespace; the name of the listed Pod itself is not
  consulted, so the Pod that is removed was listed provided that the listed Pods have the
  names the Controller gives. It looks up the Configuration, and it creates Pods that are
  named and labelled for this Instance and a node; nothing is looked up or created when the
  Instance was deleted. A Pod is created for a node under the name under which it would
  later be removed.
\<close>

theorem handle_instance_change_calls:
  assumes "run_state (handle_instance_change (spied_rt rt) inst iact (spied ki)) (w, []) = (r, (w', evs))"
  shows "evs = [] \<or> (\<exists>lr calls. evs = EvFindPodsWithLabel (equals AKRI_INSTANCE_LABEL_NAME (m_name (metadata inst))) lr # calls
     \<and> (\<forall>ev \<in> set calls. \<exists>ps. lr = Ok ps \<and> instance_call inst iact ps ev)
     \<and> (\<forall>ps nm ns r. lr = Ok ps \<and> list_all (named_by_controller inst) ps \<and> EvRemovePod nm ns r \<in> set calls \<longrightarrow>
          (\<exists>p \<in> set ps. m_name (metadata p) = nm \<and> m_namespace (metadata p) = Some ns)))"
proof (cases "m_namespace (metadata inst) = None \<or> m_uid (metadata inst) = None")
  case True
  then show ?thesis
    using assms by (cases "m_namespace (metadata inst)"; cases "m_uid (metadata inst)")
      (simp_all add: handle_instance_change_def try_then_return Let_def)
next
  case False
  then obtain ns uid where inst: "m_namespace (metadata inst) = Some ns" "m_uid (metadata inst) = Some uid" by auto
  define sel where "sel = equals AKRI_INSTANCE_LABEL_NAME (m_name (metadata inst))"
  define post where "post = (\<lambda>(_ :: (unit, error) result) (_ :: 'a, tr). \<exists>lr calls. tr = EvFindPodsWithLabel sel lr # calls
     \<and> (\<forall>ev \<in> set calls. \<exists>ps. lr = Ok ps \<and> instance_call inst iact ps ev))"
  have "wp (handle_instance_change (spied_rt rt) inst iact (spied ki)) post (w, [])"
  proof (rule wp_handle_instance_change [OF _ inst _ _ sel_def, where C = "\<lambda>_. True"])
    fix ps ts and w1 :: 'a
    have "plan_ok iact (nodes (spec inst)) ps (plan_pods rt iact ts ps (initial_plan iact (nodes (spec inst))))"
      by (simp add: plan_ok_pods plan_ok_initial)
    from emitsD [OF emits_execute_plan [OF this inst(1)]]
    show "wp (execute_plan (spied_rt rt) inst ns uid (spied ki)
         (plan_pods rt iact ts ps (initial_plan iact (nodes (spec inst))))) post
       (w1, [] @ [EvFindPodsWithLabel sel (Ok ps)])"
      by (rule wp_mono) (auto simp: post_def list_all_iff)
  qed (simp_all add: post_def)
  from wp_run [OF this assms] obtain lr calls where evs: "evs = EvFindPodsWithLabel sel lr # calls"
    and calls: "\<forall>ev \<in> set calls. \<exists>ps. lr = Ok ps \<and> instance_call inst iact ps ev" by (auto simp: post_def)
  have "\<exists>p \<in> set ps. m_name (metadata p) = nm \<and> m_namespace (metadata p) = Some n"
    if "lr = Ok ps" "list_all (named_by_controller inst) ps" "EvRemovePod nm n rr \<in> set calls" for ps nm n rr
    using that calls by (fastforce simp: named_by_controller_def list_all_iff)
  with evs calls show ?thesis unfolding sel_def by blast
qed

section \<open>What is achieved when the calls succeed\<close>


lemma map_of_plan_pod: "map_of (plan_pod rt iact t p m) n =
    (if pod_target p = Some n then
       (case decision_at rt (pod_info iact p (map_of m n = None)) t of None \<Rightarrow> map_of m n
        | Some a \<Rightarrow> Some (pod_context p n a))
     else map_of m n)"
  by (auto simp: plan_pod_def hashmap_simps hm_contains_def split: option.split)


















section \<open>A small cluster with brokers\<close>


text \<open>
  The Instance of the small cluster, with a Configuration whose template has one container;
  a broker Pod runs on \<open>node-b\<close>, which is not one of the Instance's nodes.
\<close>

definition broker_instance :: KubeAkriInstance where
  "broker_instance = sample_object\<lparr>metadata := (metadata sample_object)\<lparr>m_uid := Some ''iuid''\<rparr>\<rparr>"

definition broker_configuration :: Configuration where
  "broker_configuration = \<lparr>protocol = udev \<lparr>udev_rules = []\<rparr>, capacity = 2, units = ''pod'',
     broker_pod_spec = Some \<lparr>containers = [\<lparr>c_resources = None, c_other = ''''\<rparr>], affinity = None, ps_other = ''''\<rparr>,
     instance_service_spec = None, configuration_service_spec = None, properties = []\<rparr>"

definition broker_pod :: "string \<Rightarrow> string \<Rightarrow> PodObject" where
  "broker_pod node ph = \<lparr>o_types = \<lparr>t_apiVersion = None, t_kind = None\<rparr>,
     metadata = ObjectMeta_default\<lparr>m_labels := [(AKRI_INSTANCE_LABEL_NAME, ''cam''),
        (AKRI_CONFIGURATION_LABEL_NAME, ''cfg''), (AKRI_TARGET_NODE_LABEL_NAME, node)]\<rparr>,
     spec = \<lparr>containers = [], affinity = None, ps_other = ''''\<rparr>,
     status = Some \<lparr>phase = Some ph, start_time = Some 0, ps_conditions = None\<rparr>\<rparr>"

definition broker_cluster :: cluster where
  "broker_cluster = sample_cluster\<lparr>
     cl_configurations := [((''cfg'', ''ns''), \<lparr>o_types = \<lparr>t_apiVersion = None, t_kind = None\<rparr>,
        metadata = ObjectMeta_default, spec = broker_configuration, status = None\<rparr>)],
     cl_pods := [((''node-b-cam-pod'', ''ns''), broker_pod ''node-b'' ''Running'')]\<rparr>"



theorem handle_instance_change_calls_witness:
  "list_all (\<lambda>ev. \<nexists>p ns r. ev = EvCreatePod p ns r) (snd (snd (run_state
      (handle_instance_change (spied_rt sample_rt) broker_instance InstanceRemove (spied cluster_kube)) (broker_cluster, []))))"
proof -
  obtain r w' evs where run: "run_state (handle_instance_change (spied_rt sample_rt) broker_instance InstanceRemove
      (spied cluster_kube)) (broker_cluster, []) = (r, (w', evs))" by (metis surj_pair)
  show ?thesis using handle_instance_change_calls [OF run] by (fastforce simp: run list_all_iff)
qed



text \<open>
  Pods on a node that the Instance does not have are not always removed. The plan is
  consulted to see whether a node is known, and a first Pod adds its node to the plan: one
  Pod that targets a node outside the Instance is to be removed, but when two running Pods
  do (in two namespaces, say), the second finds the node known and replaces the removal by
  no action, so both stay.
\<close>

theorem unknown_node_second_pod:
  assumes "pod_target p = Some n" "pod_target q = Some n" "n \<notin> set ns" "iact \<noteq> InstanceRemove"
    and "map_option phase (status q) = Some (Some ''Running'')"
    and "run_state (determine_actions (spied_rt rt) iact [p] (initial_plan iact ns)) (w, tr) = (r1, s1)"
    and "run_state (determine_actions (spied_rt rt) iact [p, q] (initial_plan iact ns)) (w, tr) = (r2, s2)"
  shows "(\<exists>m. r1 = Ok m \<and> map_of m n = Some (pod_context p n Remove))
    \<and> (\<exists>m. r2 = Ok m \<and> map_of m n = Some (pod_context q n NoAction))"
proof -
  have first: "map_of (plan_pod rt iact t p (initial_plan iact ns)) n = Some (pod_context p n Remove)" for t
    using assms(1,3) by (simp add: map_of_plan_pod map_of_initial_plan decision_at_def needs_clock_def pod_decision_def)
  have running: "pai_phase (pod_info iact q b) = ''Running''" for b
    using assms(5) by (auto simp: pod_info_def)
  have "decision_at rt (pod_info iact q False) t = Some NoAction" for t
    using assms(4) by (simp add: decision_at_def needs_clock_def pod_decision_def starting_or_running_def running)
  then have second: "map_of (plan_pod rt iact t' q (plan_pod rt iact t p (initial_plan iact ns))) n
      = Some (pod_context q n NoAction)" for t t'
    using assms(2) by (simp add: map_of_plan_pod [of rt iact t' q] first)
  have one: "wp (determine_actions (spied_rt rt) iact [p] (initial_plan iact ns))
      (\<lambda>r _. \<exists>m. r = Ok m \<and> map_of m n = Some (pod_context p n Remove)) (w, tr)"
    by (rule wp_determine_actions [where C = "\<lambda>_. True"]) (auto simp: first length_Suc_conv)
  have two: "wp (determine_actions (spied_rt rt) iact [p, q] (initial_plan iact ns))
      (\<lambda>r _. \<exists>m. r = Ok m \<and> map_of m n = Some (pod_context q n NoAction)) (w, tr)"
    by (rule wp_determine_actions [where C = "\<lambda>_. True"]) (auto simp: second length_Suc_conv)
  show ?thesis using wp_run [OF one assms(6)] wp_run [OF two assms(7)] by simp
qed

theorem unknown_node_second_pod_witness:
  "\<exists>m. fst (run_state (determine_actions (spied_rt sample_rt) InstanceUpdate
      [broker_pod ''node-b'' ''Running'', broker_pod ''node-b'' ''Running''] (initial_plan InstanceUpdate [''node-a'']))
      ((), [])) = Ok m \<and> map_option ctx_action (map_of m ''node-b'') = Some NoAction"
proof -
  have p: "pod_target (broker_pod ''node-b'' ''Running'') = Some ''node-b''"
    by (simp add: pod_target_def broker_pod_def)
  have st: "map_option phase (status (broker_pod ''node-b'' ''Running'')) = Some (Some ''Running'')"
    by (simp add: broker_pod_def)
  obtain r1 s1 r2 s2 where
    r1: "run_state (determine_actions (spied_rt sample_rt) InstanceUpdate [broker_pod ''node-b'' ''Running'']
       (initial_plan InstanceUpdate [''node-a''])) ((), []) = (r1, s1)" and
    r2: "run_state (determine_actions (spied_rt sample_rt) InstanceUpdate
       [broker_pod ''node-b'' ''Running'', broker_pod ''node-b'' ''Running''] (initial_plan InstanceUpdate [''node-a'']))
       ((), []) = (r2, s2)" by (metis surj_pair)
  have "\<exists>m. r2 = Ok m \<and> map_of m ''node-b'' = Some (pod_context (broker_pod ''node-b'' ''Running'') ''node-b'' NoAction)"
    using unknown_node_second_pod [OF p p _ _ st r1 r2] by simp
  then show ?thesis unfolding r2 by auto
qed

end
