(* ===== verification/Pod_Watcher.thy ===== *)
theory Pod_Watcher
  imports Instance_Action
begin

text \<open>
  \<open>controller/src/util/pod_watcher.rs\<close>: when a broker Pod starts running, the Controller makes
  sure that the Services of its Instance and of its Configuration exist; when it ends or is
  deleted, the Services that no Pod supports are removed and the Instance's Pods are looked
  at again. The theorems say which Services are created, updated and removed, and that the
  watcher runs each handler once per transition of a Pod.
\<close>

section \<open>Definitions\<close>

datatype PodState = PodPending | PodRunning | PodEnded | PodDeleted

record BrokerPodWatcher =
  known_pods :: "(string, PodState) hashmap"

definition BrokerPodWatcher_new :: BrokerPodWatcher where
  "BrokerPodWatcher_new = \<lparr>known_pods = []\<rparr>"

definition get_pod_phase :: "PodObject \<Rightarrow> string" where
  "get_pod_phase pod = (case status pod of
       Some st \<Rightarrow> (case phase st of Some ph \<Rightarrow> ph | None \<Rightarrow> ''Unknown'')
     | None \<Rightarrow> ''Unknown'')"

definition get_instance_and_configuration_from_pod :: "PodObject \<Rightarrow> (string \<times> string, error) result" where
  "get_instance_and_configuration_from_pod pod =
     (case map_of (m_labels (metadata pod)) AKRI_INSTANCE_LABEL_NAME of
        None \<Rightarrow> Err (Msg ''No configuration name found.'')
      | Some instance_id \<Rightarrow>
          (case map_of (m_labels (metadata pod)) AKRI_CONFIGURATION_LABEL_NAME of
             None \<Rightarrow> Err (Msg ''No instance id found.'')
           | Some config_name \<Rightarrow> Ok (instance_id, config_name)))"

definition non_terminating :: "PodObject \<Rightarrow> bool" where
  "non_terminating x = (case status x of
       Some st \<Rightarrow> (case phase st of Some ph \<Rightarrow> ph \<noteq> ''Terminating'' \<and> ph \<noteq> ''Failed'' | None \<Rightarrow> True)
     | None \<Rightarrow> True)"

definition cleanup_svc_if_unsupported :: "PodObject list \<Rightarrow> string \<Rightarrow> string \<Rightarrow> 'w kube_interface
    \<Rightarrow> ('w, unit) io" where
  "cleanup_svc_if_unsupported pods svc_name svc_namespace kube_interface =
     (let num_non_terminating_pods = length (filter non_terminating pods)
      in if num_non_terminating_pods = 0
         then try_then (remove_service kube_interface svc_name svc_namespace) (\<lambda>_. return (Ok ()))
         else return (Ok ()))"

definition find_pods_and_cleanup_svc_if_unsupported :: "string \<Rightarrow> string \<Rightarrow> string \<Rightarrow> bool
    \<Rightarrow> 'w kube_interface \<Rightarrow> ('w, unit) io" where
  "find_pods_and_cleanup_svc_if_unsupported instance_id cfg_name namespace handle_instance_svc kube_interface =
     (let (label, value) = (if handle_instance_svc then (AKRI_INSTANCE_LABEL_NAME, instance_id)
            else (AKRI_CONFIGURATION_LABEL_NAME, cfg_name))
      in try_then (find_pods_with_label kube_interface (equals label value)) (\<lambda>pods.
           let svc_name = create_service_app_name cfg_name instance_id ''svc'' handle_instance_svc
           in cleanup_svc_if_unsupported pods svc_name namespace kube_interface))"

definition handle_non_running_pod :: "'w controller_rt \<Rightarrow> PodObject \<Rightarrow> 'w kube_interface \<Rightarrow> ('w, unit) io" where
  "handle_non_running_pod rt pod kube_interface =
     try_then (return (ok_or (m_namespace (metadata pod))
       (Msg (''Namespace not found for pod: '' @ m_name (metadata pod))))) (\<lambda>namespace.
     try_then (return (get_instance_and_configuration_from_pod pod)) (\<lambda>(instance_id, config_name).
     try_then (find_pods_and_cleanup_svc_if_unsupported instance_id config_name namespace True kube_interface) (\<lambda>_.
     try_then (find_pods_and_cleanup_svc_if_unsupported instance_id config_name namespace False kube_interface) (\<lambda>_. do {
       f \<leftarrow> find_instance kube_interface instance_id namespace;
       case f of
         Ok inst \<Rightarrow> handle_instance_change rt inst InstanceUpdate kube_interface
       | Err _ \<Rightarrow> return (Ok ())
       | Panic p \<Rightarrow> return (Panic p)
     }))))"

definition update_existing_service :: "OwnershipInfo \<Rightarrow> 'w kube_interface \<Rightarrow> ServiceObject \<Rightarrow> ('w, unit) io" where
  "update_existing_service ownership kube_interface existing_svc =
     try_then (return (unwrap (m_namespace (metadata existing_svc)))) (\<lambda>svc_namespace.
     try_then (return (update_ownership existing_svc ownership True)) (\<lambda>updated_svc.
       update_service kube_interface updated_svc (m_name (metadata existing_svc)) svc_namespace))"

definition create_or_update_service :: "string \<Rightarrow> string \<Rightarrow> string \<Rightarrow> string \<Rightarrow> string \<Rightarrow> OwnershipInfo
    \<Rightarrow> ServiceSpec \<Rightarrow> bool \<Rightarrow> 'w kube_interface \<Rightarrow> ('w, unit) io" where
  "create_or_update_service instance_name cfg_name namespace label_name label_value ownership
     service_spec is_instance_service kube_interface = do {
     f \<leftarrow> find_services kube_interface (equals label_name label_value);
     case f of
       Panic p \<Rightarrow> return (Panic p)
     | _ \<Rightarrow>
       let existing_svcs = (case f of Ok svcs \<Rightarrow> svcs | _ \<Rightarrow> [])
       in try_then (try_for existing_svcs (update_existing_service ownership kube_interface)) (\<lambda>_.
            let create_new_service = (existing_svcs = [])
            in if create_new_service
               then try_then (return (create_new_service_from_spec namespace instance_name cfg_name ownership
                      service_spec is_instance_service)) (\<lambda>new_instance_svc.
                    create_service kube_interface new_instance_svc namespace)
               else return (Ok ()))
   }"

text \<open>
  \<open>for x in 0..MAX_INSTANCE_UPDATE_TRIES\<close> around a call: the first success leaves the loop,
  the last failure is returned, any other is followed by a delay and another try.
\<close>

fun with_retries :: "'w controller_rt \<Rightarrow> ('w, unit) io \<Rightarrow> nat list \<Rightarrow> ('w, unit) io" where
  "with_retries rt m [] = return (Ok ())"
| "with_retries rt m (x # xs) = do {
     r \<leftarrow> m;
     case r of
       Ok _ \<Rightarrow> return (Ok ())
     | Err e \<Rightarrow> if x = MAX_INSTANCE_UPDATE_TRIES - 1 then return (Err e)
         else do { _ \<leftarrow> controller_random_delay rt; with_retries rt m xs }
     | Panic p \<Rightarrow> return (Panic p)
   }"

definition add_instance_and_configuration_services :: "'w controller_rt \<Rightarrow> string \<Rightarrow> string \<Rightarrow> string \<Rightarrow> string
    \<Rightarrow> KubeAkriConfig \<Rightarrow> 'w kube_interface \<Rightarrow> ('w, unit) io" where
  "add_instance_and_configuration_services rt instance_name instance_uid namespace cfg_name
     configuration kube_interface =
     try_then (case instance_service_spec (spec configuration) of
         Some ss \<Rightarrow>
           let ownership = OwnershipInfo_new OwnedByInstance instance_name instance_uid
           in with_retries rt (create_or_update_service instance_name cfg_name namespace
                AKRI_INSTANCE_LABEL_NAME instance_name ownership ss True kube_interface) tries
       | None \<Rightarrow> return (Ok ())) (\<lambda>_.
       case configuration_service_spec (spec configuration) of
         Some ss \<Rightarrow>
           try_then (return (ok_or (m_uid (metadata configuration))
             (Msg (''UID not found for configuration: '' @ cfg_name)))) (\<lambda>configuration_uid.
           let ownership = OwnershipInfo_new OwnedByConfiguration cfg_name configuration_uid
           in with_retries rt (create_or_update_service instance_name cfg_name namespace
                AKRI_CONFIGURATION_LABEL_NAME cfg_name ownership ss False kube_interface) tries)
       | None \<Rightarrow> return (Ok ()))"

definition handle_running_pod :: "'w controller_rt \<Rightarrow> PodObject \<Rightarrow> 'w kube_interface \<Rightarrow> ('w, unit) io" where
  "handle_running_pod rt pod kube_interface =
     try_then (return (ok_or (m_namespace (metadata pod))
       (Msg (''Namespace not found for pod: '' @ m_name (metadata pod))))) (\<lambda>namespace.
     try_then (return (get_instance_and_configuration_from_pod pod)) (\<lambda>(instance_name, cfg_name). do {
       c \<leftarrow> find_configuration kube_interface cfg_name namespace;
       case c of
         Panic p \<Rightarrow> return (Panic p)
       | Err _ \<Rightarrow> return (Ok ())
       | Ok configuration \<Rightarrow> do {
           i \<leftarrow> find_instance kube_interface instance_name namespace;
           case i of
             Panic p \<Rightarrow> return (Panic p)
           | Err _ \<Rightarrow> return (Ok ())
           | Ok inst \<Rightarrow>
               try_then (return (ok_or (m_uid (metadata inst))
                 (Msg (''UID not found for instance: '' @ instance_name)))) (\<lambda>instance_uid.
                 add_instance_and_configuration_services rt instance_name instance_uid namespace cfg_name
                   configuration kube_interface)
         }
     }))"

text \<open>The three guarded handlers share their shape: run the handler unless the Pod is in the state already.\<close>

definition if_needed :: "BrokerPodWatcher \<Rightarrow> PodObject \<Rightarrow> PodState \<Rightarrow> ('w, unit) io
    \<Rightarrow> ('w, (unit, error) result \<times> BrokerPodWatcher) state" where
  "if_needed self pod new_state handler =
     (let pod_name = m_name (metadata pod);
          last_known_state = (case map_of (known_pods self) pod_name of Some s \<Rightarrow> s | None \<Rightarrow> PodPending)
      in if last_known_state \<noteq> new_state then do {
           r \<leftarrow> handler;
           return (case r of
               Ok _ \<Rightarrow> (Ok (), self\<lparr>known_pods := hm_insert pod_name new_state (known_pods self)\<rparr>)
             | Err e \<Rightarrow> (Err e, self)
             | Panic p \<Rightarrow> (Panic p, self))
         }
         else return (Ok (), self))"

definition handle_running_pod_if_needed :: "'w controller_rt \<Rightarrow> BrokerPodWatcher \<Rightarrow> PodObject
    \<Rightarrow> 'w kube_interface \<Rightarrow> ('w, (unit, error) result \<times> BrokerPodWatcher) state" where
  "handle_running_pod_if_needed rt self pod ki = if_needed self pod PodRunning (handle_running_pod rt pod ki)"

definition handle_ended_pod_if_needed :: "'w controller_rt \<Rightarrow> BrokerPodWatcher \<Rightarrow> PodObject
    \<Rightarrow> 'w kube_interface \<Rightarrow> ('w, (unit, error) result \<times> BrokerPodWatcher) state" where
  "handle_ended_pod_if_needed rt self pod ki = if_needed self pod PodEnded (handle_non_running_pod rt pod ki)"

definition handle_deleted_pod_if_needed :: "'w controller_rt \<Rightarrow> BrokerPodWatcher \<Rightarrow> PodObject
    \<Rightarrow> 'w kube_interface \<Rightarrow> ('w, (unit, error) result \<times> BrokerPodWatcher) state" where
  "handle_deleted_pod_if_needed rt self pod ki = if_needed self pod PodDeleted (handle_non_running_pod rt pod ki)"

definition handle_changed_pod :: "'w controller_rt \<Rightarrow> BrokerPodWatcher \<Rightarrow> PodObject \<Rightarrow> 'w kube_interface
    \<Rightarrow> ('w, (unit, error) result \<times> BrokerPodWatcher) state" where
  "handle_changed_pod rt self pod ki =
     (let ph = get_pod_phase pod
      in if ph = ''Unknown'' \<or> ph = ''Pending''
         then return (Ok (), self\<lparr>known_pods := hm_insert (m_name (metadata pod)) PodPending (known_pods self)\<rparr>)
         else if ph = ''Running'' then handle_running_pod_if_needed rt self pod ki
         else if ph = ''Succeeded'' \<or> ph = ''Failed'' then handle_ended_pod_if_needed rt self pod ki
         else return (Ok (), self))"

definition handle_pod :: "'w controller_rt \<Rightarrow> BrokerPodWatcher \<Rightarrow> PodObject WatchEvent \<Rightarrow> 'w kube_interface
    \<Rightarrow> ('w, (unit, error) result \<times> BrokerPodWatcher) state" where
  "handle_pod rt self event ki = (case event of
       Added pod \<Rightarrow> handle_changed_pod rt self pod ki
     | Modified pod \<Rightarrow> handle_changed_pod rt self pod ki
     | Deleted pod \<Rightarrow> handle_deleted_pod_if_needed rt self pod ki
     | WatchError e \<Rightarrow> return (Ok (), self))"

fun watch_pods :: "'w controller_rt \<Rightarrow> 'w kube_interface \<Rightarrow> BrokerPodWatcher
    \<Rightarrow> (PodObject WatchEvent, error) result list \<Rightarrow> ('w, (unit, error) result \<times> BrokerPodWatcher) state" where
  "watch_pods rt ki self [] = return (Ok (), self)"
| "watch_pods rt ki self (ev # evs) = (case ev of
       Ok event \<Rightarrow> do {
         (r, self') \<leftarrow> handle_pod rt self event ki;
         case r of Ok _ \<Rightarrow> watch_pods rt ki self' evs | _ \<Rightarrow> return (r, self')
       }
     | Err e \<Rightarrow> return (Err e, self)
     | Panic p \<Rightarrow> return (Panic p, self))"

section \<open>The watcher as a state machine\<close>

text \<open>
  The machine over what is known of each Pod (by its name): what an event asks for, and the
  knowledge after it. \<open>seen_state\<close> is the state an event reveals, if it reveals one.
\<close>

datatype pod_work = StartPod PodObject | StopPod PodObject

type_synonym pod_knowledge = "string \<Rightarrow> PodState option"

definition phase_state :: "string \<Rightarrow> PodState option" where
  "phase_state ph = (if ph = ''Unknown'' \<or> ph = ''Pending'' then Some PodPending
     else if ph = ''Running'' then Some PodRunning
     else if ph = ''Succeeded'' \<or> ph = ''Failed'' then Some PodEnded else None)"

fun seen_state :: "PodObject WatchEvent \<Rightarrow> (PodObject \<times> PodState) option" where
  "seen_state (Added p) = map_option (Pair p) (phase_state (get_pod_phase p))"
| "seen_state (Modified p) = map_option (Pair p) (phase_state (get_pod_phase p))"
| "seen_state (Deleted p) = Some (p, PodDeleted)"
| "seen_state (WatchError e) = None"

definition pod_state :: "pod_knowledge \<Rightarrow> string \<Rightarrow> PodState" where
  "pod_state st n = (case st n of Some s \<Rightarrow> s | None \<Rightarrow> PodPending)"

definition watcher_works :: "pod_knowledge \<Rightarrow> PodObject WatchEvent \<Rightarrow> pod_work list" where
  "watcher_works st ev = (case seen_state ev of None \<Rightarrow> [] | Some (p, s) \<Rightarrow>
     if s = PodPending \<or> pod_state st (m_name (metadata p)) = s then []
     else if s = PodRunning then [StartPod p] else [StopPod p])"

definition watcher_knows :: "pod_knowledge \<Rightarrow> PodObject WatchEvent \<Rightarrow> pod_knowledge" where
  "watcher_knows st ev = (case seen_state ev of None \<Rightarrow> st | Some (p, s) \<Rightarrow>
     if s \<noteq> PodPending \<and> pod_state st (m_name (metadata p)) = s then st else st(m_name (metadata p) \<mapsto> s))"

fun works_of :: "pod_knowledge \<Rightarrow> PodObject WatchEvent list \<Rightarrow> pod_work list list" where
  "works_of st [] = []"
| "works_of st (ev # evs) = watcher_works st ev # works_of (watcher_knows st ev) evs"

fun do_work :: "'w controller_rt \<Rightarrow> 'w kube_interface \<Rightarrow> pod_work \<Rightarrow> ('w, unit) io" where
  "do_work rt ki (StartPod p) = handle_running_pod rt p ki"
| "do_work rt ki (StopPod p) = handle_non_running_pod rt p ki"

lemma wp_if_needed: "wp (if_needed self pod s handler) Q w =
    (if pod_state (map_of (known_pods self)) (m_name (metadata pod)) = s then Q (Ok (), self) w
     else wp handler (\<lambda>r. Q (case r of
         Ok _ \<Rightarrow> (Ok (), self\<lparr>known_pods := hm_insert (m_name (metadata pod)) s (known_pods self)\<rparr>)
       | Err e \<Rightarrow> (Err e, self) | Panic p \<Rightarrow> (Panic p, self))) w)"
  by (auto simp: if_needed_def Let_def pod_state_def split: option.split)

lemma hm_insert_fun: "map_of (hm_insert k v m) = (map_of m)(k \<mapsto> v)"
  by (auto simp: hashmap_simps)

text \<open>One event: the works are done, and the knowledge is updated if they succeed.\<close>

lemma wp_handle_pod:
  assumes "wp (try_for (watcher_works (map_of (known_pods self)) ev) (do_work rt ki))
     (\<lambda>r w'. \<forall>self'. (is_ok r \<longrightarrow> map_of (known_pods self') = watcher_knows (map_of (known_pods self)) ev) \<longrightarrow> Q (r, self') w') w"
  shows "wp (handle_pod rt self ev ki) Q w"
proof -
  have changed: "wp (handle_changed_pod rt self p ki) Q w"
    if "seen_state ev = map_option (Pair p) (phase_state (get_pod_phase p))" for p
    using assms that
    by (auto simp: handle_changed_pod_def Let_def phase_state_def watcher_works_def watcher_knows_def
        handle_running_pod_if_needed_def handle_ended_pod_if_needed_def wp_if_needed hm_insert_fun
        split: if_splits result.splits elim!: wp_mono)
  have deleted: "wp (handle_deleted_pod_if_needed rt self p ki) Q w" if "seen_state ev = Some (p, PodDeleted)" for p
    using assms that
    by (auto simp: watcher_works_def watcher_knows_def handle_deleted_pod_if_needed_def wp_if_needed hm_insert_fun
        split: if_splits result.splits elim!: wp_mono)
  show ?thesis
    using assms changed deleted
    by (cases ev) (auto simp: handle_pod_def watcher_works_def watcher_knows_def)
qed

lemma try_then_assoc: "try_then (try_then m g) h = try_then m (\<lambda>a. try_then (g a) h)"
  by (auto simp: try_then_def intro!: arg_cong [where f = "State_Monad.bind m"] split: result.split)

lemma try_for_append: "try_for (xs @ ys) f = try_then (try_for xs f) (\<lambda>_. try_for ys f)"
  by (induction xs) (simp_all add: try_then_assoc try_then_return)

lemma watch_pods_works:
  "wp (watch_pods rt ki self (map Ok evs)) (\<lambda>(r, self') w'. is_ok r \<longrightarrow>
      map_of (known_pods self') = fold (\<lambda>ev st. watcher_knows st ev) evs (map_of (known_pods self))
    \<and> run_state (try_for (concat (works_of (map_of (known_pods self)) evs)) (do_work rt ki)) w = (Ok (), w')) w"
proof (induction evs arbitrary: self w)
  case (Cons ev evs)
  let ?post = "\<lambda>(r, self') w'. is_ok r \<longrightarrow>
      map_of (known_pods self') = fold (\<lambda>ev st. watcher_knows st ev) (ev # evs) (map_of (known_pods self))
    \<and> run_state (try_for (concat (works_of (map_of (known_pods self)) (ev # evs))) (do_work rt ki)) w = (Ok (), w')"
  have "wp (handle_pod rt self ev ki) (\<lambda>(r, self'). wp (case r of
      Ok _ \<Rightarrow> watch_pods rt ki self' (map Ok evs) | _ \<Rightarrow> return (r, self')) ?post) w"
  proof (rule wp_handle_pod, rule wp_runI, intro allI impI, unfold prod.case)
    fix r :: "(unit, error) result" and w1 and self' :: BrokerPodWatcher
    assume run: "run_state (try_for (watcher_works (map_of (known_pods self)) ev) (do_work rt ki)) w = (r, w1)"
      and known: "is_ok r \<longrightarrow> map_of (known_pods self') = watcher_knows (map_of (known_pods self)) ev"
    show "wp (case r of Ok _ \<Rightarrow> watch_pods rt ki self' (map Ok evs) | _ \<Rightarrow> return (r, self')) ?post w1"
    proof (cases r)
      case (Ok u)
      then show ?thesis using run known
        by (auto simp: try_for_append try_then_def intro!: wp_mono [OF Cons.IH])
    qed simp_all
  qed
  then show ?case by (simp add: split_def)
qed simp

text \<open>A Pod that is known to be running is not started again before it is seen in another state.\<close>

definition seen_not_running :: "string \<Rightarrow> PodObject WatchEvent \<Rightarrow> bool" where
  "seen_not_running n ev \<longleftrightarrow> (\<exists>p s. seen_state ev = Some (p, s) \<and> m_name (metadata p) = n \<and> s \<noteq> PodRunning)"

definition starts :: "string \<Rightarrow> pod_work list \<Rightarrow> bool" where
  "starts n ws \<longleftrightarrow> (\<exists>p. StartPod p \<in> set ws \<and> m_name (metadata p) = n)"

lemma starts_cons: "starts n (watcher_works st ev) \<Longrightarrow> st n \<noteq> Some PodRunning \<and> watcher_knows st ev n = Some PodRunning"
  by (cases "seen_state ev")
     (auto simp: starts_def watcher_works_def watcher_knows_def pod_state_def split: option.splits if_splits prod.splits)

lemma running_kept: "st n = Some PodRunning \<Longrightarrow> \<not> seen_not_running n ev \<Longrightarrow> watcher_knows st ev n = Some PodRunning"
  by (auto simp: seen_not_running_def watcher_knows_def split: option.splits)

lemma running_until_seen:
  assumes "st n = Some PodRunning" "k < length evs" "starts n (works_of st evs ! k)"
  shows "\<exists>i < k. seen_not_running n (evs ! i)"
  using assms
proof (induction evs arbitrary: st k)
  case (Cons ev evs)
  obtain k' where k: "k = Suc k'" using Cons.prems starts_cons by (cases k) auto
  show ?case
  proof (cases "seen_not_running n ev")
    case False
    then have "\<exists>i < k'. seen_not_running n (evs ! i)"
      using Cons.prems k running_kept by (intro Cons.IH [of "watcher_knows st ev"]) auto
    then show ?thesis using k by auto
  qed (use k in auto)
qed simp

lemma started_once:
  assumes "j < k" "k < length evs" "starts n (works_of st evs ! j)" "starts n (works_of st evs ! k)"
  shows "\<exists>i. j < i \<and> i < k \<and> seen_not_running n (evs ! i)"
  using assms
proof (induction evs arbitrary: st j k)
  case (Cons ev evs)
  obtain k' where k: "k = Suc k'" using Cons.prems(1) by (cases k) auto
  show ?case
  proof (cases j)
    case 0
    then have "watcher_knows st ev n = Some PodRunning" using Cons.prems(3) starts_cons by simp
    then have "\<exists>i < k'. seen_not_running n (evs ! i)"
      using Cons.prems k by (intro running_until_seen [of "watcher_knows st ev"]) auto
    then show ?thesis using 0 k by auto
  next
    case (Suc j')
    then have "\<exists>i. j' < i \<and> i < k' \<and> seen_not_running n (evs ! i)"
      using Cons.prems k by (intro Cons.IH [of j' k' "watcher_knows st ev"]) auto
    then show ?thesis using Suc k by auto
  qed
qed simp

text \<open>
  C29: The Pod watcher does what its state machine says. Over any sequence of Pod events that it
  handles without error, it has run exactly the handlers the machine asks for, in order and
  with their effect on the cluster, and knows what the machine knows. The handler for a Pod
  that starts running is run once per transition: between two starts under one name the
  Pod was seen in another state.
\<close>

theorem watch_pods_spec:
  assumes "run_state (watch_pods rt ki self (map Ok evs)) w = ((r, self'), w')" and "is_ok r"
    and "works = works_of (map_of (known_pods self)) evs"
  shows "map_of (known_pods self') = fold (\<lambda>ev st. watcher_knows st ev) evs (map_of (known_pods self))
    \<and> run_state (try_for (concat works) (do_work rt ki)) w = (Ok (), w')
    \<and> (\<forall>j k n. j < k \<longrightarrow> k < length evs \<longrightarrow> starts n (works ! j) \<longrightarrow> starts n (works ! k) \<longrightarrow>
         (\<exists>i. j < i \<and> i < k \<and> seen_not_running n (evs ! i)))"
  using wp_run [OF watch_pods_works assms(1)] assms(2,3) started_once by auto

text \<open>A running Pod whose Configuration is gone, on the small cluster.\<close>

definition running_pod :: PodObject where
  "running_pod = named (''node-a-cam-pod'', ''ns'') (broker_pod ''node-a'' ''Running'')"

lemma running_pod_handled: "run_state (handle_running_pod sample_rt running_pod cluster_kube) sample_cluster = (Ok (), sample_cluster)"
  by (simp add: handle_running_pod_def running_pod_def named_def broker_pod_def try_then_def
      get_instance_and_configuration_from_pod_def configuration_find_configuration_def request_def cluster_client_def
      cluster_get_def get_named_def sample_cluster_def within_def customResource_def
      instance_resource_def configuration_resource_def API_INSTANCES_def API_CONFIGURATIONS_def)

theorem watch_pods_spec_witness:
  "map_of (known_pods (snd (fst (run_state (watch_pods sample_rt cluster_kube BrokerPodWatcher_new
      (map Ok [Added running_pod])) sample_cluster)))) = [''node-a-cam-pod'' \<mapsto> PodRunning]"
proof -
  obtain r self' w' where run: "run_state (watch_pods sample_rt cluster_kube BrokerPodWatcher_new
      (map Ok [Added running_pod])) sample_cluster = ((r, self'), w')" by (metis surj_pair)
  have pod: "get_pod_phase running_pod = ''Running''" "m_name (metadata running_pod) = ''node-a-cam-pod''"
    by (simp_all add: get_pod_phase_def running_pod_def named_def broker_pod_def)
  have "is_ok r" using run
    by (auto simp: handle_pod_def handle_changed_pod_def pod handle_running_pod_if_needed_def if_needed_def
        BrokerPodWatcher_new_def Let_def running_pod_handled)
  from watch_pods_spec [OF run this refl]
  have "map_of (known_pods self') = [''node-a-cam-pod'' \<mapsto> PodRunning]"
    by (simp add: watcher_knows_def phase_state_def pod pod_state_def BrokerPodWatcher_new_def)
  then show ?thesis unfolding run by simp
qed

section \<open>Services\<close>

definition svc_name :: "Service \<Rightarrow> string option" where
  "svc_name s = Option.bind (svc_metadata s) k_name"

definition svc_label :: "Service \<Rightarrow> string \<Rightarrow> string option" where
  "svc_label s l = (case svc_metadata s of Some md \<Rightarrow>
     (case k_labels md of Some ls \<Rightarrow> map_of ls l | None \<Rightarrow> None) | None \<Rightarrow> None)"

text \<open>Whose Service it is: the Instance's (\<open>True\<close>) or the Configuration's, with the label to search by.\<close>

definition service_label :: "string \<Rightarrow> string \<Rightarrow> bool \<Rightarrow> string \<times> string" where
  "service_label inst cfg b = (if b then (AKRI_INSTANCE_LABEL_NAME, inst) else (AKRI_CONFIGURATION_LABEL_NAME, cfg))"

definition is_service_call :: "kube_event \<Rightarrow> bool" where
  "is_service_call ev \<longleftrightarrow> (case ev of EvCreateService _ _ _ \<Rightarrow> True | EvRemoveService _ _ _ \<Rightarrow> True
     | EvUpdateService _ _ _ _ \<Rightarrow> True | EvFindServices _ _ \<Rightarrow> True | _ \<Rightarrow> False)"

text \<open>
  A Pod that no longer supports a Service: its phase is known and is one of two. A Pod of any
  other phase, one that has succeeded included, and a Pod without a phase support it.
\<close>

definition pod_over :: "PodObject \<Rightarrow> bool" where
  "pod_over p \<longleftrightarrow> (\<exists>st. status p = Some st \<and> (phase st = Some ''Terminating'' \<or> phase st = Some ''Failed''))"

lemma pod_over: "pod_over p \<longleftrightarrow> \<not> non_terminating p"
  by (auto simp: pod_over_def non_terminating_def split: option.splits)

definition service_app_name :: "string \<Rightarrow> string \<Rightarrow> bool \<Rightarrow> string" where
  "service_app_name inst cfg b = (if b then map (\<lambda>c. if c = CHR ''.'' then CHR ''-'' else c) inst else cfg) @ ''-svc''"

lemma service_app_name: "create_service_app_name cfg inst ''svc'' b = service_app_name inst cfg b"
  by (simp add: create_service_app_name_def service_app_name_def replace_char_def)

text \<open>The calls of one clean-up that succeeds, by the Pods that were listed.\<close>

definition cleanup_calls :: "string \<Rightarrow> string \<Rightarrow> string \<Rightarrow> bool \<Rightarrow> PodObject list \<Rightarrow> kube_event list" where
  "cleanup_calls inst cfg ns b ps = EvFindPodsWithLabel (case service_label inst cfg b of (l, v) \<Rightarrow> equals l v) (Ok ps) #
     (if \<forall>p \<in> set ps. pod_over p then [EvRemoveService (service_app_name inst cfg b) ns (Ok ())] else [])"

lemma wp_cleanup:
  assumes err: "\<And>r s. \<not> is_ok r \<Longrightarrow> Q r s"
    and ok: "\<And>ps w'. Q (Ok ()) (w', tr @ cleanup_calls inst cfg ns b ps)"
  shows "wp (find_pods_and_cleanup_svc_if_unsupported inst cfg ns b (spied ki)) Q (w, tr)"
proof -
  have fails: "Q (Err e) s" "Q (Panic p) s" for e p s by (simp_all add: err)
  have svc: "wp (cleanup_svc_if_unsupported ps (create_service_app_name cfg inst ''svc'' b) ns (spied ki)) Q
      (w', tr @ [EvFindPodsWithLabel (case service_label inst cfg b of (l, v) \<Rightarrow> equals l v) (Ok ps)])" for ps w'
  proof (cases "\<exists>p \<in> set ps. \<not> pod_over p")
    case True
    then show ?thesis using ok [of w' ps]
      by (auto simp: cleanup_svc_if_unsupported_def Let_def cleanup_calls_def pod_over service_app_name filter_empty_conv
          split: if_splits)
  next
    case False
    then show ?thesis using ok [of _ ps]
      by (auto simp: cleanup_svc_if_unsupported_def Let_def cleanup_calls_def pod_over service_app_name filter_empty_conv
          split: result.split intro!: wp_runI fails)
  qed
  show ?thesis
    by (cases b) (use svc in \<open>auto simp: find_pods_and_cleanup_svc_if_unsupported_def service_label_def
        split: result.split intro!: wp_runI fails\<close>)
qed

lemma emits_determine_actions: "emits Q (determine_actions (spied_rt rt) iact ps m)"
  unfolding emits_def by (auto intro!: wp_determine_actions [where C = "\<lambda>_. True"])

lemma emits_instance_change:
  assumes "\<And>ev. \<not> is_service_call ev \<Longrightarrow> Q ev"
  shows "emits Q (handle_instance_change (spied_rt rt) inst iact (spied ki))"
  unfolding handle_instance_change_def execute_plan_def Let_def spied_sel
  by (auto intro!: emits_try_return emits_try_then emits_spy emits_determine_actions emits_try_for emits_bind emits_return
      emits_deletion_work emits_addition_work assms simp: is_service_call_def split: result.split)

text \<open>
  C30: When a broker Pod has ended or is gone, and the handler succeeds: the Service of the
  Pod's Instance is removed exactly if every Pod listed for the Instance has the phase
  Terminating or Failed, the Service of its Configuration exactly if that holds of every Pod
  listed for the Configuration, each under the name it was created with; a Pod of any other
  phase, pending or succeeded for example, keeps the Service. After that the Instance is
  looked up so that missing Pods are started again, and no Service is touched any more.
\<close>

theorem service_cleanup_spec:
  assumes "m_namespace (metadata pod) = Some ns" "get_instance_and_configuration_from_pod pod = Ok (inst, cfg)"
    and "run_state (handle_non_running_pod (spied_rt rt) pod (spied ki)) (w, []) = (r, (w', evs))" and "is_ok r"
  shows "\<exists>ips cps fr calls. evs = cleanup_calls inst cfg ns True ips @ cleanup_calls inst cfg ns False cps
     @ EvFindInstance inst ns fr # calls \<and> (\<forall>ev \<in> set calls. \<not> is_service_call ev)"
proof -
  define post where "post = (\<lambda>(r :: (unit, error) result) (_ :: 'a, tr). is_ok r \<longrightarrow> (\<exists>ips cps fr calls.
     tr = cleanup_calls inst cfg ns True ips @ cleanup_calls inst cfg ns False cps
     @ EvFindInstance inst ns fr # calls \<and> (\<forall>ev \<in> set calls. \<not> is_service_call ev)))"
  have fails: "post (Err e) s" "post (Panic p) s" for e p s by (simp_all add: post_def split_def)
  have change: "wp (handle_instance_change (spied_rt rt) x InstanceUpdate (spied ki)) post
      (w2, cleanup_calls inst cfg ns True ips @ cleanup_calls inst cfg ns False cps @ [EvFindInstance inst ns fr])"
    for x w2 ips cps fr
    by (rule wp_mono [OF emitsD [OF emits_instance_change [where Q = "\<lambda>ev. \<not> is_service_call ev"]]])
       (auto simp: post_def list_all_iff)
  have idle: "post (Ok ()) (w2, cleanup_calls inst cfg ns True ips @ cleanup_calls inst cfg ns False cps
      @ [EvFindInstance inst ns fr])" for w2 ips cps fr
    unfolding post_def by (simp, intro exI [of _ ips] exI [of _ cps] exI [of _ fr] exI [of _ "[]"]) simp
  have look: "wp (State_Monad.bind (find_instance (spied ki) inst ns) (\<lambda>f. case f of
         Ok x \<Rightarrow> handle_instance_change (spied_rt rt) x InstanceUpdate (spied ki)
       | Err _ \<Rightarrow> return (Ok ()) | Panic p \<Rightarrow> return (Panic p))) post
      (w2, cleanup_calls inst cfg ns True ips @ cleanup_calls inst cfg ns False cps)" for w2 ips cps
    unfolding wp_bind spied_sel wp_spy by (rule wp_runI) (auto split: result.split simp: change idle fails)
  have "wp (handle_non_running_pod (spied_rt rt) pod (spied ki)) post (w, [])"
    unfolding handle_non_running_pod_def assms(1,2) ok_or.simps try_then_return result.case prod.case wp_try_then
    by (rule wp_cleanup; (unfold result.case)?, (rule wp_cleanup)?)
       (auto simp: fails look [simplified] is_ok_iff split: result.split)
  from wp_run [OF this assms(3)] assms(4) show ?thesis by (simp add: post_def)
qed

text \<open>A Pod that ended on a cluster without Instances: both Services have lost their last Pod.\<close>

definition ended_pod :: PodObject where
  "ended_pod = named (''node-a-cam-pod'', ''ns'') (broker_pod ''node-a'' ''Failed'')"

lemma ended_pod_sel: "m_namespace (metadata ended_pod) = Some ''ns''"
  "get_instance_and_configuration_from_pod ended_pod = Ok (''cam'', ''cfg'')"
  by (simp_all add: ended_pod_def named_def broker_pod_def get_instance_and_configuration_from_pod_def)

lemma ended_pod_handled:
  "fst (run_state (handle_non_running_pod (spied_rt sample_rt) ended_pod (spied cluster_kube))
     (sample_cluster\<lparr>cl_instances := []\<rparr>, [])) = Ok ()"
  by (simp add: handle_non_running_pod_def ended_pod_sel try_then_def spy_def find_pods_and_cleanup_svc_if_unsupported_def
      cleanup_svc_if_unsupported_def find_pods_with_selector_def service_remove_service_def api_call_def request_def
      cluster_client_def cluster_list_def cluster_delete_def listed_def typed_api_def within_def
      instance_find_instance_def cluster_get_def get_named_def sample_cluster_def customResource_def hm_contains_def
      instance_resource_def configuration_resource_def API_INSTANCES_def API_CONFIGURATIONS_def
      ERROR_NOT_FOUND_def)

theorem service_cleanup_spec_witness:
  "\<exists>ips cps fr calls. snd (snd (run_state (handle_non_running_pod (spied_rt sample_rt) ended_pod (spied cluster_kube))
     (sample_cluster\<lparr>cl_instances := []\<rparr>, []))) = cleanup_calls ''cam'' ''cfg'' ''ns'' True ips
       @ cleanup_calls ''cam'' ''cfg'' ''ns'' False cps @ EvFindInstance ''cam'' ''ns'' fr # calls"
proof -
  obtain r w' evs where run: "run_state (handle_non_running_pod (spied_rt sample_rt) ended_pod (spied cluster_kube))
     (sample_cluster\<lparr>cl_instances := []\<rparr>, []) = (r, (w', evs))" by (metis surj_pair)
  have "is_ok r" using ended_pod_handled by (simp add: run)
  from service_cleanup_spec [OF ended_pod_sel run this] show ?thesis unfolding run by auto
qed

text \<open>The call that gives an existing Service its new, only owner.\<close>

definition ownership_call :: "OwnershipInfo \<Rightarrow> ServiceObject \<Rightarrow> kube_event" where
  "ownership_call ow svc = EvUpdateService (svc\<lparr>metadata := (metadata svc)\<lparr>m_ownerReferences := [kube_owner ow]\<rparr>\<rparr>)
     (m_name (metadata svc)) (the (m_namespace (metadata svc))) (Ok ())"

lemma wp_update_existing:
  assumes "\<And>r s. \<not> is_ok r \<Longrightarrow> Q r s" and "\<And>w'. Q (Ok ()) (w', tr @ [ownership_call ow svc])"
  shows "wp (update_existing_service ow (spied ki) svc) Q (w, tr)"
proof (cases "m_namespace (metadata svc)")
  case None
  then show ?thesis by (simp add: update_existing_service_def try_then_return assms(1))
next
  case (Some ns)
  have "Q r (s', tr @ [EvUpdateService (svc\<lparr>metadata := (metadata svc)\<lparr>m_ownerReferences := [kube_owner ow]\<rparr>\<rparr>)
      (m_name (metadata svc)) ns r])" for r s'
    using assms Some by (cases r) (auto simp: ownership_call_def)
  then show ?thesis using Some
    by (auto simp: update_existing_service_def try_then_return update_ownership_def Let_def intro!: wp_any)
qed

lemma wp_update_all:
  assumes "\<And>r s. \<not> is_ok r \<Longrightarrow> Q r s" and "\<And>w'. Q (Ok ()) (w', tr @ map (ownership_call ow) svcs)"
  shows "wp (try_for svcs (update_existing_service ow (spied ki))) Q (w, tr)"
proof (rule wp_try_for [where I = "\<lambda>done (_, tr'). tr' = tr @ map (ownership_call ow) done" and E = "\<lambda>_ _. True"])
  fix "done" x rest and s :: "'a \<times> kube_event list"
  assume "case s of (_, tr') \<Rightarrow> tr' = tr @ map (ownership_call ow) done"
  then obtain w1 where s: "s = (w1, tr @ map (ownership_call ow) done)" by (cases s) auto
  show "wp (update_existing_service ow (spied ki) x) (\<lambda>r s'. case r of
      Ok _ \<Rightarrow> (case s' of (_, tr') \<Rightarrow> tr' = tr @ map (ownership_call ow) (done @ [x])) | _ \<Rightarrow> True) s"
    unfolding s by (rule wp_update_existing) (auto split: result.split)
qed (use assms in auto)

text \<open>
  C31: Making sure that a Service exists. When it succeeds, the Services with the label have
  been searched for; if there are any, each of them, and nothing else, has been updated under
  its own name so that the given owner is its only owner; if there is none, or the search
  failed, exactly one Service has been created, built from the template.
\<close>

theorem create_or_update_service_spec:
  assumes "run_state (create_or_update_service inst cfg ns l v ow ss b (spied ki)) (w, []) = (r, (w', evs))" and "is_ok r"
  shows "\<exists>fr svcs. svcs = (case fr of Ok found \<Rightarrow> found | _ \<Rightarrow> []) \<and> evs = EvFindServices (equals l v) fr #
     (if svcs = [] then [EvCreateService (case create_new_service_from_spec ns inst cfg ow ss b of Ok svc \<Rightarrow> svc) ns (Ok ())]
      else map (ownership_call ow) svcs)"
proof -
  obtain new where new: "create_new_service_from_spec ns inst cfg ow ss b = Ok new" using create_new_service_ok by blast
  define post where "post = (\<lambda>(r :: (unit, error) result) (_ :: 'a, tr). is_ok r \<longrightarrow>
     (\<exists>fr svcs. svcs = (case fr of Ok found \<Rightarrow> found | _ \<Rightarrow> []) \<and> tr = EvFindServices (equals l v) fr #
     (if svcs = [] then [EvCreateService new ns (Ok ())] else map (ownership_call ow) svcs)))"
  have fails: "\<not> is_ok r \<Longrightarrow> post r s" for r s by (simp add: post_def split_def)
  have done': "post (Ok ()) (w2, EvFindServices (equals l v) fr # map (ownership_call ow) svcs)"
    if "fr = Ok svcs" "svcs \<noteq> []" for fr svcs w2 using that by (auto simp: post_def)
  have created': "post r2 (w2, EvFindServices (equals l v) fr # [EvCreateService new ns r2])"
    if "\<forall>svcs. fr = Ok svcs \<longrightarrow> svcs = []" for r2 fr w2
    using that by (cases fr; cases r2) (auto simp: post_def)
  have "wp (create_or_update_service inst cfg ns l v ow ss b (spied ki)) post (w, [])"
    unfolding create_or_update_service_def Let_def new try_then_return result.case spied_sel wp_bind wp_spy
  proof (rule wp_runI, goal_cases)
    case (1 fr w1)
    show ?case
    proof (cases fr)
      case (Ok svcs)
      show ?thesis
      proof (cases "svcs = []")
        case True
        then show ?thesis using Ok created' [of "Ok []"] by (auto intro!: wp_any)
      next
        case False
        have "wp (try_for svcs (update_existing_service ow (spied ki))) post (w1, [EvFindServices (equals l v) fr])"
          by (rule wp_update_all) (use fails done' [OF Ok False] in auto)
        then have "wp (try_for svcs (update_existing_service ow (spied ki))) (\<lambda>r s. case r of
            Ok _ \<Rightarrow> post (Ok ()) s | Err e \<Rightarrow> post (Err e) s | Panic p \<Rightarrow> post (Panic p) s)
            (w1, [EvFindServices (equals l v) fr])"
          by (rule wp_mono) (auto split: result.split)
        then show ?thesis using Ok False by (simp cong: result.case_cong)
      qed
    next
      case (Err e)
      then show ?thesis using created' [of "Err e"] by (auto intro!: wp_any)
    qed (simp add: fails)
  qed
  from wp_run [OF this assms(1)] assms(2) show ?thesis unfolding post_def new result.case prod.case by (rule mp)
qed

text \<open>On the small cluster, which has no Service, one is created.\<close>

definition sample_service_spec :: ServiceSpec where
  "sample_service_spec = \<lparr>selector = None, ss_other = ''''\<rparr>"

lemma cluster_service_created: "is_ok (fst (run_state (create_or_update_service ''cam'' ''cfg'' ''ns''
    AKRI_INSTANCE_LABEL_NAME ''cam'' (OwnershipInfo_new OwnedByInstance ''cam'' ''uid'') sample_service_spec True (spied cluster_kube))
    (sample_cluster, [])))"
  by (simp add: create_or_update_service_def spy_def find_services_with_selector_def service_create_service_def
      api_call_def request_def try_then_def cluster_client_def cluster_list_def listed_def sample_cluster_def typed_api_def
      within_def instance_resource_def configuration_resource_def create_new_service_from_spec_def Let_def)

theorem create_or_update_service_spec_witness:
  "\<exists>fr svcs. svcs = (case fr of Ok found \<Rightarrow> found | _ \<Rightarrow> []) \<and>
     snd (snd (run_state (create_or_update_service ''cam'' ''cfg'' ''ns'' AKRI_INSTANCE_LABEL_NAME ''cam''
       (OwnershipInfo_new OwnedByInstance ''cam'' ''uid'') sample_service_spec True (spied cluster_kube)) (sample_cluster, []))) =
     EvFindServices (equals AKRI_INSTANCE_LABEL_NAME ''cam'') fr #
       (if svcs = [] then [EvCreateService (case create_new_service_from_spec ''ns'' ''cam'' ''cfg''
          (OwnershipInfo_new OwnedByInstance ''cam'' ''uid'') sample_service_spec True of Ok svc \<Rightarrow> svc) ''ns'' (Ok ())]
        else map (ownership_call (OwnershipInfo_new OwnedByInstance ''cam'' ''uid'')) svcs)"
proof -
  obtain r w' evs where run: "run_state (create_or_update_service ''cam'' ''cfg'' ''ns'' AKRI_INSTANCE_LABEL_NAME ''cam''
       (OwnershipInfo_new OwnedByInstance ''cam'' ''uid'') sample_service_spec True (spied cluster_kube)) (sample_cluster, []) = (r, (w', evs))"
    by (metis surj_pair)
  have "is_ok r" using cluster_service_created by (simp add: run)
  from create_or_update_service_spec [OF run this] show ?thesis unfolding run by simp
qed

text \<open>
  The object a Service belongs to, by kind and name: the Instance, or the Configuration.
\<close>

definition service_owner :: "string \<Rightarrow> string \<Rightarrow> bool \<Rightarrow> string \<times> string" where
  "service_owner inst cfg b = (if b then (''Instance'', inst) else (''Configuration'', cfg))"

definition svc_owners :: "Service \<Rightarrow> (string \<times> string) list" where
  "svc_owners s = (case svc_metadata s of Some md \<Rightarrow>
     (case k_owner_references md of Some os \<Rightarrow> map (\<lambda>ow. (kor_kind ow, kor_name ow)) os | None \<Rightarrow> []) | None \<Rightarrow> [])"

text \<open>What the reaction to a running Pod of Instance \<open>inst\<close> and Configuration \<open>cfg\<close> may do.\<close>

fun running_call :: "string \<Rightarrow> string \<Rightarrow> string \<Rightarrow> kube_event \<Rightarrow> bool" where
  "running_call inst cfg ns (EvCreateService svc ns' r) \<longleftrightarrow> ns' = ns \<and> (\<exists>b.
     svc_name svc = Some (service_app_name inst cfg b)
     \<and> svc_label svc (fst (service_label inst cfg b)) = Some (snd (service_label inst cfg b))
     \<and> svc_owners svc = [service_owner inst cfg b])"
| "running_call inst cfg ns (EvUpdateService svc nm ns' r) \<longleftrightarrow> m_name (metadata svc) = nm
     \<and> m_namespace (metadata svc) = Some ns'
     \<and> (\<exists>b. map (\<lambda>ow. (or_kind ow, or_name ow)) (m_ownerReferences (metadata svc)) = [service_owner inst cfg b])"
| "running_call inst cfg ns (EvFindServices sel r) \<longleftrightarrow> (\<exists>b. sel = equals (fst (service_label inst cfg b)) (snd (service_label inst cfg b)))"
| "running_call inst cfg ns (EvFindConfiguration nm ns' r) \<longleftrightarrow> nm = cfg \<and> ns' = ns"
| "running_call inst cfg ns (EvFindInstance nm ns' r) \<longleftrightarrow> nm = inst \<and> ns' = ns"
| "running_call inst cfg ns _ \<longleftrightarrow> False"

lemma emits_with_retries: "emits Q m \<Longrightarrow> emits Q (with_retries (spied_rt rt) m xs)"
  by (induction xs) (auto intro!: emits_bind emits_return emits_unrecorded split: result.split)

lemma new_service_facts: "create_new_service_from_spec ns inst cfg ow ss b = Ok svc \<Longrightarrow>
    svc_name svc = Some (service_app_name inst cfg b)
    \<and> svc_label svc (fst (service_label inst cfg b)) = Some (snd (service_label inst cfg b))
    \<and> svc_owners svc = [(get_kind ow, get_name ow)]"
  by (auto simp: create_new_service_from_spec_def Let_def svc_name_def svc_label_def svc_owners_def service_label_def
      service_app_name k8s_owner_def)

lemma emits_create_or_update:
  assumes "(get_kind ow, get_name ow) = service_owner inst cfg b"
    and "(l, v) = service_label inst cfg b"
  shows "emits (running_call inst cfg ns) (create_or_update_service inst cfg ns l v ow ss b (spied ki))"
proof -
  have upd: "emits (running_call inst cfg ns) (update_existing_service ow (spied ki) svc)" for svc
    unfolding update_existing_service_def spied_sel
    by (intro emits_try_return emits_spy) (use assms(1) in \<open>auto simp: update_ownership_def Let_def kube_owner_def\<close>)
  have new: "emits (running_call inst cfg ns) (create_service (spied ki) svc ns)"
    if "create_new_service_from_spec ns inst cfg ow ss b = Ok svc" for svc
    unfolding spied_sel by (rule emits_spy) (use new_service_facts [OF that] assms(1) in auto)
  show ?thesis unfolding create_or_update_service_def Let_def spied_sel(6)
    by (rule emits_bind, rule emits_spy)
       (use assms(2) in \<open>auto simp: service_label_def split: result.split if_splits
          intro!: emits_try_then emits_try_for emits_return emits_try_return upd new simp del: spied_sel\<close>)
qed

text \<open>
  C40: What a broker Pod that starts running brings about, on every cluster and whatever fails:
  besides the lookups of its Configuration and its Instance, only Services are searched,
  created and updated. A created Service has the label by which it will be found again and
  the name under which it will be removed, in the Pod's namespace, and one owner, the Instance
  or the Configuration that it is labelled with; an updated one is written under its own name
  and namespace with the Instance or the Configuration as its only owner.
\<close>

theorem running_pod_calls:
  assumes "m_namespace (metadata pod) = Some ns" "get_instance_and_configuration_from_pod pod = Ok (inst, cfg)"
    and "run_state (handle_running_pod (spied_rt rt) pod (spied ki)) (w, []) = (r, (w', evs))"
  shows "\<forall>ev \<in> set evs. running_call inst cfg ns ev"
proof -
  have one: "emits (running_call inst cfg ns) (create_or_update_service inst cfg ns AKRI_INSTANCE_LABEL_NAME inst
      (OwnershipInfo_new OwnedByInstance inst uid) ss True (spied ki))"
    and two: "emits (running_call inst cfg ns) (create_or_update_service inst cfg ns AKRI_CONFIGURATION_LABEL_NAME cfg
      (OwnershipInfo_new OwnedByConfiguration cfg uid) ss False (spied ki))" for uid ss
    by (rule emits_create_or_update;
        simp add: OwnershipInfo_new_def service_label_def service_owner_def get_kind_def get_name_def)+
  have services: "emits (running_call inst cfg ns)
      (add_instance_and_configuration_services (spied_rt rt) inst uid ns cfg configuration (spied ki))" for uid configuration
    unfolding add_instance_and_configuration_services_def Let_def
    by (auto intro!: emits_try_then emits_try_return emits_with_retries emits_return one two split: option.split simp del: spied_sel)
  have "emits (running_call inst cfg ns) (handle_running_pod (spied_rt rt) pod (spied ki))"
    unfolding handle_running_pod_def assms(1,2) ok_or.simps
    by (auto intro!: emits_try_return emits_bind emits_return emits_spy services split: result.split)
  from emits_run [OF this assms(3)] show ?thesis by blast
qed

text \<open>A cluster whose Configuration asks for Services: the Pod that runs makes one of each kind.\<close>

definition service_cluster :: cluster where
  "service_cluster = broker_cluster\<lparr>cl_instances := [((''cam'', ''ns''), broker_instance)], cl_configurations := [((''cfg'', ''ns''), \<lparr>o_types = \<lparr>t_apiVersion = None, t_kind = None\<rparr>,
      metadata = ObjectMeta_default\<lparr>m_uid := Some ''uid''\<rparr>, spec = broker_configuration\<lparr>
        instance_service_spec := Some \<lparr>selector = None, ss_other = ''''\<rparr>,
        configuration_service_spec := Some \<lparr>selector = None, ss_other = ''''\<rparr>\<rparr>, status = None\<rparr>)]\<rparr>"

abbreviation service_calls :: "kube_event list" where
  "service_calls \<equiv> snd (snd (run_state (handle_running_pod (spied_rt sample_rt) running_pod (spied cluster_kube)) (service_cluster, [])))"

definition creates_service :: "string \<Rightarrow> kube_event \<Rightarrow> bool" where
  "creates_service nm ev \<longleftrightarrow> (case ev of EvCreateService svc _ _ \<Rightarrow> svc_name svc = Some nm | _ \<Rightarrow> False)"

lemma running_pod_creates: "list_all (\<lambda>nm. list_ex (creates_service nm) service_calls) [''cam-svc'', ''cfg-svc'']"
  by code_simp

theorem running_pod_calls_witness:
  "list_all (running_call ''cam'' ''cfg'' ''ns'') service_calls
   \<and> list_all (\<lambda>nm. list_ex (creates_service nm) service_calls) [''cam-svc'', ''cfg-svc'']"
proof -
  obtain r w' evs where run: "run_state (handle_running_pod (spied_rt sample_rt) running_pod (spied cluster_kube))
     (service_cluster, []) = (r, (w', evs))" by (metis surj_pair)
  have "m_namespace (metadata running_pod) = Some ''ns''"
    "get_instance_and_configuration_from_pod running_pod = Ok (''cam'', ''cfg'')"
    by (simp_all add: running_pod_def named_def broker_pod_def get_instance_and_configuration_from_pod_def)
  from running_pod_calls [OF this run] have "list_all (running_call ''cam'' ''cfg'' ''ns'') service_calls"
    unfolding run by (simp add: list_all_iff)
  then show ?thesis using running_pod_creates by blast
qed

end
