(* ===== verification/Cluster.thy ===== *)
theory Cluster
  imports Kube_Tasks Plugin_Api Slot_Reconciliation Config_Action Node_Watcher Pod_Watcher
begin

text \<open>
  Akri as a whole: the tasks that \<open>agent/src/main.rs\<close> and \<open>controller/src/main.rs\<close> start, with
  the tasks these start in turn, running at the same time on one cluster. Every one of them
  keeps the contract of \<open>instance_keeper\<close>, so the invariant of the Instances holds under every
  interleaving of their calls.
\<close>

section \<open>The runtimes\<close>

text \<open>What the runtimes of the tasks do between the calls does not touch the invariant.\<close>

definition dps_rt_keeps :: "('w \<Rightarrow> bool) \<Rightarrow> 'w dps_rt \<Rightarrow> bool" where
  "dps_rt_keeps ok rt \<longleftrightarrow> keeps ok (lock_map rt) \<and> (\<forall>m. keeps ok (store_map rt m))
     \<and> (\<forall>s k. keeps ok (broadcast_send rt s k)) \<and> (\<forall>s d. keeps ok (recv_message rt s d))
     \<and> (\<forall>s. keeps ok (server_ender_send rt s)) \<and> (\<forall>ds. keeps ok (kubelet_update_send rt ds))
     \<and> keeps ok (random_delay rt)"

definition controller_rt_keeps :: "('w \<Rightarrow> bool) \<Rightarrow> 'w controller_rt \<Rightarrow> bool" where
  "controller_rt_keeps ok rt \<longleftrightarrow> keeps ok (utc_now rt) \<and> (\<forall>c n. keeps ok (broker_pod_count_inc rt c n))
     \<and> (\<forall>c n. keeps ok (broker_pod_count_dec rt c n)) \<and> keeps ok (controller_random_delay rt)"

lemma dps_rt_keepsD [keeps_rules]:
  assumes "dps_rt_keeps ok rt"
  shows "keeps ok (lock_map rt)" "keeps ok (store_map rt m)" "keeps ok (broadcast_send rt s k)"
    "keeps ok (recv_message rt s d)" "keeps ok (server_ender_send rt s)" "keeps ok (kubelet_update_send rt ds)"
    "keeps ok (random_delay rt)"
  using assms by (simp_all add: dps_rt_keeps_def)

lemma controller_rt_keepsD [keeps_rules]:
  assumes "controller_rt_keeps ok rt"
  shows "keeps ok (utc_now rt)" "keeps ok (broker_pod_count_inc rt c n)" "keeps ok (broker_pod_count_dec rt c n)"
    "keeps ok (controller_random_delay rt)"
  using assms by (simp_all add: controller_rt_keeps_def)

section \<open>Good updates\<close>

lemma claim_patch_ok:
  assumes "instance_ok K N k i" "get_slot_value slot node i = Ok v" "node \<in> N"
  shows "patch_ok K N k (i\<lparr>device_usage := hm_insert slot v (device_usage i)\<rparr>)"
proof -
  obtain o' where "slot_owner i slot = Some o'" "v \<in> {'''', node}"
    using assms(2) by (auto simp: get_slot_value_def split: option.splits if_splits)
  with assms(1,3) show ?thesis
    by (auto simp: instance_ok_def patch_ok_def ran_subset update_conv' split: if_splits)
qed

lemma join_patch_ok: "instance_ok K N k i \<Longrightarrow> node \<in> N \<Longrightarrow> patch_ok K N k (i\<lparr>nodes := nodes i @ [node]\<rparr>)"
  by (simp add: instance_ok_def patch_ok_def)

lemma reconcile_patch_ok:
  assumes "instance_ok K N k i" "node \<in> N"
  shows "patch_ok K N k (i\<lparr>device_usage := modified_device_usage node missing to_clean i\<rparr>)"
proof -
  have "map_of (modified_device_usage node missing to_clean i) s = map_option (\<lambda>n.
      if s \<in> set missing then node else if s \<in> set to_clean then '''' else n) (slot_owner i s)" for s
    unfolding modified_device_usage_def by (simp add: map_of_map_values)
  then show ?thesis using assms
    by (auto simp: instance_ok_def patch_ok_def ran_subset dom_def split: if_splits)
qed

lemma clean_up_patch_ok:
  assumes "instance_ok K N k i"
  shows "patch_ok K N k (without_node v i)"
proof -
  have wf: "instance_wf i" using assms by (simp add: instance_ok_def)
  show ?thesis using assms
    by (auto simp: instance_ok_def patch_ok_def ran_subset dom_def without_node_sel [OF wf] split: if_splits)
qed

text \<open>
  A device plugin of the cluster: its node belongs to it, and its Configuration gives the slots
  of its Instance. Plugins on different nodes with the same Instance agree on them.
\<close>

definition plugin_ok :: "(string \<times> string \<Rightarrow> identity) \<Rightarrow> string set \<Rightarrow> DevicePluginService \<Rightarrow> bool" where
  "plugin_ok K N dps \<longleftrightarrow> dps_node_name dps \<in> N \<and> hm_wf (dps_instance_properties dps) \<and> K (dps_instance_name dps, dps_config_namespace dps)
     = \<lparr>id_slots = slot_name (dps_instance_name dps) ` {..<nat (capacity (dps_config dps))},
        id_configuration = dps_config_name dps, id_shared = dps_shared dps\<rparr>"

lemma new_instance_ok:
  assumes "plugin_ok K N dps"
  shows "instance_ok K N (dps_instance_name dps, dps_config_namespace dps) (new_instance dps)"
proof -
  have "dom (slot_owner (new_instance dps)) = slot_name (dps_instance_name dps) ` {..<nat (capacity (dps_config dps))}"
    by (simp add: dom_map_of_conv_image_fst new_instance_usage range_to_def image_image lessThan_atLeast0)
  moreover have "ran (slot_owner (new_instance dps)) \<subseteq> {''''}"
    by (auto simp: new_instance_usage ran_def dest!: map_of_SomeD)
  moreover have "instance_wf (new_instance dps)" "nodes (new_instance dps) = [dps_node_name dps]"
    "configuration_name (new_instance dps) = dps_config_name dps" "shared (new_instance dps) = dps_shared dps"
    using assms by (simp_all add: instance_wf_def new_instance_def plugin_ok_def)
  ultimately show ?thesis using assms by (auto simp: instance_ok_def plugin_ok_def)
qed

section \<open>The Agent keeps the contract\<close>

context instance_keeper
begin

lemma keeps_try_update_loop:
  assumes "dps_rt_keeps ok rt" "node \<in> N"
  shows "keeps ok (try_update_loop rt slot node nm ns ki xs)"
proof (induction xs)
  case (Cons x xs)
  have after: "keeps ok (after_update rt node x v (try_update_loop rt slot node nm ns ki xs) u)" for v u
    unfolding after_update_def using Cons assms(1) by (auto intro!: keeps_rules split: result.split)
  show ?case unfolding try_update_loop.simps
    by (intro keeps_find_bind)
       (auto intro!: keeps_rules after claim_patch_ok assms(2) simp: object_ok_def Let_def split: result.split)
qed (simp add: keeps_rules)

lemma keeps_allocate_devices [keeps_rules]:
  assumes "dps_rt_keeps ok rt" "dps_node_name self \<in> N"
  shows "keeps ok (allocate_devices rt self ki ids annots)"
proof (induction ids arbitrary: annots)
  case (Cons d ids)
  then show ?case using assms
    by (auto simp: Let_def try_update_instance_device_usage_def intro!: keeps_bind keeps_try_update_loop keeps_rules split: result.split)
qed (simp add: keeps_rules)

lemma keeps_internal_allocate:
  "dps_rt_keeps ok rt \<Longrightarrow> dps_node_name self \<in> N \<Longrightarrow> keeps ok (internal_allocate rt self ki reqs)"
  by (induction reqs) (auto simp: Let_def intro!: keeps_rules)

lemma keeps_allocate [keeps_rules]: "dps_rt_keeps ok rt \<Longrightarrow> dps_node_name self \<in> N \<Longrightarrow> keeps ok (allocate rt self ki reqs)"
  unfolding allocate_def by (intro keeps_bind keeps_internal_allocate keeps_return)

lemma keeps_break_or_retry: "dps_rt_keeps ok rt \<Longrightarrow> keeps ok m \<Longrightarrow> keeps ok (break_or_retry rt x m r)"
  by (auto simp: break_or_retry_def intro!: keeps_rules split: result.split)

lemma keeps_try_create_loop:
  assumes "dps_rt_keeps ok rt" "plugin_ok K N dps"
  shows "keeps ok (try_create_loop rt dps ki xs)"
proof (induction xs)
  case (Cons x xs)
  let ?k = "(dps_instance_name dps, dps_config_namespace dps)"
  have node: "dps_node_name dps \<in> N" using assms(2) by (simp add: plugin_ok_def)
  have "keeps ok (update_instance ki ((spec y)\<lparr>nodes := nodes (spec y) @ [dps_node_name dps]\<rparr>)
      (m_name (metadata y)) (dps_config_namespace dps))" if "object_ok K N ?k y" for y
    using that by (intro keeps_calls join_patch_ok node) (simp add: object_ok_def stored_as_def)
  moreover have "keeps ok (create_instance ki (new_instance dps) (dps_instance_name dps) (dps_config_namespace dps)
      (dps_config_name dps) (dps_config_uid dps))" by (intro keeps_calls new_instance_ok assms(2))
  ultimately show ?case unfolding try_create_loop.simps using Cons
    by (intro keeps_find_bind) (auto intro!: keeps_bind keeps_return keeps_break_or_retry assms(1) split: result.split)
qed (simp add: keeps_rules)

lemma keeps_try_create_instance [keeps_rules]:
  "dps_rt_keeps ok rt \<Longrightarrow> plugin_ok K N dps \<Longrightarrow> keeps ok (try_create_instance rt dps ki)"
  unfolding try_create_instance_def by (intro keeps_rules keeps_try_create_loop)

lemma keeps_build_response [keeps_rules]: "dps_rt_keeps ok rt \<Longrightarrow> keeps ok (build_list_and_watch_response rt dps ki)"
  unfolding build_list_and_watch_response_def Let_def by (auto intro!: keeps_rules)

lemma keeps_list_and_watch_loop: "dps_rt_keeps ok rt \<Longrightarrow> keeps ok (list_and_watch_loop rt dps ki n)"
proof (induction n)
  case (Suc n)
  have "keeps ok (send_devices rt dps ds)" for ds
    unfolding send_devices_def using Suc.prems by (auto intro!: keeps_rules split: result.split)
  with Suc show ?case by (auto simp: on_message_def intro!: keeps_rules)
qed (simp add: keeps_rules)

lemma keeps_list_and_watch [keeps_rules]:
  "dps_rt_keeps ok rt \<Longrightarrow> plugin_ok K N dps \<Longrightarrow> keeps ok (list_and_watch rt dps ki n)"
  unfolding list_and_watch_def by (auto intro!: keeps_rules keeps_list_and_watch_loop split: result.split)

end

context instance_keeper
begin

lemma keeps_filter_expired [keeps_rules]: "keeps ok now \<Longrightarrow> keeps ok (filter_expired grace now slots m)"
proof (induction slots arbitrary: m)
  case (Cons s slots)
  have "keeps ok (slot_expired grace now s m)"
    unfolding slot_expired_def using Cons.prems by (auto intro!: keeps_rules split: option.split)
  with Cons show ?case by (auto intro!: keeps_rules)
qed (simp add: keeps_rules)

lemma keeps_reconcile_instance:
  assumes "keeps ok now" "node \<in> N" "\<exists>k. object_ok K N k x"
  shows "keeps ok (reconcile_instance node grace now ki usage x m)"
proof -
  obtain k where k: "stored_as x (fst k) (snd k)" "instance_ok K N k (spec x)"
    using assms(3) unfolding object_ok_def by blast
  have "keeps ok (update_instance ki ((spec x)\<lparr>device_usage := modified_device_usage node missing to_clean (spec x)\<rparr>)
      (m_name (metadata x)) ns)" if "m_namespace (metadata x) = Some ns" for missing to_clean ns
    using k that by (intro keeps_calls reconcile_patch_ok assms(2)) (simp add: stored_as_def)
  then show ?thesis unfolding reconcile_instance_def Let_def using assms(1)
    by (auto intro!: keeps_bind keeps_try_pure keeps_return keeps_filter_expired)
qed

lemma keeps_reconcile_instances: "keeps ok now \<Longrightarrow> node \<in> N \<Longrightarrow> (\<And>x. x \<in> set xs \<Longrightarrow> \<exists>k. object_ok K N k x) \<Longrightarrow>
    keeps ok (reconcile_instances node grace now ki usage xs m)"
proof (induction xs arbitrary: m)
  case (Cons x xs)
  then show ?case unfolding reconcile_instances.simps
    by (intro keeps_try_then keeps_reconcile_instance Cons.IH) (auto simp del: split_paired_Ex)
qed (simp add: keeps_rules)

lemma keeps_reconcile:
  assumes "keeps ok now" "keeps ok query" "node \<in> N"
  shows "keeps ok (reconcile node grace now query ki m)"
proof -
  have "keeps ok (do {
      gi \<leftarrow> get_instances ki;
      case gi of
        Err e \<Rightarrow> return (Ok m')
      | Panic p \<Rightarrow> return (Panic p)
      | Ok instances \<Rightarrow> do {
          fp \<leftarrow> find_pods_with_field ki (node_field_selector node);
          case fp of
            Err e \<Rightarrow> return (Ok m')
          | Panic p \<Rightarrow> return (Panic p)
          | Ok pods \<Rightarrow> if list_ex unready pods then return (Ok m')
              else reconcile_instances node grace now ki usage instances m'
        }
    })" for m' usage
    by (rule keeps_get_bind)
       (auto intro!: keeps_bind keeps_return keeps_calls keeps_reconcile_instances assms split: result.split
         simp del: split_paired_Ex)
  then show ?thesis unfolding reconcile_def Let_def
    by (auto intro!: keeps_bind keeps_return assms(2) split: result.split)
qed

lemma keeps_reconciliation_loop: "keeps ok now \<Longrightarrow> keeps ok query \<Longrightarrow> (\<And>d. keeps ok (delay d)) \<Longrightarrow> node \<in> N \<Longrightarrow>
    keeps ok (reconciliation_loop node grace now query ki delay n m)"
  by (induction n arbitrary: m) (auto intro!: keeps_bind keeps_try_then keeps_return keeps_reconcile)

lemma keeps_periodic_slot_reconciliation:
  assumes "keeps ok (slot_now rt)" "\<And>p as. keeps ok (slot_run_command rt p as)" "\<And>d. keeps ok (slot_delay_for rt d)"
    and "set_option (slot_env_var rt ''AGENT_NODE_NAME'') \<subseteq> N"
  shows "keeps ok (periodic_slot_reconciliation rt ki grace n)"
proof -
  have "keeps ok (get_node_slots (slot_run_command rt) fs q)" for fs q
    unfolding get_node_slots_def by (intro keeps_bind keeps_return assms(2))
  then show ?thesis unfolding periodic_slot_reconciliation_def Let_def
    by (intro keeps_try_pure keeps_reconciliation_loop assms(1,3)) (use assms(4) in auto)
qed

end

section \<open>Configurations\<close>

definition serve_rt_keeps :: "('w \<Rightarrow> bool) \<Rightarrow> 'w serve_rt \<Rightarrow> bool" where
  "serve_rt_keeps ok os \<longleftrightarrow> (\<forall>d. keeps ok (create_dir_all os d)) \<and> (\<forall>p. keeps ok (bind_listener os p))
     \<and> (\<forall>s p. keeps ok (spawn_server os s p)) \<and> (\<forall>p. keeps ok (connect_uds os p))
     \<and> (\<forall>r. keeps ok (kubelet_register os r)) \<and> keeps ok (system_time_secs os) \<and> (\<forall>d. keeps ok (sleep os d))
     \<and> (\<forall>v. keeps ok (env_var os v)) \<and> keeps ok (new_channels os) \<and> (\<forall>s. keeps ok (ender_send os s))"

definition config_rt_keeps :: "('w \<Rightarrow> bool) \<Rightarrow> 'w config_rt \<Rightarrow> bool" where
  "config_rt_keeps ok rt \<longleftrightarrow> keeps ok (lock_configs rt) \<and> (\<forall>c. keeps ok (store_configs rt c))
     \<and> (\<forall>h. dps_rt_keeps ok (map_rt rt h)) \<and> keeps ok (new_instance_map rt) \<and> keeps ok (new_discovery_channels rt)
     \<and> (\<forall>s. keeps ok (stop_send rt s)) \<and> (\<forall>s d. keeps ok (stop_recv rt s d)) \<and> (\<forall>s. keeps ok (finished_subscribe rt s))
     \<and> (\<forall>h. keeps ok (finished_recv rt h)) \<and> (\<forall>s. keeps ok (finished_send rt s)) \<and> keeps ok (rt_now rt)
     \<and> (\<forall>c. keeps ok (spawn_add rt c)) \<and> keeps ok (spawn_watch rt) \<and> keeps ok (join_all rt)
     \<and> (\<forall>c. keeps ok (start_timer rt c)) \<and> (\<forall>t. keeps ok (observe_duration rt t))
     \<and> (\<forall>c b n. keeps ok (instance_count_set rt c b n))"

lemma serve_rt_keepsD [keeps_rules]:
  assumes "serve_rt_keeps ok os"
  shows "keeps ok (create_dir_all os d)" "keeps ok (bind_listener os p)" "keeps ok (spawn_server os s p)"
    "keeps ok (connect_uds os p)" "keeps ok (kubelet_register os r)" "keeps ok (system_time_secs os)"
    "keeps ok (sleep os t)" "keeps ok (env_var os v)" "keeps ok (new_channels os)" "keeps ok (ender_send os h)"
  using assms by (simp_all add: serve_rt_keeps_def)

lemma config_rt_keepsD [keeps_rules]:
  assumes "config_rt_keeps ok rt"
  shows "keeps ok (lock_configs rt)" "keeps ok (store_configs rt c)" "dps_rt_keeps ok (map_rt rt h)"
    "keeps ok (new_instance_map rt)" "keeps ok (new_discovery_channels rt)" "keeps ok (stop_send rt s)"
    "keeps ok (stop_recv rt s d)" "keeps ok (finished_subscribe rt s)" "keeps ok (finished_recv rt h)"
    "keeps ok (finished_send rt s)" "keeps ok (rt_now rt)" "keeps ok (spawn_add rt kc)" "keeps ok (spawn_watch rt)"
    "keeps ok (join_all rt)" "keeps ok (start_timer rt cn)" "keeps ok (observe_duration rt timer)"
    "keeps ok (instance_count_set rt cn b n)"
  using assms by (simp_all add: config_rt_keeps_def)

lemma keeps_expecting [keeps_rules]: "keeps ok m \<Longrightarrow> keeps ok (expecting msg m)"
  unfolding expecting_def by (intro keeps_rules)

lemma keeps_wait_for_server: "keeps ok time \<Longrightarrow> keeps ok connect \<Longrightarrow> (\<And>d. keeps ok (delay d)) \<Longrightarrow>
    keeps ok (wait_for_server time connect delay deadline c n)"
  by (induction n arbitrary: c) (auto intro!: keeps_rules split: result.split)

lemma keeps_serve_wait: "serve_rt_keeps ok os \<Longrightarrow> keeps ok (serve_wait os p d c n)"
  unfolding serve_wait_def by (intro keeps_wait_for_server serve_rt_keepsD)

lemma keeps_build_device_plugin: "serve_rt_keeps ok os \<Longrightarrow> keeps ok (build_device_plugin os n i c u ns cf sh ps path)"
  unfolding build_device_plugin_def serve_def register_def Let_def
  by (auto intro!: keeps_rules keeps_serve_wait split: result.split prod.split option.split)

lemma keeps_build_device_plugins [keeps_rules]:
  "serve_rt_keeps ok os \<Longrightarrow> keeps ok (build_device_plugins os n self sh path ds)"
  by (induction ds) (auto intro!: keeps_bind keeps_return keeps_build_device_plugin split: result.split)

context instance_keeper
begin

lemma keeps_try_delete_instance [keeps_rules]: "keeps ok (try_delete_instance ki nm ns)"
  unfolding try_delete_instance_def by (auto intro!: keeps_rules keeps_find split: result.split)

lemma keeps_update_entry [keeps_rules]:
  "dps_rt_keeps ok rt \<Longrightarrow> keeps ok now \<Longrightarrow> keeps ok (update_entry rt now ki ns vis sh e)"
  unfolding update_entry_def terminate_device_plugin_service_def Let_def
  by (auto intro!: keeps_rules split: ConnectivityStatus.split prod.split)

lemma keeps_update_connectivity_status [keeps_rules]:
  "dps_rt_keeps ok rt \<Longrightarrow> keeps ok now \<Longrightarrow> keeps ok (update_connectivity_status rt now ki ns vis sh)"
  unfolding update_connectivity_status_def Let_def by (intro keeps_rules)

lemma keeps_periodic_discovery_loop [keeps_rules]:
  assumes "config_rt_keeps ok rt" "serve_rt_keeps ok os" "keeps ok (discover proto)"
  shows "keeps ok (periodic_discovery_loop rt os ki self proto sh stop finished path n)"
  by (induction n) (auto simp: Let_def intro!: keeps_rules assms)

lemma keeps_do_periodic_discovery [keeps_rules]:
  assumes "config_rt_keeps ok rt" "serve_rt_keeps ok os" "\<And>p dh. gh p = Ok dh \<Longrightarrow> keeps ok (discover dh)"
  shows "keeps ok (do_periodic_discovery gh rt os ki self stop finished path n)"
  unfolding do_periodic_discovery_def by (auto intro!: keeps_rules assms)

lemma keeps_handle_config_add:
  assumes "config_rt_keeps ok rt" "serve_rt_keeps ok os" "\<And>p dh. gh p = Ok dh \<Longrightarrow> keeps ok (discover dh)"
  shows "keeps ok (handle_config_add gh rt os ki config n)"
  unfolding handle_config_add_def
  by (intro keeps_try_pure keeps_try_then keeps_bind, simp add: assms(3)) (auto intro!: keeps_rules assms split: prod.split)

lemma keeps_delete_instances [keeps_rules]: "dps_rt_keeps ok rt \<Longrightarrow> keeps ok (delete_instances rt ki ns es m)"
  by (induction es arbitrary: m) (auto simp: Let_def intro!: keeps_rules)

lemma keeps_handle_config_delete [keeps_rules]: "config_rt_keeps ok rt \<Longrightarrow> keeps ok (handle_config_delete rt ki config)"
  unfolding handle_config_delete_def Let_def by (auto intro!: keeps_rules split: result.split)

lemma keeps_watch_for_config_changes [keeps_rules]: "config_rt_keeps ok rt \<Longrightarrow> keeps ok (watch_for_config_changes rt ki evs)"
proof (induction evs)
  case (Cons ev evs)
  have "keeps ok (handle_config rt ki event)" for event
    unfolding handle_config_def using Cons.prems by (auto intro!: keeps_rules split: WatchEvent.split)
  with Cons show ?case by (auto intro!: keeps_rules)
qed (simp add: keeps_rules)

lemma keeps_do_config_watch [keeps_rules]: "config_rt_keeps ok rt \<Longrightarrow> keeps ok (do_config_watch rt ki)"
  unfolding do_config_watch_def by (auto intro!: keeps_rules)

end

section \<open>The Controller keeps the contract\<close>

lemma keeps_select_pod_action [keeps_rules]: "controller_rt_keeps ok rt \<Longrightarrow> keeps ok (select_pod_action rt info)"
  unfolding select_pod_action_def choice_for_pod_action_def choice_for_pods_on_known_nodes_def
    choice_for_non_running_pods_def time_choice_for_non_running_pods_def
  by (auto intro!: keeps_rules split: option.split InstanceAction.split)

lemma keeps_determine_actions [keeps_rules]: "controller_rt_keeps ok rt \<Longrightarrow> keeps ok (determine_actions rt a ps m)"
proof (induction ps arbitrary: m)
  case (Cons p ps)
  have "keeps ok (determine_action_for_pod rt p a m)"
    unfolding determine_action_for_pod_def Let_def using Cons.prems by (auto intro!: keeps_rules split: option.split)
  with Cons show ?case by (auto intro!: keeps_rules)
qed (simp add: keeps_rules)

context instance_keeper
begin

lemma keeps_handle_instance_change [keeps_rules]:
  assumes "controller_rt_keeps ok rt"
  shows "keeps ok (handle_instance_change rt x a ki)"
proof -
  have "keeps ok (handle_addition_work rt n u ns c sh node cfg ki)" for n u ns c sh node cfg
    unfolding handle_addition_work_def Let_def using assms by (auto intro!: keeps_rules split: option.split)
  moreover have "keeps ok (handle_deletion_work rt n c sh node ctx ki)" for n c sh node ctx
    unfolding handle_deletion_work_def Let_def using assms by (auto intro!: keeps_rules)
  ultimately have "keeps ok (execute_plan rt x ns u ki plan)" for ns u plan
    unfolding execute_plan_def Let_def by (auto intro!: keeps_rules split: result.split)
  then show ?thesis unfolding handle_instance_change_def Let_def using assms by (intro keeps_rules)
qed

lemma keeps_handle_instance [keeps_rules]: "controller_rt_keeps ok rt \<Longrightarrow> keeps ok (handle_instance rt ev ki)"
  unfolding handle_instance_def by (auto intro!: keeps_rules split: WatchEvent.split)

lemma keeps_join_tasks: "list_all (keeps ok) ts \<Longrightarrow> keeps ok (join_tasks ts)"
  by (induction ts) (auto intro!: keeps_rules)

lemma keeps_handle_existing [keeps_rules]: "controller_rt_keeps ok rt \<Longrightarrow> keeps ok (internal_handle_existing_instances rt ki)"
  unfolding internal_handle_existing_instances_def
  by (intro keeps_get_try keeps_join_tasks) (auto simp: list_all_iff intro!: keeps_rules)

lemma keeps_instance_watch [keeps_rules]: "controller_rt_keeps ok rt \<Longrightarrow> keeps ok (internal_do_instance_watch rt ki evs)"
  by (induction evs) (auto intro!: keeps_rules)

lemma keeps_remove_node_tries:
  assumes "controller_rt_keeps ok rt" "object_ok K N (nm, ns) x"
  shows "keeps ok (remove_node_tries rt v nm ns x ki xs)"
proof (induction xs)
  case (Cons n xs)
  have post: "wp (if n = 0 then return (Ok x) else find_instance ki nm ns)
      (\<lambda>r w'. ok w' \<and> (\<forall>y. r = Ok y \<longrightarrow> object_ok K N (nm, ns) y)) w" if "ok w" for w
    using that assms(2) find_instance_good [of w nm ns] by simp
  have "keeps ok (try_remove_nodes_from_instance v nm ns y ki)" if "object_ok K N (nm, ns) y" for y
    unfolding try_remove_eq using that by (intro keeps_calls clean_up_patch_ok) (simp add: object_ok_def)
  then show ?case unfolding remove_node_tries.simps using Cons assms(1)
    by (intro keeps_try_then_post [OF post]) (auto intro!: keeps_bind keeps_return controller_rt_keepsD split: result.split)
qed (simp add: keeps_rules)

lemma keeps_node_disappearance [keeps_rules]:
  assumes "controller_rt_keeps ok rt"
  shows "keeps ok (handle_node_disappearance rt v ki)"
proof -
  have "keeps ok (clean_instance rt v ki x)" if ex: "\<exists>k. object_ok K N k x" for x
  proof -
    obtain k where k: "object_ok K N k x" using ex by blast
    then have "k = (m_name (metadata x), ns)" if "m_namespace (metadata x) = Some ns" for ns
      using that by (cases k) (simp add: object_ok_def stored_as_def)
    with k show ?thesis unfolding clean_instance_def Let_def
      by (intro keeps_try_pure keeps_remove_node_tries assms) auto
  qed
  then show ?thesis unfolding handle_node_disappearance_def by (intro keeps_get_try keeps_try_for) blast
qed

lemma keeps_watch_nodes [keeps_rules]: "controller_rt_keeps ok rt \<Longrightarrow> keeps ok (watch_nodes rt ki self evs)"
proof (induction evs arbitrary: self)
  case (Cons ev evs)
  have "keeps ok (handle_node rt self event ki)" for event
    unfolding handle_node_def call_handle_node_disappearance_if_needed_def Let_def
    using Cons.prems by (auto intro!: keeps_rules split: WatchEvent.split)
  with Cons show ?case by (auto intro!: keeps_rules split: result.split)
qed (simp add: keeps_rules)

lemma keeps_with_retries: "controller_rt_keeps ok rt \<Longrightarrow> keeps ok m \<Longrightarrow> keeps ok (with_retries rt m xs)"
  by (induction xs) (auto intro!: keeps_rules split: result.split)

lemma keeps_create_or_update_service: "keeps ok (create_or_update_service n c ns l v ow sp is ki)"
  unfolding create_or_update_service_def update_existing_service_def Let_def
  by (auto intro!: keeps_rules split: result.split)

lemma keeps_handle_running_pod: "controller_rt_keeps ok rt \<Longrightarrow> keeps ok (handle_running_pod rt pod ki)"
  unfolding handle_running_pod_def add_instance_and_configuration_services_def Let_def
  by (auto intro!: keeps_rules keeps_with_retries keeps_create_or_update_service split: result.split option.split)

lemma keeps_handle_non_running_pod: "controller_rt_keeps ok rt \<Longrightarrow> keeps ok (handle_non_running_pod rt pod ki)"
  unfolding handle_non_running_pod_def find_pods_and_cleanup_svc_if_unsupported_def cleanup_svc_if_unsupported_def Let_def
  by (auto intro!: keeps_rules split: result.split)

lemma keeps_watch_pods [keeps_rules]: "controller_rt_keeps ok rt \<Longrightarrow> keeps ok (watch_pods rt ki self evs)"
proof (induction evs arbitrary: self)
  case (Cons ev evs)
  have if_needed: "keeps ok h \<Longrightarrow> keeps ok (if_needed self pod s h)" for pod s h
    unfolding if_needed_def Let_def by (auto intro!: keeps_rules)
  have "keeps ok (handle_pod rt self event ki)" for event
    unfolding handle_pod_def handle_changed_pod_def handle_running_pod_if_needed_def handle_ended_pod_if_needed_def
      handle_deleted_pod_if_needed_def Let_def
    using Cons.prems by (auto intro!: keeps_return if_needed keeps_handle_running_pod keeps_handle_non_running_pod split: WatchEvent.split)
  with Cons show ?case by (auto intro!: keeps_rules split: result.split)
qed (simp add: keeps_rules)

end

section \<open>The tasks of the cluster\<close>

text \<open>
  The entry points start one task per line of their \<open>tasks\<close> vector; each unwraps its result, and
  \<open>try_join_all\<close> waits for all of them and fails when one has panicked. The metrics server and
  the set-up of logging are left out. \<open>n\<close> bounds the rounds of the endless loop, and the
  watches get the events that are delivered.
\<close>

definition detached :: "('w, 'a) io \<Rightarrow> ('w, unit) state" where
  "detached m = do { _ \<leftarrow> unwrapped m; return () }"

definition agent_main :: "'w slot_rt \<Rightarrow> 'w config_rt \<Rightarrow> 'w kube_interface \<Rightarrow> nat \<Rightarrow> ('w, unit) state list" where
  "agent_main srt rt kube_interface n =
     (let slot_grace_period = from_secs SLOT_RECONCILIATION_SLOT_GRACE_PERIOD_SECS
      in [detached (periodic_slot_reconciliation srt kube_interface slot_grace_period n),
          detached (do_config_watch rt kube_interface)])"

definition controller_main :: "'w controller_rt \<Rightarrow> 'w kube_interface \<Rightarrow> (KubeAkriInstance WatchEvent, error) result list
    \<Rightarrow> (NodeObject WatchEvent, error) result list \<Rightarrow> (PodObject WatchEvent, error) result list
    \<Rightarrow> ('w, unit) state list" where
  "controller_main rt kube_interface instance_events node_events pod_events =
     [detached (internal_handle_existing_instances rt kube_interface),
      detached (internal_do_instance_watch rt kube_interface instance_events),
      detached (do { (r, _) \<leftarrow> watch_nodes rt kube_interface NodeWatcher_new node_events; return r }),
      detached (do { (r, _) \<leftarrow> watch_pods rt kube_interface BrokerPodWatcher_new pod_events; return r })]"

text \<open>The runtimes of a task work on its own state only.\<close>

definition local_dps :: "'l dps_rt \<Rightarrow> 'l task_state dps_rt" where
  "local_dps rt = \<lparr>lock_map = local_io (lock_map rt), store_map = (\<lambda>m. local_io (store_map rt m)),
     broadcast_send = (\<lambda>s k. local_io (broadcast_send rt s k)), recv_message = (\<lambda>s d. local_io (recv_message rt s d)),
     server_ender_send = (\<lambda>s. local_io (server_ender_send rt s)),
     kubelet_update_send = (\<lambda>ds. local_io (kubelet_update_send rt ds)), random_delay = local_io (random_delay rt)\<rparr>"

definition local_serve :: "'l serve_rt \<Rightarrow> 'l task_state serve_rt" where
  "local_serve os = \<lparr>create_dir_all = (\<lambda>d. local_io (create_dir_all os d)), bind_listener = (\<lambda>p. local_io (bind_listener os p)),
     spawn_server = (\<lambda>s p. local_io (spawn_server os s p)), connect_uds = (\<lambda>p. local_io (connect_uds os p)),
     kubelet_register = (\<lambda>r. local_io (kubelet_register os r)), system_time_secs = local_io (system_time_secs os),
     sleep = (\<lambda>d. local_io (sleep os d)), env_var = (\<lambda>v. local_io (env_var os v)),
     new_channels = local_io (new_channels os), ender_send = (\<lambda>s. local_io (ender_send os s))\<rparr>"

definition local_config :: "'l config_rt \<Rightarrow> 'l task_state config_rt" where
  "local_config rt = \<lparr>lock_configs = local_io (lock_configs rt), store_configs = (\<lambda>c. local_io (store_configs rt c)),
     map_rt = (\<lambda>h. local_dps (map_rt rt h)), new_instance_map = local_io (new_instance_map rt),
     new_discovery_channels = local_io (new_discovery_channels rt), stop_send = (\<lambda>s. local_io (stop_send rt s)),
     stop_recv = (\<lambda>s d. local_io (stop_recv rt s d)), finished_subscribe = (\<lambda>s. local_io (finished_subscribe rt s)),
     finished_recv = (\<lambda>h. local_io (finished_recv rt h)), finished_send = (\<lambda>s. local_io (finished_send rt s)),
     rt_now = local_io (rt_now rt), spawn_add = (\<lambda>c. local_io (spawn_add rt c)),
     spawn_watch = local_io (spawn_watch rt), join_all = local_io (join_all rt),
     start_timer = (\<lambda>c. local_io (start_timer rt c)), observe_duration = (\<lambda>t. local_io (observe_duration rt t)),
     instance_count_set = (\<lambda>c b n. local_io (instance_count_set rt c b n))\<rparr>"

definition local_slot :: "'l slot_rt \<Rightarrow> 'l task_state slot_rt" where
  "local_slot rt = \<lparr>slot_env_var = slot_env_var rt, slot_run_command = (\<lambda>p as. local_io (slot_run_command rt p as)),
     crictl_from_str = crictl_from_str rt, slot_now = local_io (slot_now rt),
     slot_delay_for = (\<lambda>d. local_io (slot_delay_for rt d))\<rparr>"

definition local_controller :: "'l controller_rt \<Rightarrow> 'l task_state controller_rt" where
  "local_controller rt = \<lparr>utc_now = local_io (utc_now rt), checked_add_minutes = checked_add_minutes rt,
     broker_pod_count_inc = (\<lambda>c n. local_io (broker_pod_count_inc rt c n)),
     broker_pod_count_dec = (\<lambda>c n. local_io (broker_pod_count_dec rt c n)),
     controller_random_delay = local_io (controller_random_delay rt)\<rparr>"

definition local_handlers :: "(ProtocolHandler \<Rightarrow> ('l discovery_handler, error) result)
    \<Rightarrow> ProtocolHandler \<Rightarrow> ('l task_state discovery_handler, error) result" where
  "local_handlers gh p = res_then (gh p) (\<lambda>dh. Ok \<lparr>discover = local_io (discover dh), are_shared = are_shared dh\<rparr>)"

lemma local_rt_keeps [simp]:
  "dps_rt_keeps (replay_ok K N) (local_dps rt)" "serve_rt_keeps (replay_ok K N) (local_serve os)"
  "config_rt_keeps (replay_ok K N) (local_config crt)" "controller_rt_keeps (replay_ok K N) (local_controller ctl)"
  by (simp_all add: dps_rt_keeps_def local_dps_def serve_rt_keeps_def local_serve_def config_rt_keeps_def
      local_config_def controller_rt_keeps_def local_controller_def local_io_keeps)

text \<open>
  The tasks: those of the two entry points, the one that the Controller starts for each
  Instance it finds, those that the Agent starts for a Configuration and for watching
  Configurations, those that serve a request of the kubelet to a device
  plugin, whatever its path and body, and the one that its \<open>list_and_watch\<close> starts. The
  environment variable \<open>AGENT_NODE_NAME\<close> names a node of the cluster. \<open>g\<close> is tonic's part in
  serving a request, which acts on the world only by running the method it is given.
\<close>

definition only_runs :: "('w, 'i, 'b, 'req, 'resp) server_method \<Rightarrow> bool" where
  "only_runs f \<longleftrightarrow> (\<forall>ok i m req. (\<forall>r. keeps ok (m r)) \<longrightarrow> keeps ok (f i m req))"

definition grpc_only_runs :: "('w, 'i, 'b) plugin_grpc \<Rightarrow> bool" where
  "grpc_only_runs g \<longleftrightarrow> only_runs (unary_options g) \<and> only_runs (streaming_list_and_watch g)
     \<and> only_runs (unary_allocate g) \<and> only_runs (unary_pre_start g)"

definition plugin_request :: "('w, 'i, 'b) plugin_grpc \<Rightarrow> 'w dps_rt \<Rightarrow> 'w kube_interface \<Rightarrow> (DevicePluginService \<Rightarrow> ('w, stream_handle) state)
    \<Rightarrow> DevicePluginService \<Rightarrow> 'b http_request \<Rightarrow> ('w, unit) state" where
  "plugin_request g rt ki spawn dps req = do {
     _ \<leftarrow> DevicePluginServer_call g (DevicePluginServer_new (DevicePluginService_impl rt ki spawn dps)) req;
     return ()
   }"

inductive cluster_task :: "('l task_state, 'i, 'b) plugin_grpc \<Rightarrow> (string \<times> string \<Rightarrow> identity) \<Rightarrow> string set
    \<Rightarrow> ('l task_state, unit) state \<Rightarrow> bool"
  for g K N where
  agent: "t \<in> set (agent_main (local_slot srt) (local_config rt) task_kube n)
    \<Longrightarrow> set_option (slot_env_var srt ''AGENT_NODE_NAME'') \<subseteq> N \<Longrightarrow> cluster_task g K N t"
| controller: "t \<in> set (controller_main (local_controller ctl) task_kube ies nes pes) \<Longrightarrow> cluster_task g K N t"
| existing_instance: "cluster_task g K N (detached (handle_instance_change (local_controller ctl) inst InstanceUpdate task_kube))"
| config_added: "cluster_task g K N (detached (handle_config_add (local_handlers gh) (local_config rt) (local_serve os)
    task_kube config n))"
| config_watch: "cluster_task g K N (detached (watch_for_config_changes (local_config rt) task_kube evs))"
| plugin_watch: "plugin_ok K N dps \<Longrightarrow> cluster_task g K N (detached (list_and_watch (local_dps drt) dps task_kube n))"
| plugin_served: "plugin_ok K N dps \<Longrightarrow> grpc_only_runs g
    \<Longrightarrow> cluster_task g K N (plugin_request g (local_dps drt) task_kube (\<lambda>s. local_io (spawn s)) dps req)"

inductive_cases cluster_taskE: "cluster_task g K N t"

lemma keeps_detached [keeps_rules]: "keeps ok m \<Longrightarrow> keeps ok (detached m)"
  unfolding detached_def by (intro keeps_rules)

context instance_keeper
begin

lemma keeps_plugin_request:
  assumes "grpc_only_runs g" "dps_rt_keeps ok rt" "\<And>s. keeps ok (spawn s)" "dps_node_name dps \<in> N"
  shows "keeps ok (plugin_request g rt ki spawn dps req)"
proof -
  let ?p = "DevicePluginService_impl rt ki spawn dps"
  have "keeps ok (dp_get_device_plugin_options ?p u)" "keeps ok (dp_list_and_watch ?p u)" "keeps ok (dp_allocate ?p reqs)"
    "keeps ok (dp_pre_start_container ?p ids)" for u reqs ids
    using assms(2-) by (auto simp: DevicePluginService_impl_def intro!: keeps_rules)
  then have "keeps ok (DevicePluginServer_call g (DevicePluginServer_new ?p) req)"
    using assms(1) [unfolded grpc_only_runs_def only_runs_def]
    by (auto simp: DevicePluginServer_call_def DevicePluginServer_new_def Let_def intro!: keeps_return)
  then show ?thesis unfolding plugin_request_def by (intro keeps_bind keeps_return)
qed

end

lemma cluster_task_keeps: "cluster_task g K N t \<Longrightarrow> keeps (replay_ok K N) t"
proof (erule cluster_taskE, goal_cases)
  case (1 srt rt n)
  then show ?case
    by (auto simp: agent_main_def Let_def local_slot_def
        intro!: keeps_detached replay.keeps_periodic_slot_reconciliation replay.keeps_do_config_watch local_io_keeps)
next
  case (2 ctl ies nes pes)
  then show ?case
    by (auto simp: controller_main_def intro!: keeps_detached keeps_bind keeps_return replay.keeps_handle_existing
        replay.keeps_instance_watch replay.keeps_watch_nodes replay.keeps_watch_pods)
next
  case (3 ctl inst)
  then show ?case by (auto intro!: keeps_detached replay.keeps_handle_instance_change)
next
  case (4 gh rt os config n)
  then show ?case
    by (auto simp: local_handlers_def res_then_Ok intro!: keeps_detached replay.keeps_handle_config_add local_io_keeps)
qed (auto simp: plugin_ok_def intro!: keeps_detached replay.keeps_watch_for_config_changes replay.keeps_list_and_watch
    replay.keeps_plugin_request local_io_keeps)

text \<open>
  C1: Whatever tasks of Agents and of the Controller run at the same time on the nodes \<open>N\<close>, in
  whatever order the server serves their calls, whatever fails, and however stale the copies
  are that they write back: every Instance of the cluster keeps its name and stays well
  formed; its slots, its Configuration and its sharing are the ones \<open>K\<close> has for its name,
  which only the device plugins that create it have to agree on; and its nodes and the owners
  of its slots are nodes of the cluster (or nobody).
\<close>

theorem cluster_invariant:
  assumes "\<forall>i. cluster_task g K N (tasks i)" "store_ok K N st"
    and "(pool_step tasks init)\<^sup>*\<^sup>* (st, \<lambda>_. []) (st', had)"
  shows "store_ok K N st'"
  using pool_invariant [OF _ assms(3,2)] assms(1) by (auto simp: pool_ok_def intro: cluster_task_keeps)

text \<open>The kubelets of two nodes allocate the same free slot at the same time.\<close>

lemma codec_only_runs [simp]: "only_runs (codec_server dec enc)"
  unfolding only_runs_def codec_server_def by (auto intro!: keeps_rules split: option.split)

lemma wire_only_runs: "grpc_only_runs wire_grpc"
  by (simp add: grpc_only_runs_def wire_grpc_def)

definition claiming :: "bool \<Rightarrow> (agent_cluster task_state, unit) state" where
  "claiming b = plugin_request wire_grpc (local_dps agent_rt) task_kube (\<lambda>s. local_io (return 0))
     (sample_dps\<lparr>dps_node_name := if b then ''node-a'' else ''node-b''\<rparr>)
     \<lparr>uri_path = ''/v1beta1.DevicePlugin/Allocate'', request_body = WRequests [\<lparr>devices_i_ds = [''cam-0'']\<rparr>]\<rparr>"

definition claimed_by :: "string \<Rightarrow> Instance" where
  "claimed_by node = sample_instance\<lparr>device_usage := [(''cam-0'', node), (''cam-1'', ''node-a'')]\<rparr>"

lemma claiming_next:
  "next_call (claiming b) sample_agent [] = Some (EvFindInstance ''cam'' ''ns'' (Err (KubeError ''no answer yet'')))"
  by (cases b) code_simp+

lemma claiming_next_update:
  "next_call (claiming b) sample_agent [EvFindInstance ''cam'' ''ns'' (Ok sample_object)] =
     Some (EvUpdateInstance (claimed_by (if b then ''node-a'' else ''node-b'')) ''cam'' ''ns'' (Err (KubeError ''no answer yet'')))"
  by (cases b) code_simp+

definition sample_slots :: "string \<times> string \<Rightarrow> identity" where
  "sample_slots k = \<lparr>id_slots = if k = (''cam'', ''ns'') then {''cam-0'', ''cam-1''} else {},
     id_configuration = ''cfg'', id_shared = True\<rparr>"

definition sample_store :: "string \<Rightarrow> inst_store" where
  "sample_store node = [(''cam'', ''ns'') \<mapsto> sample_object\<lparr>spec := claimed_by node\<rparr>]"

lemma sample_object_spec: "spec sample_object = claimed_by ''''" "stored_as sample_object ''cam'' ''ns''"
  by code_simp+

lemma sample_store_patch: "patched (claimed_by node) ''cam'' ''ns'' (sample_store old) (sample_store node)"
proof -
  have "merge_instance (claimed_by old) (claimed_by node) = claimed_by node"
    by (simp add: merge_instance_def claimed_by_def sample_instance_def)
  then show ?thesis using sample_object_spec(2)
    by (auto simp: patched_def sample_store_def stored_as_def)
qed

lemma claiming_run:
  "\<exists>had. (pool_step claiming (\<lambda>_. sample_agent))\<^sup>*\<^sup>* (sample_store '''', \<lambda>_. []) (sample_store ''node-b'', had)
     \<and> (\<forall>b. had b = [EvFindInstance ''cam'' ''ns'' (Ok sample_object),
          EvUpdateInstance (claimed_by (if b then ''node-a'' else ''node-b'')) ''cam'' ''ns'' (Ok ())])"
proof -
  let ?find = "EvFindInstance ''cam'' ''ns'' (Ok sample_object)"
  let ?update = "\<lambda>b. EvUpdateInstance (claimed_by (if b then ''node-a'' else ''node-b'')) ''cam'' ''ns'' (Ok ())"
  let ?step = "pool_step claiming (\<lambda>_. sample_agent)"
  have "sample_object\<lparr>spec := spec sample_object\<rparr> = sample_object" by (cases sample_object) simp
  then have "sample_object\<lparr>spec := claimed_by ''''\<rparr> = sample_object" by (simp only: sample_object_spec)
  then have st: "sample_store '''' (''cam'', ''ns'') = Some sample_object" by (simp add: sample_store_def)
  have find: "?step (sample_store '''', had) (sample_store '''', had(b := [?find]))" if "had b = []" for b had
    using pool_step.call [of claiming b "\<lambda>_. sample_agent" had _ ?find "sample_store ''''"] that st by (simp add: claiming_next)
  have update: "?step (sample_store old, had) (sample_store (if b then ''node-a'' else ''node-b''), had(b := [?find, ?update b]))"
    if "had b = [?find]" for b had old
    using pool_step.call [of claiming b "\<lambda>_. sample_agent" had _ "?update b" "sample_store old"] that
      sample_store_patch [of "if b then ''node-a'' else ''node-b''" old]
    by (simp add: claiming_next_update write_effect_def)
  let ?h1 = "(\<lambda>_. [])(True := [?find])" let ?h2 = "?h1(False := [?find])"
  let ?h3 = "?h2(True := [?find, ?update True])" let ?h4 = "?h3(False := [?find, ?update False])"
  have "?step (sample_store '''', \<lambda>_. []) (sample_store '''', ?h1)" "?step (sample_store '''', ?h1) (sample_store '''', ?h2)"
    "?step (sample_store '''', ?h2) (sample_store ''node-a'', ?h3)" "?step (sample_store ''node-a'', ?h3) (sample_store ''node-b'', ?h4)"
    using find [of "\<lambda>_. []" True] find [of ?h1 False] update [of ?h2 True "''''"] update [of ?h3 False "''node-a''"] by simp_all
  then have "?step\<^sup>*\<^sup>* (sample_store '''', \<lambda>_. []) (sample_store ''node-b'', ?h4)"
    by (meson rtranclp.rtrancl_into_rtrancl rtranclp.rtrancl_refl)
  then show ?thesis by (intro exI [of _ ?h4]) simp
qed

lemma claiming_tasks: "cluster_task wire_grpc sample_slots {''node-a'', ''node-b''} (claiming b)"
proof -
  have "slot_name ''cam'' 0 = ''cam-0''" "slot_name ''cam'' (Suc 0) = ''cam-1''" by code_simp+
  then have "plugin_ok sample_slots {''node-a'', ''node-b''} (sample_dps\<lparr>dps_node_name := if b then ''node-a'' else ''node-b''\<rparr>)"
    by (auto simp: plugin_ok_def sample_slots_def sample_dps_def sample_configuration_def lessThan_Suc numeral_2_eq_2)
  then show ?thesis unfolding claiming_def by (intro cluster_task.plugin_served wire_only_runs)
qed

theorem cluster_invariant_witness:
  "\<exists>had. (pool_step claiming (\<lambda>_. sample_agent))\<^sup>*\<^sup>* (sample_store '''', \<lambda>_. []) (sample_store ''node-b'', had)
     \<and> length (had True) = 2 \<and> length (had False) = 2
     \<and> store_ok sample_slots {''node-a'', ''node-b''} (sample_store ''node-b'')"
proof -
  obtain had where run: "(pool_step claiming (\<lambda>_. sample_agent))\<^sup>*\<^sup>* (sample_store '''', \<lambda>_. []) (sample_store ''node-b'', had)"
    and had: "length (had True) = 2" "length (had False) = 2" using claiming_run by force
  have "store_ok sample_slots {''node-a'', ''node-b''} (sample_store '''')"
    by (auto simp: store_ok_def sample_store_def object_ok_def instance_ok_def claimed_by_def sample_instance_def
        sample_slots_def stored_as_def sample_object_spec(2) [unfolded stored_as_def] instance_wf_def ran_subset split: if_splits)
  from cluster_invariant [OF _ this run] claiming_tasks run had show ?thesis by blast
qed

end
