(* ===== verification/Stop_Handshake.thy ===== *)
theory Stop_Handshake
  imports Cluster
begin

text \<open>
  The handshake between the two tasks that take part when a Configuration is deleted
  (\<open>agent/src/util/config_action.rs\<close>): \<open>handle_config_delete\<close> sends a stop message, subscribes to the
  channel on which discovery will report, waits for the report and then takes the
  Configuration down; \<open>do_periodic_discovery\<close> polls for the stop message after each round and
  reports before it ends. As in \<open>Kube_Tasks\<close>, a task is replayed with the answers that its
  operations on the channels have had so far, which determines its next operation; a step is
  the next operation of one of the tasks with the answer that the channels of tokio give.
\<close>

section \<open>Replaying a task\<close>

datatype chan_call = SendStop | Subscribe | AwaitReport | TakeDown | PollStop | SendReport

datatype chan_answer = Done "(unit, error) result" | Told bool

record chan_tape =
  tape_answers :: "chan_answer list"
  tape_call :: "chan_call option"

abbreviation tape :: "'x chan_tape_scheme \<Rightarrow> chan_answer list \<times> chan_call option" where
  "tape w \<equiv> (tape_answers w, tape_call w)"

fun outcome :: "chan_answer \<Rightarrow> (unit, error) result" where
  "outcome (Done r) = r"
| "outcome (Told b) = Ok ()"

fun told :: "chan_answer \<Rightarrow> bool" where
  "told (Told b) = b"
| "told (Done r) = True"

text \<open>The first operation without an answer is noted; what the task does after it does not count.\<close>

definition ask :: "chan_call \<Rightarrow> 'a \<Rightarrow> (chan_answer \<Rightarrow> 'a) \<Rightarrow> ('x chan_tape_scheme, 'a) state" where
  "ask c dflt f = State (\<lambda>w. case tape_call w of
       Some _ \<Rightarrow> (dflt, w)
     | None \<Rightarrow> (case tape_answers w of
           [] \<Rightarrow> (dflt, w\<lparr>tape_call := Some c\<rparr>)
         | a # as \<Rightarrow> (f a, w\<lparr>tape_answers := as\<rparr>)))"

text \<open>
  A runtime whose operations on the two channels, and the removal of the Configuration from
  the map, are replayed; the rest of it is arbitrary.
\<close>

definition replayed :: "'x chan_tape_scheme config_rt \<Rightarrow> 'x chan_tape_scheme config_rt" where
  "replayed rt = rt\<lparr>stop_send := \<lambda>_. ask SendStop (Ok ()) outcome,
     finished_subscribe := \<lambda>_. ask Subscribe 0 (\<lambda>_. 0),
     finished_recv := \<lambda>_. ask AwaitReport (Ok ()) outcome,
     store_configs := \<lambda>_. ask TakeDown () (\<lambda>_. ()),
     stop_recv := \<lambda>_ _. ask PollStop True told,
     finished_send := \<lambda>_. ask SendReport (Ok ()) outcome\<rparr>"

lemma replayed_sel [simp]:
  "lock_configs (replayed rt) = lock_configs rt" "map_rt (replayed rt) = map_rt rt" "rt_now (replayed rt) = rt_now rt"
  "start_timer (replayed rt) = start_timer rt" "observe_duration (replayed rt) = observe_duration rt"
  "instance_count_set (replayed rt) = instance_count_set rt"
  "stop_send (replayed rt) s = ask SendStop (Ok ()) outcome"
  "finished_subscribe (replayed rt) s = ask Subscribe 0 (\<lambda>_. 0)"
  "finished_recv (replayed rt) h = ask AwaitReport (Ok ()) outcome"
  "store_configs (replayed rt) c = ask TakeDown () (\<lambda>_. ())"
  "stop_recv (replayed rt) s d = ask PollStop True told"
  "finished_send (replayed rt) s = ask SendReport (Ok ()) outcome"
  by (simp_all add: replayed_def)

definition at_start :: "'x chan_tape_scheme \<Rightarrow> chan_answer list \<Rightarrow> 'x chan_tape_scheme" where
  "at_start w as = w\<lparr>tape_answers := as, tape_call := None\<rparr>"

text \<open>
  The next operation of the deleting and of the discovering task (\<open>None\<close>: it has ended, or is
  past the handshake). With \<open>n\<close> answers discovery cannot get beyond its round \<open>n + 1\<close>.
\<close>

definition deleting :: "'x chan_tape_scheme config_rt \<Rightarrow> 'x chan_tape_scheme kube_interface \<Rightarrow> KubeAkriConfig
    \<Rightarrow> 'x chan_tape_scheme \<Rightarrow> chan_answer list \<Rightarrow> chan_call option" where
  "deleting rt ki config w as =
     tape_call (snd (run_state (handle_config_delete (replayed rt) ki config) (at_start w as)))"

definition discovering :: "(ProtocolHandler \<Rightarrow> ('x chan_tape_scheme discovery_handler, error) result)
    \<Rightarrow> 'x chan_tape_scheme config_rt \<Rightarrow> 'x chan_tape_scheme serve_rt \<Rightarrow> 'x chan_tape_scheme kube_interface
    \<Rightarrow> PeriodicDiscovery \<Rightarrow> sender \<Rightarrow> sender \<Rightarrow> string \<Rightarrow> 'x chan_tape_scheme \<Rightarrow> chan_answer list \<Rightarrow> chan_call option" where
  "discovering gh rt os ki self stop finished path w as =
     tape_call (snd (run_state (do_periodic_discovery gh (replayed rt) os ki self stop finished path (Suc (length as)))
       (at_start w as)))"

text \<open>Everything else that the tasks call leaves the tape alone.\<close>

locale off_channel =
  fixes rt :: "'x chan_tape_scheme config_rt" and os :: "'x chan_tape_scheme serve_rt"
    and ki :: "'x chan_tape_scheme kube_interface"
    and gh :: "ProtocolHandler \<Rightarrow> ('x chan_tape_scheme discovery_handler, error) result"
  assumes rt_off: "config_rt_keeps (\<lambda>w. tape w = t) rt"
    and os_off: "serve_rt_keeps (\<lambda>w. tape w = t) os"
    and find_off: "keeps (\<lambda>w. tape w = t) (find_instance ki nm ns)"
    and delete_off: "keeps (\<lambda>w. tape w = t) (delete_instance ki nm ns)"
    and discover_off: "gh p = Ok dh \<Longrightarrow> keeps (\<lambda>w. tape w = t) (discover dh)"

text \<open>What an operation does to the tape.\<close>

fun consume :: "chan_call \<Rightarrow> chan_answer list \<times> chan_call option \<Rightarrow> chan_answer list \<times> chan_call option" where
  "consume c (as, Some c') = (as, Some c')"
| "consume c ([], None) = ([], Some c)"
| "consume c (a # as, None) = (as, None)"

fun reply :: "'a \<Rightarrow> (chan_answer \<Rightarrow> 'a) \<Rightarrow> chan_answer list \<times> chan_call option \<Rightarrow> 'a" where
  "reply d f (a # as, None) = f a"
| "reply d f _ = d"

lemma wp_ask: "wp (ask c d f) (\<lambda>r w'. r = reply d f (tape w) \<and> tape w' = consume c (tape w)) w"
  by (cases "tape_call w"; cases "tape_answers w") (auto simp: ask_def wp_def)

context off_channel
begin

lemma keeps_delete: "keeps (\<lambda>w. tape w = t) (try_delete_instance ki nm ns)"
  unfolding try_delete_instance_def by (intro keeps_bind delete_off) (auto intro!: keeps_rules find_off split: result.split)

lemma keeps_loop_work:
  "keeps (\<lambda>w. tape w = t) (update_connectivity_status (map_rt rt h) (rt_now rt) ki ns vis sh)"
  "keeps (\<lambda>w. tape w = t) (build_device_plugins os n self sh path ds)"
  "keeps (\<lambda>w. tape w = t) (delete_instances (map_rt rt h) ki ns es m)"
proof -
  note rt = config_rt_keepsD [OF rt_off, of t]
  have "keeps (\<lambda>w. tape w = t) (update_entry (map_rt rt h) (rt_now rt) ki ns vis sh e)" for e
    unfolding update_entry_def terminate_device_plugin_service_def Let_def
    by (auto intro!: keeps_bind keeps_try_then keeps_unwrapped keeps_return rt dps_rt_keepsD keeps_delete
        split: ConnectivityStatus.split prod.split)
  then show "keeps (\<lambda>w. tape w = t) (update_connectivity_status (map_rt rt h) (rt_now rt) ki ns vis sh)"
    unfolding update_connectivity_status_def Let_def
    by (intro keeps_bind keeps_try_then keeps_try_for keeps_return rt dps_rt_keepsD)
  show "keeps (\<lambda>w. tape w = t) (build_device_plugins os n self sh path ds)"
    by (rule keeps_build_device_plugins [OF os_off])
  show "keeps (\<lambda>w. tape w = t) (delete_instances (map_rt rt h) ki ns es m)"
    by (induction es arbitrary: m)
       (auto simp: Let_def intro!: keeps_try_then keeps_bind keeps_unwrapped keeps_return keeps_delete rt dps_rt_keepsD)
qed

end

section \<open>The deleting task\<close>

definition await_report :: "'w config_rt \<Rightarrow> KubeAkriConfig \<Rightarrow> ('w, unit) io" where
  "await_report rt config = do {
     configs \<leftarrow> lock_configs rt;
     try_then (return (unwrap (map_of configs (m_name (metadata config))))) (\<lambda>info. do {
       receiver \<leftarrow> finished_subscribe rt (finished_discovery_sender info);
       unwrapped (finished_recv rt receiver)
     })
   }"

definition take_down :: "'w config_rt \<Rightarrow> 'w kube_interface \<Rightarrow> KubeAkriConfig \<Rightarrow> ('w, unit) io" where
  "take_down rt ki config = do {
     configs \<leftarrow> lock_configs rt;
     try_then (return (unwrap (map_of configs (m_name (metadata config))))) (\<lambda>info. do {
       _ \<leftarrow> store_configs rt (hm_remove (m_name (metadata config)) configs);
       let irt = map_rt rt (ci_instance_map info);
       m \<leftarrow> lock_map irt;
       try_then (return (unwrap (m_namespace (metadata config)))) (\<lambda>namespace.
         delete_instances irt ki namespace m m)
     })
   }"

lemma handle_config_delete_parts: "handle_config_delete rt ki config = do {
     configs \<leftarrow> lock_configs rt;
     try_then (return (unwrap (map_of configs (m_name (metadata config))))) (\<lambda>info. do {
       sent \<leftarrow> stop_send rt (stop_discovery_sender info);
       try_then (case sent of Ok _ \<Rightarrow> await_report rt config | Err _ \<Rightarrow> return (Ok ()) | Panic p \<Rightarrow> return (Panic p))
         (\<lambda>_. take_down rt ki config)
     })
   }"
  unfolding handle_config_delete_def await_report_def take_down_def by (rule refl)

text \<open>The next operation by the answers so far, for a Configuration that is on the map.\<close>

fun deleting_next :: "chan_answer list \<Rightarrow> chan_call option" where
  "deleting_next [] = Some SendStop"
| "deleting_next [Done (Ok _)] = Some Subscribe"
| "deleting_next [Done (Ok _), _] = Some AwaitReport"
| "deleting_next [Done (Ok _), _, Done (Ok _)] = Some TakeDown"
| "deleting_next [Done (Err _)] = Some TakeDown"
| "deleting_next _ = None"

context off_channel
begin

lemma wp_tape: "keeps (\<lambda>w. tape w = tape w0) m \<Longrightarrow> wp m (\<lambda>_ w'. tape w' = tape w0) w0"
  by (rule keepsD) simp_all

lemma wp_take_down:
  assumes "\<And>w. wp (lock_configs rt) (\<lambda>c _. map_of c (m_name (metadata config)) \<noteq> None) w"
  shows "wp (take_down (replayed rt) ki config) (\<lambda>_ w'. tape w' = consume TakeDown (tape w)) w"
proof -
  have lock: "wp (lock_configs rt) (\<lambda>c w'. map_of c (m_name (metadata config)) \<noteq> None \<and> tape w' = tape w) w"
    unfolding wp_conj by (intro conjI assms wp_tape config_rt_keepsD(1) rt_off)
  have rest: "wp (do { m \<leftarrow> lock_map (map_rt rt h);
      try_then (return (unwrap (m_namespace (metadata config)))) (\<lambda>namespace. delete_instances (map_rt rt h) ki namespace m m) })
      (\<lambda>_ w'. tape w' = tape w1) w1" for h w1
    by (intro wp_tape keeps_bind keeps_try_then keeps_return keeps_loop_work dps_rt_keepsD config_rt_keepsD(3) rt_off)
  have body: "wp (do { _ \<leftarrow> ask TakeDown () (\<lambda>_. ()); m \<leftarrow> lock_map (map_rt rt h);
      try_then (return (unwrap (m_namespace (metadata config)))) (\<lambda>namespace. delete_instances (map_rt rt h) ki namespace m m) })
      (\<lambda>_ w'. tape w' = consume TakeDown (tape w1)) w1" for h w1
    unfolding wp_bind [of "ask _ _ _"] by (rule wp_mono [OF wp_ask], rule wp_mono [OF rest]) simp
  show ?thesis unfolding take_down_def wp_bind [of "lock_configs _"] Let_def replayed_sel
    by (rule wp_mono [OF lock]) (auto simp del: wp_bind intro!: wp_mono [OF body])
qed

lemma wp_await_report:
  assumes "\<And>w. wp (lock_configs rt) (\<lambda>c _. map_of c (m_name (metadata config)) \<noteq> None) w"
  shows "wp (await_report (replayed rt) config) (\<lambda>r w'. r = unwrap_ok (reply (Ok ()) outcome (consume Subscribe (tape w)))
      \<and> tape w' = consume AwaitReport (consume Subscribe (tape w))) w"
proof -
  have lock: "wp (lock_configs rt) (\<lambda>c w'. map_of c (m_name (metadata config)) \<noteq> None \<and> tape w' = tape w) w"
    unfolding wp_conj by (intro conjI assms wp_tape config_rt_keepsD(1) rt_off)
  show ?thesis unfolding await_report_def wp_bind replayed_sel
    by (rule wp_mono [OF lock]) (auto simp: wp_unwrapped intro!: wp_mono [OF wp_ask])
qed

lemma deleting_calls:
  assumes entry: "\<And>w. wp (lock_configs rt) (\<lambda>c _. map_of c (m_name (metadata config)) \<noteq> None) w"
    and shape: "as \<in> {[], [Done (Ok ())], [Done (Ok ()), b], [Done (Ok ()), b, Done (Ok ())], [Done (Ok ()), b, Done (Ok ()), c],
      [Done (Err e)], [Done (Err e), c]}"
  shows "deleting rt ki config w as = deleting_next as"
proof -
  let ?w = "at_start w as"
  have lock: "wp (lock_configs rt) (\<lambda>cs w'. map_of cs (m_name (metadata config)) \<noteq> None \<and> tape w' = tape ?w) ?w"
    unfolding wp_conj by (intro conjI entry wp_tape config_rt_keepsD(1) rt_off)
  have start: "tape ?w = (as, None)" by (simp add: at_start_def)
  have down: "wp (take_down (replayed rt) ki config) (\<lambda>_ w'. tape_call w' = x) w1"
    if "snd (consume TakeDown (tape w1)) = x" for w1 x
    by (rule wp_mono [OF wp_take_down [OF entry]]) (metis snd_conv that)
  have sent: "wp (try_then (case r of Ok _ \<Rightarrow> await_report (replayed rt) config | Err _ \<Rightarrow> return (Ok ())
        | Panic p \<Rightarrow> return (Panic p)) (\<lambda>_. take_down (replayed rt) ki config)) (\<lambda>_ w'. tape_call w' = deleting_next as) w1"
    if "r = reply (Ok ()) outcome (as, None)" "tape w1 = consume SendStop (as, None)" for r w1
    using shape that unfolding wp_try_then
    by (elim insertE emptyE)
       (auto intro!: wp_mono [OF wp_await_report [OF entry]] down)
  have step: "wp (do { sent \<leftarrow> ask SendStop (Ok ()) outcome;
      try_then (case sent of Ok _ \<Rightarrow> await_report (replayed rt) config | Err _ \<Rightarrow> return (Ok ())
        | Panic p \<Rightarrow> return (Panic p)) (\<lambda>_. take_down (replayed rt) ki config) })
      (\<lambda>_ w'. tape_call w' = deleting_next as) w1" if "tape w1 = (as, None)" for w1
    unfolding wp_bind [of "ask _ _ _"] by (rule wp_mono [OF wp_ask], rule sent) (use that in simp_all)
  have "wp (handle_config_delete (replayed rt) ki config) (\<lambda>_ w'. tape_call w' = deleting_next as) ?w"
    unfolding handle_config_delete_parts wp_bind [of "lock_configs _"] replayed_sel
  proof (rule wp_mono [OF lock], goal_cases)
    case (1 cs w1)
    then obtain info where "map_of cs (m_name (metadata config)) = Some info" and w1: "tape w1 = (as, None)"
      unfolding start by blast
    with step [OF w1] show ?case by (simp del: wp_bind)
  qed
  then show ?thesis by (simp add: deleting_def wp_def split_beta)
qed

end

section \<open>The discovering task\<close>

text \<open>
  Discovery after some polls without a stop message and the answers \<open>us\<close> after that: it polls
  again unless a round has failed; after the stop message it reports, and then it has ended.
\<close>

definition discovery_next :: "chan_answer list \<Rightarrow> chan_call option" where
  "discovery_next us = (case us of [] \<Rightarrow> Some PollStop | [_] \<Rightarrow> Some SendReport | _ \<Rightarrow> None)"

context off_channel
begin

lemma wp_discovery_round:
  assumes disc: "\<And>t. keeps (\<lambda>w. tape w = t) (discover proto)"
    and fails: "\<And>r w'. tape w' = tape w \<Longrightarrow> \<not> is_ok r \<Longrightarrow> Q r w'"
    and poll: "\<And>w'. tape w' = tape w \<Longrightarrow> wp (do {
        stopped \<leftarrow> ask PollStop True told;
        if stopped then try_then (unwrapped (ask SendReport (Ok ()) outcome)) (\<lambda>_. return (Ok True))
        else periodic_discovery_loop (replayed rt) os ki self proto sh stop fin path n }) Q w'"
  shows "wp (periodic_discovery_loop (replayed rt) os ki self proto sh stop fin path (Suc n)) Q w"
proof -
  let ?k = "\<lambda>w'. tape w' = tape w"
  have bad: "Q (Err e) w'" "Q (Panic p) w'" if "tape w' = tape w" for e p w' using fails that by simp_all
  have keep: "wp m (\<lambda>_. ?k) w'" if "\<And>t. keeps (\<lambda>w. tape w = t) m" "?k w'" for m :: "('a chan_tape_scheme, 'c) state" and w'
    using keepsD [OF that(1) [of "tape w"]] that(2) .
  note rt = config_rt_keepsD [OF rt_off]
  have plugins: "wp (try_then (build_device_plugins os 11 self sh path ds) (\<lambda>_. do {
        stopped \<leftarrow> ask PollStop True told;
        if stopped then try_then (unwrapped (ask SendReport (Ok ()) outcome)) (\<lambda>_. return (Ok True))
        else periodic_discovery_loop (replayed rt) os ki self proto sh stop fin path n })) Q w'" if "?k w'" for ds w'
    unfolding wp_try_then
    by (rule wp_mono [OF keep [OF keeps_loop_work(2) that]]) (auto simp del: wp_bind intro: bad poll split: result.split)
  have status: "wp (try_then (update_connectivity_status (map_rt rt (pd_instance_map self)) (rt_now rt) ki
        (pd_config_namespace self) vis sh) (\<lambda>ds. try_then (build_device_plugins os 11 self sh path ds) (\<lambda>_. do {
        stopped \<leftarrow> ask PollStop True told;
        if stopped then try_then (unwrapped (ask SendReport (Ok ()) outcome)) (\<lambda>_. return (Ok True))
        else periodic_discovery_loop (replayed rt) os ki self proto sh stop fin path n }))) Q w'" if "?k w'" for vis w'
    unfolding wp_try_then [of "update_connectivity_status _ _ _ _ _ _"]
    by (rule wp_mono [OF keep [OF keeps_loop_work(1) that]])
       (auto simp del: wp_bind wp_try_then intro: bad plugins split: result.split)
  show ?thesis
    unfolding periodic_discovery_loop.simps replayed_sel wp_bind [of "start_timer _ _"] wp_try_then [of "discover _"]
    by (rule wp_mono [OF keep [OF rt(15)]], simp, rule wp_mono [OF keep [OF disc]], assumption)
       (auto simp: Let_def simp del: wp_try_then split: result.split
        intro!: bad status wp_mono [OF keep [OF rt(16)]] wp_mono [OF keep [OF rt(17)]])
qed

lemma wp_discovery_loop:
  assumes disc: "\<And>t. keeps (\<lambda>w. tape w = t) (discover proto)"
    and us: "us \<in> {[], [Told True], [Told True, Done r]}"
  shows "tape w = (replicate k (Told False) @ us, None) \<Longrightarrow> k < n \<Longrightarrow>
    wp (periodic_discovery_loop (replayed rt) os ki self proto sh stop fin path n)
      (\<lambda>r' w'. tape_call w' = discovery_next us \<or> tape_call w' = None \<and> \<not> is_ok r') w"
proof (induction k arbitrary: n w)
  case 0
  then obtain m where n: "n = Suc m" by (cases n) auto
  show ?case unfolding n
    by (rule wp_discovery_round [OF disc])
       (use us 0 in \<open>auto simp: wp_unwrapped discovery_next_def intro!: wp_mono [OF wp_ask] split: result.split\<close>)
next
  case (Suc k)
  then obtain m where n: "n = Suc m" "k < m" by (cases n) auto
  show ?case unfolding n(1)
    by (rule wp_discovery_round [OF disc])
       (use Suc.prems Suc.IH [OF _ n(2)] in \<open>auto intro!: wp_mono [OF wp_ask]\<close>)
qed

lemma discovering_calls:
  assumes "us \<in> {[], [Told True], [Told True, Done r]}"
  shows "discovering gh rt os ki self stop fin path w (replicate k (Told False) @ us) \<in> {discovery_next us, None}"
proof -
  let ?as = "replicate k (Told False) @ us"
  have start: "tape (at_start w ?as) = (?as, None)" "k < Suc (length ?as)" by (simp_all add: at_start_def)
  have loop: "wp (periodic_discovery_loop (replayed rt) os ki self proto sh stop fin path (Suc (length ?as)))
      (\<lambda>_ w'. tape_call w' \<in> {discovery_next us, None}) (at_start w ?as)" if "gh p = Ok proto" for p proto sh
    by (rule wp_mono [OF wp_discovery_loop [OF discover_off [OF that] assms start]]) auto
  have "wp (do_periodic_discovery gh (replayed rt) os ki self stop fin path (Suc (length ?as)))
      (\<lambda>_ w'. tape_call w' \<in> {discovery_next us, None}) (at_start w ?as)"
    unfolding do_periodic_discovery_def
    by (cases "gh (pd_config_protocol self)"; simp add: at_start_def)
       (use loop in \<open>auto simp: at_start_def split: result.split\<close>)
  then show ?thesis by (simp add: discovering_def wp_def split_beta)
qed

end

section \<open>The handshake\<close>

text \<open>
  The answers that both tasks have had, and the state of the channels: whether the stop message
  is queued, whether discovery still holds the receiver of that channel, and whether the
  deleting task has subscribed to the channel for the report and has a report waiting. The
  sender of a report is also kept on the Agent's map, so that a waiting subscriber never sees
  the channel closed.
\<close>

record handshake =
  del_log :: "chan_answer list"
  disc_log :: "chan_answer list"
  stop_queued :: bool
  receiver_alive :: bool
  subscribed :: bool
  reported :: bool

definition handshake_init :: handshake where
  "handshake_init = \<lparr>del_log = [], disc_log = [], stop_queued = False, receiver_alive = True, subscribed = False, reported = False\<rparr>"

text \<open>
  The channels of tokio: a message cannot be sent when the receiver is gone; a poll takes the
  message that is queued, or times out; a broadcast reaches the current subscribers only and
  fails when there is none; when the discovering task ends, its receiver is dropped.
\<close>

inductive handshake_step :: "(chan_answer list \<Rightarrow> chan_call option) \<Rightarrow> (chan_answer list \<Rightarrow> chan_call option)
    \<Rightarrow> handshake \<Rightarrow> handshake \<Rightarrow> bool" for D P where
  send_stop: "D (del_log s) = Some SendStop \<Longrightarrow> receiver_alive s \<Longrightarrow>
    handshake_step D P s (s\<lparr>del_log := del_log s @ [Done (Ok ())], stop_queued := True\<rparr>)"
| send_refused: "D (del_log s) = Some SendStop \<Longrightarrow> \<not> receiver_alive s \<Longrightarrow>
    handshake_step D P s (s\<lparr>del_log := del_log s @ [Done (Err (Msg ''channel closed''))]\<rparr>)"
| subscribe: "D (del_log s) = Some Subscribe \<Longrightarrow>
    handshake_step D P s (s\<lparr>del_log := del_log s @ [Told True], subscribed := True\<rparr>)"
| receive_report: "D (del_log s) = Some AwaitReport \<Longrightarrow> reported s \<Longrightarrow>
    handshake_step D P s (s\<lparr>del_log := del_log s @ [Done (Ok ())]\<rparr>)"
| take_down: "D (del_log s) = Some TakeDown \<Longrightarrow>
    handshake_step D P s (s\<lparr>del_log := del_log s @ [Done (Ok ())]\<rparr>)"
| poll: "P (disc_log s) = Some PollStop \<Longrightarrow>
    handshake_step D P s (s\<lparr>disc_log := disc_log s @ [Told (stop_queued s)], stop_queued := False\<rparr>)"
| report: "P (disc_log s) = Some SendReport \<Longrightarrow> subscribed s \<Longrightarrow>
    handshake_step D P s (s\<lparr>disc_log := disc_log s @ [Done (Ok ())], reported := True\<rparr>)"
| report_fails: "P (disc_log s) = Some SendReport \<Longrightarrow> \<not> subscribed s \<Longrightarrow>
    handshake_step D P s (s\<lparr>disc_log := disc_log s @ [Done (Err (Msg ''no receivers''))]\<rparr>)"
| task_ends: "P (disc_log s) = None \<Longrightarrow> receiver_alive s \<Longrightarrow>
    handshake_step D P s (s\<lparr>receiver_alive := False\<rparr>)"

inductive_cases handshake_stepE: "handshake_step D P s s'"

text \<open>The answers that the two tasks can have had.\<close>

abbreviation closed :: chan_answer where "closed \<equiv> Done (Err (Msg ''channel closed''))"
abbreviation fine :: chan_answer where "fine \<equiv> Done (Ok ())"

definition del_logs :: "chan_answer list set" where
  "del_logs = {[], [fine], [fine, Told True], [fine, Told True, fine], [fine, Told True, fine, fine], [closed], [closed, fine]}"

definition disc_logs :: "chan_answer list set" where
  "disc_logs = {replicate k (Told False) @ us |k us r. us \<in> {[], [Told True], [Told True, Done r]}}"

definition handshake_inv :: "(chan_answer list \<Rightarrow> chan_call option) \<Rightarrow> handshake \<Rightarrow> bool" where
  "handshake_inv P s \<longleftrightarrow> del_log s \<in> del_logs \<and> disc_log s \<in> disc_logs
     \<and> (reported s \<longrightarrow> P (disc_log s) = None) \<and> (\<not> receiver_alive s \<longrightarrow> P (disc_log s) = None)
     \<and> (del_log s \<in> {[fine, Told True, fine], [fine, Told True, fine, fine]} \<longrightarrow> reported s)
     \<and> (del_log s \<in> {[closed], [closed, fine]} \<longrightarrow> \<not> receiver_alive s)"

lemma disc_logsI: "us \<in> {[], [Told True], [Told True, Done r]} \<Longrightarrow> replicate k (Told False) @ us \<in> disc_logs"
  unfolding disc_logs_def by blast

lemma disc_logs_step:
  assumes "\<And>k us r. us \<in> {[], [Told True], [Told True, Done r]} \<Longrightarrow> P (replicate k (Told False) @ us) \<in> {discovery_next us, None}"
    and "as \<in> disc_logs"
  shows "P as = Some PollStop \<Longrightarrow> as @ [Told b] \<in> disc_logs"
    and "P as = Some SendReport \<Longrightarrow> as @ [Done r] \<in> disc_logs \<and> P (as @ [Done r]) = None"
    and "P as \<in> {Some PollStop, Some SendReport, None}"
proof -
  from assms(2) obtain k us q where as: "as = replicate k (Told False) @ us" "us \<in> {[], [Told True], [Told True, Done q]}"
    by (auto simp: disc_logs_def)
  note P = assms(1) [OF as(2), of k]
  show "P as \<in> {Some PollStop, Some SendReport, None}"
    using P as by (auto simp: discovery_next_def)
  show "as @ [Told b] \<in> disc_logs" if "P as = Some PollStop"
  proof -
    have us: "us = []" using P as that by (auto simp: discovery_next_def)
    have "replicate k (Told False) @ [Told False] = replicate (Suc k) (Told False) @ []"
      by (simp add: replicate_append_same)
    then show ?thesis using disc_logsI [of "[Told True]" _ k] disc_logsI [of "[]" _ "Suc k"] us as by (cases b) simp_all
  qed
  show "as @ [Done r] \<in> disc_logs \<and> P (as @ [Done r]) = None" if "P as = Some SendReport"
  proof -
    have us: "us = [Told True]" using P as that by (auto simp: discovery_next_def)
    then have "P (as @ [Done r]) = None" using assms(1) [of "[Told True, Done r]" r k] as by (simp add: discovery_next_def)
    moreover have "as @ [Done r] \<in> disc_logs" using us as by (auto simp: disc_logs_def)
    ultimately show ?thesis by simp
  qed
qed

text \<open>
  What is known of the two tasks: the lemmas above, stated for the functions that give their
  next operations.
\<close>

locale handshake_tasks =
  fixes D P :: "chan_answer list \<Rightarrow> chan_call option"
  assumes deletes: "as \<in> del_logs \<Longrightarrow> D as = deleting_next as"
    and discovers: "us \<in> {[], [Told True], [Told True, Done r]} \<Longrightarrow> P (replicate k (Told False) @ us) \<in> {discovery_next us, None}"
begin

lemma disc_step:
  assumes "as \<in> disc_logs"
  shows "P as = Some PollStop \<Longrightarrow> as @ [Told b] \<in> disc_logs"
    and "P as = Some SendReport \<Longrightarrow> as @ [Done r] \<in> disc_logs" and "P as = Some SendReport \<Longrightarrow> P (as @ [Done r]) = None"
    and "P as \<in> {Some PollStop, Some SendReport, None}"
  using disc_logs_step [where P = P, OF discovers assms] by auto

lemma handshake_inv_step: "handshake_step D P s s' \<Longrightarrow> handshake_inv P s \<Longrightarrow> handshake_inv P s'"
  by (erule handshake_stepE) (auto simp: handshake_inv_def del_logs_def deletes disc_step)

lemma handshake_inv_reach: "(handshake_step D P)\<^sup>*\<^sup>* handshake_init s \<Longrightarrow> handshake_inv P s"
proof (induction rule: rtranclp_induct)
  case base
  show ?case using disc_logsI [of "[]" undefined 0] by (simp add: handshake_inv_def handshake_init_def del_logs_def)
qed (rule handshake_inv_step)

text \<open>Past the handshake: the Configuration is about to be, or has been, taken off the map.\<close>

lemma past_handshake: "handshake_inv P s \<Longrightarrow> D (del_log s) \<in> {Some TakeDown, None} \<Longrightarrow> P (disc_log s) = None"
  by (auto simp: handshake_inv_def del_logs_def deletes)

lemma waits_for_ever:
  assumes "(handshake_step D P)\<^sup>*\<^sup>* s s'" "D (del_log s) = Some AwaitReport" "P (disc_log s) = None" "\<not> reported s"
  shows "del_log s' = del_log s \<and> disc_log s' = disc_log s \<and> \<not> reported s'"
  using assms by (induction rule: rtranclp_induct) (auto elim!: handshake_stepE)

lemma handshake_stuck:
  assumes "handshake_inv P s"
  shows "(\<nexists>s'. handshake_step D P s s') \<longleftrightarrow> P (disc_log s) = None \<and> \<not> receiver_alive s
     \<and> (D (del_log s) = None \<or> D (del_log s) = Some AwaitReport \<and> \<not> reported s)"
proof -
  have p: "P (disc_log s) \<in> {Some PollStop, Some SendReport, None}"
    using disc_step(4) assms by (simp add: handshake_inv_def)
  have d: "D (del_log s) \<in> {Some SendStop, Some Subscribe, Some AwaitReport, Some TakeDown, None}"
    using assms by (auto simp: handshake_inv_def del_logs_def deletes)
  show ?thesis
  proof
    assume stuck: "\<nexists>s'. handshake_step D P s s'"
    have P: "P (disc_log s) = None"
      using stuck p handshake_step.poll [of P s D] handshake_step.report [of P s D] handshake_step.report_fails [of P s D]
      by (cases "subscribed s") auto
    moreover have "\<not> receiver_alive s" using stuck P handshake_step.task_ends [of P s D] by auto
    moreover have "D (del_log s) = None \<or> D (del_log s) = Some AwaitReport \<and> \<not> reported s"
      using stuck d handshake_step.send_stop [of D s P] handshake_step.send_refused [of D s P] handshake_step.subscribe [of D s P]
        handshake_step.receive_report [of D s P] handshake_step.take_down [of D s P] by (cases "receiver_alive s") auto
    ultimately show "P (disc_log s) = None \<and> \<not> receiver_alive s
       \<and> (D (del_log s) = None \<or> D (del_log s) = Some AwaitReport \<and> \<not> reported s)" by blast
  next
    assume "P (disc_log s) = None \<and> \<not> receiver_alive s
       \<and> (D (del_log s) = None \<or> D (del_log s) = Some AwaitReport \<and> \<not> reported s)"
    then show "\<nexists>s'. handshake_step D P s s'" by (auto elim!: handshake_stepE)
  qed
qed

end

text \<open>
  Deletion and discovery of one Configuration: it is on the Agent's map, from which only the
  deleting task removes it. \<open>w\<close> and \<open>w'\<close> are the worlds in which the two tasks are replayed.
\<close>

locale deletion = off_channel rt os ki gh
  for rt :: "'x chan_tape_scheme config_rt" and os ki gh +
  fixes config :: KubeAkriConfig and self :: PeriodicDiscovery and stop fin :: sender and path :: string
    and w w' :: "'x chan_tape_scheme"
  assumes on_map: "wp (lock_configs rt) (\<lambda>c _. map_of c (m_name (metadata config)) \<noteq> None) w1"

sublocale deletion \<subseteq> handshake: handshake_tasks "deleting rt ki config w" "discovering gh rt os ki self stop fin path w'"
proof
  show "deleting rt ki config w as = deleting_next as" if "as \<in> del_logs" for as
    by (rule deleting_calls [OF on_map, where b = "Told True" and c = fine and e = "Msg ''channel closed''"])
       (use that in \<open>auto simp: del_logs_def\<close>)
qed (rule discovering_calls)

context deletion
begin

lemma tasks: "handshake_tasks (deleting rt ki config w) (discovering gh rt os ki self stop fin path w')"
  by (rule handshake.handshake_tasks_axioms)

end

section \<open>An Agent that finds nothing\<close>

definition idle_host :: "'w serve_rt" where
  "idle_host = \<lparr>create_dir_all = (\<lambda>_. return (Ok ())), bind_listener = (\<lambda>_. return (Ok ())),
     spawn_server = (\<lambda>_ _. return ()), connect_uds = (\<lambda>_. return (Ok ())), kubelet_register = (\<lambda>_. return (Ok ())),
     system_time_secs = return (Ok 0), sleep = (\<lambda>_. return ()), env_var = (\<lambda>_. return (Ok ''node-a'')),
     new_channels = return (7, 8), ender_send = (\<lambda>_. return (Ok ()))\<rparr>"

definition offline_kube :: "'w kube_interface" where
  "offline_kube = KubeImpl \<lparr>build_request = Ok, send_request = \<lambda>_. return (Err (Msg ''offline''))\<rparr>"

definition idle_config :: KubeAkriConfig where
  "idle_config = \<lparr>o_types = \<lparr>t_apiVersion = None, t_kind = None\<rparr>, metadata = ObjectMeta_default\<lparr>m_namespace := Some ''ns''\<rparr>,
     spec = sample_configuration, status = None\<rparr>"

definition idle_rt :: "'w config_rt" where
  "idle_rt = quiet_configs\<lparr>lock_configs := return [(m_name (metadata idle_config),
     \<lparr>ci_instance_map = 0, stop_discovery_sender = 1, finished_discovery_sender = 2\<rparr>)]\<rparr>"

definition idle_handler :: "ProtocolHandler \<Rightarrow> ('w discovery_handler, error) result" where
  "idle_handler _ = Ok \<lparr>discover = return (Ok []), are_shared = Ok True\<rparr>"

definition idle_discovery :: PeriodicDiscovery where
  "idle_discovery = \<lparr>pd_config_name = ''cfg'', pd_config_uid = ''uid'', pd_config_namespace = ''ns'',
     pd_config_spec = sample_configuration, pd_config_protocol = protocol sample_configuration, pd_instance_map = 0\<rparr>"

definition no_tape :: chan_tape where
  "no_tape = \<lparr>tape_answers = [], tape_call = None\<rparr>"

interpretation idle: deletion idle_rt idle_host offline_kube idle_handler idle_config idle_discovery "1" "2" "''/plugins''" no_tape no_tape
  by unfold_locales
     (auto simp: config_rt_keeps_def dps_rt_keeps_def serve_rt_keeps_def idle_rt_def quiet_configs_def idle_host_def
       offline_kube_def idle_handler_def instance_find_instance_def instance_delete_instance_def request_def Let_def keeps_def)

section \<open>Properties\<close>

text \<open>
  C23: Deleting a Configuration while it is being discovered, over all interleavings of the two
  tasks' operations on their channels. Deletion goes past the handshake, to take the
  Configuration and its Instances down, only when discovery has ended: its report was received,
  or the stop message could not be sent because discovery had ended before. A run that cannot
  go on has either got past the handshake, or the deleting task waits for a report although
  discovery has ended without making one that reaches it; from such a state the wait never
  ends. (That happens when discovery reports before the deleting task has subscribed, or fails
  after the stop message was queued.)
\<close>

theorem stop_handshake_outcomes:
  assumes "deletion rt os ki gh config"
    and "D = deleting rt ki config w" "P = discovering gh rt os ki self stop fin path w'"
    and "(handshake_step D P)\<^sup>*\<^sup>* handshake_init s"
  shows "(D (del_log s) \<in> {Some TakeDown, None} \<longrightarrow> P (disc_log s) = None)
    \<and> ((\<nexists>s'. handshake_step D P s s') \<longleftrightarrow> P (disc_log s) = None \<and> \<not> receiver_alive s
         \<and> (D (del_log s) = None \<or> D (del_log s) = Some AwaitReport \<and> \<not> reported s))
    \<and> (D (del_log s) = Some AwaitReport \<and> P (disc_log s) = None \<and> \<not> reported s \<longrightarrow>
         (\<forall>s'. (handshake_step D P)\<^sup>*\<^sup>* s s' \<longrightarrow> D (del_log s') = Some AwaitReport \<and> \<not> reported s'))"
proof -
  note tasks = deletion.tasks [OF assms(1), of w self stop fin path w', folded assms(2,3)]
  note inv = handshake_tasks.handshake_inv_reach [OF tasks assms(4)]
  show ?thesis
  proof (intro conjI impI allI)
    show "P (disc_log s) = None" if "D (del_log s) \<in> {Some TakeDown, None}"
      by (rule handshake_tasks.past_handshake [OF tasks inv that])
    show "(\<nexists>s'. handshake_step D P s s') \<longleftrightarrow> P (disc_log s) = None \<and> \<not> receiver_alive s
         \<and> (D (del_log s) = None \<or> D (del_log s) = Some AwaitReport \<and> \<not> reported s)"
      by (rule handshake_tasks.handshake_stuck [OF tasks inv])
    fix s' assume waits: "D (del_log s) = Some AwaitReport \<and> P (disc_log s) = None \<and> \<not> reported s"
      and "(handshake_step D P)\<^sup>*\<^sup>* s s'"
    then show "D (del_log s') = Some AwaitReport" "\<not> reported s'"
      using handshake_tasks.waits_for_ever [OF tasks, of s s'] by metis+
  qed
qed

text \<open>The stop message is received and the report fails before the deleting task has subscribed.\<close>

theorem stop_handshake_outcomes_witness:
  "\<exists>s. let D = deleting idle_rt offline_kube idle_config no_tape;
         P = discovering idle_handler idle_rt idle_host offline_kube idle_discovery 1 2 ''/plugins'' no_tape
     in (handshake_step D P)\<^sup>*\<^sup>* handshake_init s \<and> D (del_log s) = Some AwaitReport
      \<and> (\<forall>s'. (handshake_step D P)\<^sup>*\<^sup>* s s' \<longrightarrow> D (del_log s') = Some AwaitReport)"
proof -
  define D where "D = deleting idle_rt offline_kube idle_config no_tape"
  define P where "P = discovering idle_handler idle_rt idle_host offline_kube idle_discovery 1 2 ''/plugins'' no_tape"
  have D: "D [] = Some SendStop" "D [fine] = Some Subscribe" "D [fine, Told True] = Some AwaitReport"
    by (simp_all add: D_def idle.handshake.deletes del_logs_def)
  have "P [] = Some PollStop" "P [Told True] = Some SendReport" "P [Told True, Done (Err (Msg ''no receivers''))] = None"
    by (simp_all add: P_def discovering_def do_periodic_discovery_def idle_handler_def idle_rt_def quiet_configs_def at_start_def
        no_tape_def try_then_def update_connectivity_status_def visible_instances_def hm_collect_def ask_def unwrapped_def Let_def)
  note steps = D this
  let ?r = "Done (Err (Msg ''no receivers''))"
  let ?s = "handshake_init\<lparr>del_log := [fine, Told True], disc_log := [Told True, ?r], subscribed := True\<rparr>"
  have s1: "handshake_step D P handshake_init (handshake_init\<lparr>del_log := [fine], stop_queued := True\<rparr>)"
    using handshake_step.send_stop [of D handshake_init P] by (simp add: steps handshake_init_def)
  have s2: "handshake_step D P (handshake_init\<lparr>del_log := [fine], stop_queued := True\<rparr>)
      (handshake_init\<lparr>del_log := [fine], disc_log := [Told True]\<rparr>)"
    using handshake_step.poll [of P "handshake_init\<lparr>del_log := [fine], stop_queued := True\<rparr>" D] by (simp add: steps handshake_init_def)
  have s3: "handshake_step D P (handshake_init\<lparr>del_log := [fine], disc_log := [Told True]\<rparr>)
      (handshake_init\<lparr>del_log := [fine], disc_log := [Told True, ?r]\<rparr>)"
    using handshake_step.report_fails [of P "handshake_init\<lparr>del_log := [fine], disc_log := [Told True]\<rparr>" D]
    by (simp add: steps handshake_init_def)
  have s4: "handshake_step D P (handshake_init\<lparr>del_log := [fine], disc_log := [Told True, ?r]\<rparr>) ?s"
    using handshake_step.subscribe [of D "handshake_init\<lparr>del_log := [fine], disc_log := [Told True, ?r]\<rparr>" P]
    by (simp add: steps handshake_init_def)
  have reach: "(handshake_step D P)\<^sup>*\<^sup>* handshake_init ?s"
    by (rule converse_rtranclp_into_rtranclp [of "handshake_step D P", OF s1], rule converse_rtranclp_into_rtranclp [of "handshake_step D P", OF s2],
        rule converse_rtranclp_into_rtranclp [of "handshake_step D P", OF s3], rule r_into_rtranclp [of "handshake_step D P", OF s4])
  have "D (del_log ?s) = Some AwaitReport \<and> P (disc_log ?s) = None \<and> \<not> reported ?s"
    by (simp add: steps handshake_init_def)
  with stop_handshake_outcomes [OF idle.deletion_axioms D_def P_def reach] reach show ?thesis
    unfolding Let_def D_def [symmetric] P_def [symmetric] by blast
qed

end
