(* ===== verification/Slot_Convergence.thy ===== *)
theory Slot_Convergence
  imports Slot_Reconciliation
begin

text \<open>
  Where slot reconciliation leads. A pass over a calm cluster refines a function on single
  slots (\<open>slot_pass\<close>), and the passes of all Agents, in any order, refine a run of that
  function (\<open>slot_run\<close>). From the run it follows that the recorded owners converge to the
  actual use of the slots, whatever they were before: lost allocations, slots that two nodes
  were told they hold, and slots whose containers are gone.
\<close>

section \<open>A slot under a sequence of passes\<close>

text \<open>
  A pass of an Agent of the node \<open>node\<close> with a reading \<open>now\<close> of its clock, for one slot with its
  owner and the time since which the Agent knows it to be unused; \<open>used\<close> says whether a
  container of the node uses it.
\<close>

fun slot_pass :: "nat \<Rightarrow> string \<Rightarrow> bool \<Rightarrow> nat \<Rightarrow> string \<times> nat option \<Rightarrow> string \<times> nat option" where
  "slot_pass grace node used now (own, tm) =
     (if used then (node, None)
      else if own \<noteq> node then (own, tm)
      else (case tm of
          None \<Rightarrow> (own, Some now)
        | Some t \<Rightarrow> if t + grace < now then ('''', None) else (own, tm)))"

text \<open>Every Agent tracks the slot for itself; a run is a sequence of passes, each of a node and with a reading.\<close>

fun slot_run :: "nat \<Rightarrow> (string \<Rightarrow> bool) \<Rightarrow> (string \<times> nat) list \<Rightarrow> string \<times> (string \<Rightarrow> nat option)
    \<Rightarrow> string \<times> (string \<Rightarrow> nat option)" where
  "slot_run grace used [] (own, \<tau>) = (own, \<tau>)"
| "slot_run grace used ((node, now) # ps) (own, \<tau>) =
     (case slot_pass grace node (used node) now (own, \<tau> node) of
        (own', tm) \<Rightarrow> slot_run grace used ps (own', \<tau>(node := tm)))"

text \<open>What the owner should be: the node that uses the slot, if one does, and none of the others.\<close>

definition true_owner :: "string list \<Rightarrow> (string \<Rightarrow> bool) \<Rightarrow> string \<Rightarrow> string" where
  "true_owner ns used own = (case filter used ns of n # _ \<Rightarrow> n | [] \<Rightarrow> if own \<in> set ns then '''' else own)"

lemma slot_run_append:
  "slot_run grace used (ps @ qs) x = slot_run grace used qs (slot_run grace used ps x)"
  by (induction grace used ps x rule: slot_run.induct) (auto split: prod.split)

text \<open>Another node never takes the slot away from the node that uses it.\<close>

lemma slot_run_used:
  assumes "used u" "\<forall>p \<in> set ps. used (fst p) \<longrightarrow> fst p = u" "u \<in> fst ` set ps \<or> own = u"
  shows "fst (slot_run grace used ps (own, \<tau>)) = u"
  using assms(2,3)
proof (induction ps arbitrary: own \<tau>)
  case (Cons p ps)
  obtain n t where p: "p = (n, t)" by (cases p)
  obtain own' tm where sp: "slot_pass grace n (used n) t (own, \<tau> n) = (own', tm)" by fastforce
  have "own' = u" if "n = u \<or> own = u"
    using sp that assms(1) Cons.prems(1) by (auto simp: p split: if_splits)
  then have "u \<in> fst ` set ps \<or> own' = u" using Cons.prems(2) by (simp add: p, blast)
  with Cons.IH [of own'] Cons.prems(1) show ?case by (simp add: p sp del: slot_pass.simps)
qed simp

lemma slot_run_foreign:
  assumes "\<forall>n \<in> fst ` set ps. \<not> used n \<and> n \<noteq> own"
  shows "fst (slot_run grace used ps (own, \<tau>)) = own"
  using assms by (induction ps arbitrary: \<tau>) auto

text \<open>The first round: an unused slot of a node is freed, or tracked by the end.\<close>

lemma slot_run_tracks:
  assumes "\<forall>p \<in> set ps. \<not> used (fst p) \<and> fst p \<noteq> '''' \<and> snd p \<le> T" "\<forall>t. \<tau> own = Some t \<longrightarrow> t \<le> T"
    and "slot_run grace used ps (own, \<tau>) = (own', \<tau>')"
  shows "own' = '''' \<or> own' = own \<and> (\<forall>t. \<tau>' own = Some t \<longrightarrow> t \<le> T)
     \<and> (own \<in> fst ` set ps \<or> \<tau> own \<noteq> None \<longrightarrow> \<tau>' own \<noteq> None)"
  using assms
proof (induction ps arbitrary: \<tau>)
  case (Cons p ps)
  obtain n t where p: "p = (n, t)" by (cases p)
  have n: "\<not> used n" "n \<noteq> ''''" "t \<le> T" using Cons.prems(1) by (auto simp: p)
  have nil: "own' = ''''" if "slot_run grace used ps ('''', \<tau>'') = (own', \<tau>')" for \<tau>''
    using slot_run_foreign [of ps used "''''" grace \<tau>''] Cons.prems(1) that by auto
  show ?case
  proof (cases "n = own")
    case True
    with n Cons.prems show ?thesis
      by (auto simp: p split: option.splits if_splits dest!: nil Cons.IH [rotated 2])
  next
    case False
    with n Cons.IH [of \<tau>] Cons.prems show ?thesis by (simp add: p)
  qed
qed simp

text \<open>The second round: a tracked slot is freed.\<close>

lemma slot_run_frees:
  assumes "\<forall>q \<in> set qs. \<not> used (fst q) \<and> fst q \<noteq> '''' \<and> T + grace < snd q" "own \<in> fst ` set qs" "\<tau> own = Some t0" "t0 \<le> T"
  shows "fst (slot_run grace used qs (own, \<tau>)) = ''''"
  using assms
proof (induction qs arbitrary: \<tau>)
  case (Cons p qs)
  obtain n t where p: "p = (n, t)" by (cases p)
  have n: "\<not> used n" "n \<noteq> ''''" "T + grace < t" using Cons.prems(1) by (auto simp: p)
  show ?case
  proof (cases "n = own")
    case True
    moreover have "t0 + grace < t" using n(3) Cons.prems(4) by simp
    moreover have "fst (slot_run grace used qs ('''', \<tau>(own := None))) = ''''"
      by (rule slot_run_foreign) (use Cons.prems(1) in auto)
    ultimately show ?thesis using n Cons.prems(3) by (simp add: p)
  next
    case False
    moreover have "own \<in> fst ` set qs" using False Cons.prems(2) by (simp add: p)
    ultimately show ?thesis using n Cons.IH [of \<tau>] Cons.prems by (simp add: p)
  qed
qed simp

text \<open>Both rounds together, for a slot that none of the nodes uses.\<close>

lemma slot_run_unused:
  assumes ps: "fst ` set ps = set ns" "\<forall>p \<in> set ps. \<not> used (fst p) \<and> fst p \<noteq> '''' \<and> snd p \<le> T"
    and qs: "fst ` set qs = set ns" "\<forall>q \<in> set qs. \<not> used (fst q) \<and> fst q \<noteq> '''' \<and> T + grace < snd q"
    and past: "own \<in> set ns \<Longrightarrow> \<forall>t. \<tau> own = Some t \<longrightarrow> t \<le> T"
  shows "fst (slot_run grace used (ps @ qs) (own, \<tau>)) = (if own \<in> set ns then '''' else own)"
proof -
  obtain own' \<tau>' where run: "slot_run grace used ps (own, \<tau>) = (own', \<tau>')" by (cases "slot_run grace used ps (own, \<tau>)")
  have unused: "\<forall>n \<in> set ns. \<not> used n \<and> n \<noteq> ''''"
    unfolding qs(1) [symmetric] using qs(2) by auto
  have keep: "fst (slot_run grace used qs (o', \<tau>')) = o'" if "o' \<notin> set ns" for o'
    by (rule slot_run_foreign) (use unused qs(1) that in auto)
  have nil: "'''' \<notin> set ns" using unused by auto
  show ?thesis
  proof (cases "own \<in> set ns")
    case True
    from slot_run_tracks [OF ps(2) past [OF True] run] True ps(1)
    have "own' = '''' \<or> own' = own \<and> (\<exists>t. \<tau>' own = Some t \<and> t \<le> T)" by auto
    then have "fst (slot_run grace used qs (own', \<tau>')) = ''''"
      using keep [OF nil] slot_run_frees [OF qs(2), of own \<tau>'] True qs(1) by auto
    then show ?thesis by (simp add: True slot_run_append run)
  next
    case False
    have "fst (slot_run grace used ps (own, \<tau>)) = own"
      by (rule slot_run_foreign) (use unused ps(1) False in auto)
    with keep [OF False] show ?thesis by (simp add: False slot_run_append run)
  qed
qed

lemma slot_run_converges:
  assumes "fst ` set ps = set ns" "fst ` set qs = set ns" "'''' \<notin> set ns"
    and "\<forall>n \<in> set ns. \<forall>n' \<in> set ns. used n \<longrightarrow> used n' \<longrightarrow> n = n'"
    and "\<forall>p \<in> set ps. snd p \<le> T" "\<forall>q \<in> set qs. T + grace < snd q" "\<forall>n \<in> set ns. \<forall>t. \<tau> n = Some t \<longrightarrow> t \<le> T"
  shows "fst (slot_run grace used (ps @ qs) (own, \<tau>)) = true_owner ns used own"
proof -
  have nodes: "p \<in> set ps \<Longrightarrow> fst p \<in> set ns" "p \<in> set qs \<Longrightarrow> fst p \<in> set ns" for p
    using assms(1,2) by auto
  show ?thesis
  proof (cases "filter used ns")
    case (Cons u us)
    from arg_cong [where f = set, OF this] have u: "u \<in> set ns" "used u" by auto
    have "fst (slot_run grace used (ps @ qs) (own, \<tau>)) = u"
    proof (rule slot_run_used)
      show "\<forall>p \<in> set (ps @ qs). used (fst p) \<longrightarrow> fst p = u" using u assms(4) nodes by (simp, blast)
      show "u \<in> fst ` set (ps @ qs) \<or> own = u" using u(1) assms(1) by (simp add: image_Un)
    qed fact
    then show ?thesis by (simp add: true_owner_def Cons)
  next
    case Nil
    then have unused: "\<forall>n \<in> set ns. \<not> used n" by (simp add: filter_empty_conv)
    have "fst (slot_run grace used (ps @ qs) (own, \<tau>)) = (if own \<in> set ns then '''' else own)"
    proof (rule slot_run_unused [where T = T])
      show "\<forall>p \<in> set ps. \<not> used (fst p) \<and> fst p \<noteq> '''' \<and> snd p \<le> T"
        "\<forall>q \<in> set qs. \<not> used (fst q) \<and> fst q \<noteq> '''' \<and> T + grace < snd q"
        using unused assms(3,5,6) nodes by metis+
    qed (use assms(1,2,7) in auto)
    then show ?thesis by (simp add: true_owner_def Nil)
  qed
qed

section \<open>A pass over a calm cluster\<close>

text \<open>Keys of Instances are pairs, but are never taken apart here.\<close>

declare split_paired_All [simp del] split_paired_Ex [simp del]

text \<open>
  A cluster is calm while its calls succeed, the Pods of the nodes \<open>N\<close> are ready, and the clock
  reads times of \<open>C\<close>; what a pass does keeps it calm. A list of the Instances names each once.
\<close>

definition instance_key :: "KubeAkriInstance \<Rightarrow> string \<times> string" where
  "instance_key x = (m_name (metadata x), the (m_namespace (metadata x)))"

locale calm_store = reliable_clocked_store +
  fixes calm :: "'a \<Rightarrow> bool" and C :: "nat \<Rightarrow> bool" and N :: "string set"
  assumes calm_now: "calm w \<Longrightarrow> wp instant_now (\<lambda>t w'. C t \<and> calm w') w"
    and calm_get: "calm w \<Longrightarrow> wp (get_instances ki)
      (\<lambda>r w'. calm w' \<and> (\<forall>xs. r = Ok xs \<longrightarrow> distinct (map instance_key xs))) w"
    and calm_pods: "calm w \<Longrightarrow> node \<in> N \<Longrightarrow> wp (find_pods_with_field ki (node_field_selector node))
      (\<lambda>r w'. calm w' \<and> (\<exists>ps. r = Ok ps \<and> \<not> list_ex unready ps)) w"
    and calm_update: "calm w \<Longrightarrow> wp (update_instance ki i nm ns) (\<lambda>_ w'. calm w') w"

text \<open>An Instance and the times of an Agent, before and after a pass with readings of \<open>C\<close>.\<close>

definition instance_pass :: "nat \<Rightarrow> string \<Rightarrow> string set \<Rightarrow> (nat \<Rightarrow> bool) \<Rightarrow> (string \<Rightarrow> nat option) \<Rightarrow> Instance
    \<Rightarrow> (string \<Rightarrow> nat option) \<Rightarrow> Instance \<Rightarrow> bool" where
  "instance_pass grace node U C \<mu> i \<mu>' i' \<longleftrightarrow> (instance_wf i \<longrightarrow> instance_wf i')
     \<and> (\<forall>s. slot_owner i s = None \<longrightarrow> slot_owner i' s = None)
     \<and> (\<forall>s own. slot_owner i s = Some own \<longrightarrow> (\<exists>now own'. C now \<and> slot_owner i' s = Some own'
          \<and> slot_pass grace node (s \<in> U) now (own, \<mu> s) = (own', \<mu>' s)))"

declare slot_pass.simps [simp del]

lemma instance_passD:
  assumes "instance_pass grace node U C \<mu> i \<mu>' i'" "slot_owner i s = Some own"
  shows "\<exists>now own'. C now \<and> slot_owner i' s = Some own' \<and> slot_pass grace node (s \<in> U) now (own, \<mu> s) = (own', \<mu>' s)"
  using assms by (simp add: instance_pass_def)

lemma instance_pass_untracked: "instance_pass grace node U C \<mu> i \<mu>' i' \<Longrightarrow> s \<in> U \<Longrightarrow> slot_owner i s = Some own \<Longrightarrow> \<mu>' s = None"
  by (drule (1) instance_passD) (auto simp: slot_pass.simps)

lemma instance_pass_cong:
  assumes "instance_pass grace node U C \<mu> i \<mu>' i'" "\<And>s. slot_owner i s \<noteq> None \<Longrightarrow> \<mu>1 s = \<mu> s \<and> \<mu>1' s = \<mu>' s"
  shows "instance_pass grace node U C \<mu>1 i \<mu>1' i'"
  unfolding instance_pass_def
proof (intro conjI allI impI, goal_cases)
  case (3 s own)
  with instance_passD [OF assms(1)] assms(2) [of s] show ?case by simp
qed (use assms(1) in \<open>simp_all add: instance_pass_def\<close>)

lemma instance_pass_merge: "instance_pass grace node U C \<mu> i \<mu>' i' \<Longrightarrow> instance_wf i \<Longrightarrow>
    instance_pass grace node U C \<mu> i \<mu>' (merge_instance i i')"
  unfolding instance_pass_def by (auto split: option.split) fastforce+

lemma modified_nothing: "modified_device_usage node [] [] i = device_usage i"
  unfolding modified_device_usage_def by (rule map_idI) auto

lemma instance_pass_modified:
  assumes wf: "instance_wf i" and m: "untracked (set U) m" and "C t"
    and un: "un = slots_without_container node U i" "set kept \<subseteq> set un"
    and sift: "\<forall>s \<in> set un. sifted C grace (map_of m s) (s \<in> set kept) (map_of m' s)"
    and rest: "\<forall>s. s \<notin> set un \<longrightarrow> map_of m' s = map_of m s"
  shows "instance_pass grace node (set U) C (map_of m) i (map_of (remove_slots kept m'))
     (i\<lparr>device_usage := modified_device_usage node (slots_missing_this_node_name node U i) kept i\<rparr>)"
proof -
  let ?i' = "i\<lparr>device_usage := modified_device_usage node (slots_missing_this_node_name node U i) kept i\<rparr>"
  have "\<exists>now own'. C now \<and> slot_owner ?i' s = Some own' \<and>
      slot_pass grace node (s \<in> set U) now (own, map_of m s) = (own', map_of (remove_slots kept m') s)"
    if own: "slot_owner i s = Some own" for s own
  proof (cases "s \<in> set un")
    case True
    with sift have "sifted C grace (map_of m s) (s \<in> set kept) (map_of m' s)" by blast
    with True own show ?thesis
      by (auto simp: slot_pass.simps un(1) unused_iff [OF wf] missing_iff [OF wf] slot_owner_modified remove_slots_get
          sifted_def split: option.splits)
  next
    case False
    with un(2) rest m \<open>C t\<close> own show ?thesis
      by (auto simp: slot_pass.simps un(1) unused_iff [OF wf] missing_iff [OF wf] slot_owner_modified
          remove_slots_get untracked_def)
  qed
  moreover have "instance_wf ?i'"
    using wf by (simp add: modified_device_usage_def hm_wf_map_values instance_wf_def)
  ultimately show ?thesis by (simp add: instance_pass_def slot_owner_modified)
qed

text \<open>Several Instances, at their keys of a store; the rest of the store and the times of other slots stay.\<close>

definition instances_pass :: "nat \<Rightarrow> string \<Rightarrow> string set \<Rightarrow> (nat \<Rightarrow> bool) \<Rightarrow> KubeAkriInstance list
    \<Rightarrow> (string \<Rightarrow> nat option) \<Rightarrow> inst_store \<Rightarrow> (string \<Rightarrow> nat option) \<Rightarrow> inst_store \<Rightarrow> bool" where
  "instances_pass grace node U C xs \<mu> st \<mu>' st' \<longleftrightarrow> (\<forall>k. k \<notin> instance_key ` set xs \<longrightarrow> st' k = st k)
     \<and> (\<forall>x \<in> set xs. \<exists>x'. st' (instance_key x) = Some x' \<and> instance_pass grace node U C \<mu> (spec x) \<mu>' (spec x'))
     \<and> (\<forall>s. (\<forall>x \<in> set xs. slot_owner (spec x) s = None) \<longrightarrow> \<mu>' s = \<mu> s)"

definition slots_apart :: "KubeAkriInstance list \<Rightarrow> bool" where
  "slots_apart xs \<longleftrightarrow> (\<forall>x \<in> set xs. \<forall>y \<in> set xs. \<forall>s. slot_owner (spec x) s \<noteq> None \<longrightarrow> slot_owner (spec y) s \<noteq> None
     \<longrightarrow> instance_key x = instance_key y)"

lemma slots_apart_tl: "slots_apart (x # xs) \<Longrightarrow> slots_apart xs"
  unfolding slots_apart_def by (meson list.set_intros(2))

lemma instance_pass_keeps_untracked:
  assumes "instance_pass grace node U C (map_of m) i (map_of m') i'" "untracked U m"
    and "\<forall>s. slot_owner i s = None \<longrightarrow> map_of m' s = map_of m s"
  shows "untracked U m'"
  unfolding untracked_def
proof
  fix s assume s: "s \<in> U"
  show "map_of m' s = None"
  proof (cases "slot_owner i s")
    case None
    with s assms(2,3) show ?thesis by (simp add: untracked_def)
  qed (rule instance_pass_untracked [OF assms(1) s])
qed

lemma instances_pass_Cons:
  assumes x: "instance_pass grace node U C \<mu> (spec x) \<mu>1 (spec x')" "\<forall>s. slot_owner (spec x) s = None \<longrightarrow> \<mu>1 s = \<mu> s"
    and k: "instance_key x \<notin> instance_key ` set xs" and apart: "slots_apart (x # xs)"
    and xs: "instances_pass grace node U C xs \<mu>1 (st(instance_key x \<mapsto> x')) \<mu>2 st2"
  shows "instances_pass grace node U C (x # xs) \<mu> st \<mu>2 st2"
proof -
  have sep: "slot_owner (spec x) s = None \<or> slot_owner (spec y) s = None" if "y \<in> set xs" for y s
    using apart k that unfolding slots_apart_def by (metis image_eqI list.set_intros)
  have "st2 (instance_key x) = Some x'" using xs k by (simp add: instances_pass_def)
  moreover have "instance_pass grace node U C \<mu> (spec x) \<mu>2 (spec x')"
  proof (rule instance_pass_cong [OF x(1)])
    fix s assume "slot_owner (spec x) s \<noteq> None"
    with sep have "\<forall>y \<in> set xs. slot_owner (spec y) s = None" by metis
    with xs show "\<mu> s = \<mu> s \<and> \<mu>2 s = \<mu>1 s" by (simp add: instances_pass_def)
  qed
  moreover have "\<exists>y'. st2 (instance_key y) = Some y' \<and> instance_pass grace node U C \<mu> (spec y) \<mu>2 (spec y')"
    if y: "y \<in> set xs" for y
  proof -
    from xs y obtain y' where y': "st2 (instance_key y) = Some y'" "instance_pass grace node U C \<mu>1 (spec y) \<mu>2 (spec y')"
      by (auto simp: instances_pass_def)
    have "instance_pass grace node U C \<mu> (spec y) \<mu>2 (spec y')"
      by (rule instance_pass_cong [OF y'(2)]) (use sep [OF y] x(2) in metis)
    with y'(1) show ?thesis by blast
  qed
  ultimately show ?thesis using xs x(2) by (simp add: instances_pass_def)
qed

context calm_store
begin

lemma some_reading: "calm w \<Longrightarrow> \<exists>t. C t"
  using calm_now [of w] by (auto simp: wp_def split: prod.splits)

lemma calm_clock:
  assumes "calm w' \<and> insts w' = st"
  shows "wp instant_now (\<lambda>t w''. C t \<and> calm w'' \<and> insts w'' = st) w'"
  using assms calm_now [of w'] now_law [of w'] by (simp add: wp_conj)

lemma wp_calm_write:
  assumes "calm w" "insts w (nm, ns) = Some x"
    and "\<And>w' x'. calm w' \<Longrightarrow> insts w' = (insts w)((nm, ns) \<mapsto> x') \<Longrightarrow> spec x' = merge_instance (spec x) i \<Longrightarrow> Q (Ok ()) w'"
  shows "wp (update_instance ki i nm ns) Q w"
proof -
  have "wp (update_instance ki i nm ns) (\<lambda>r w'. r = Ok () \<and> patched i nm ns (insts w) (insts w')) w"
    by (rule wp_update_instance_ok [OF assms(2)]) simp
  with calm_update [OF assms(1)] have "wp (update_instance ki i nm ns)
      (\<lambda>r w'. calm w' \<and> r = Ok () \<and> patched i nm ns (insts w) (insts w')) w" by (simp add: wp_conj)
  then show ?thesis by (rule wp_mono) (use assms(2,3) in \<open>auto simp: patched_def\<close>)
qed

text \<open>One Instance; the others, and the times of other slots, stay as they are.\<close>

lemma wp_instance_pass:
  assumes w: "calm w" and x: "insts w (instance_key x) = Some x" and wf: "instance_wf (spec x)"
    and m: "untracked (set U) m"
  shows "wp (reconcile_instance node grace instant_now ki U x m) (\<lambda>r w'. \<exists>m' x'. r = Ok m' \<and> calm w'
     \<and> insts w' = (insts w)(instance_key x \<mapsto> x') \<and> instance_pass grace node (set U) C (map_of m) (spec x) (map_of m') (spec x')
     \<and> (\<forall>s. slot_owner (spec x) s = None \<longrightarrow> map_of m' s = map_of m s)) w"
proof -
  from x insts_named [of w "fst (instance_key x)" "snd (instance_key x)" x]
  obtain nsp where ns: "m_namespace (metadata x) = Some nsp" and key: "instance_key x = (m_name (metadata x), nsp)"
    by (auto simp: stored_as_def instance_key_def)
  let ?un = "slots_without_container node U (spec x)"
  from some_reading [OF w] obtain t where t: "C t" ..
  show ?thesis
    unfolding reconcile_instance_def Let_def wp_bind
  proof (rule wp_mono [OF wp_filter_sifted [where J = "\<lambda>w'. calm w' \<and> insts w' = insts w" and C = C,
        OF calm_clock _ distinct_unused [OF wf]]], goal_cases)
    case (3 km w1)
    then obtain kept m1 where km: "km = (kept, m1)" and w1: "calm w1" "insts w1 = insts w"
      and kept: "set kept \<subseteq> set ?un"
      and sift: "\<forall>s \<in> set ?un. sifted C grace (map_of m s) (s \<in> set kept) (map_of m1 s)"
      and rest: "\<forall>s. s \<notin> set ?un \<longrightarrow> map_of m1 s = map_of m s" by (cases km) auto
    define new where "new = (spec x)\<lparr>device_usage := modified_device_usage node
      (slots_missing_this_node_name node U (spec x)) kept (spec x)\<rparr>"
    have pass: "instance_pass grace node (set U) C (map_of m) (spec x) (map_of (remove_slots kept m1)) new"
      unfolding new_def by (rule instance_pass_modified [OF wf m t refl kept sift rest])
    have others: "map_of (remove_slots kept m1) s = map_of m s" if "slot_owner (spec x) s = None" for s
      using that rest kept unused_iff [OF wf, of s node U] by (auto simp: remove_slots_get)
    show ?case
    proof (cases "kept = [] \<and> slots_missing_this_node_name node U (spec x) = []")
      case True
      then have "new = spec x" by (simp add: new_def modified_nothing)
      with True pass others w1 x show ?thesis by (auto simp: km remove_slots_def intro!: exI [of _ x])
    next
      case False
      then have cond: "kept \<noteq> [] \<or> slots_missing_this_node_name node U (spec x) \<noteq> []" by blast
      have "wp (update_instance ki new (m_name (metadata x)) nsp)
          (\<lambda>r w'. r = Ok () \<and> calm w' \<and> (\<exists>x'. insts w' = (insts w)(instance_key x \<mapsto> x') \<and> spec x' = merge_instance (spec x) new)) w1"
        by (rule wp_calm_write [OF w1(1)]) (use x w1(2) in \<open>auto simp: key\<close>)
      then show ?thesis
        unfolding km prod.case if_P [OF cond] ns unwrap.simps wp_try_then wp_return result.case wp_bind new_def [symmetric]
      proof (rule wp_mono, clarify, goal_cases)
        case (1 r w2 x')
        with others instance_pass_merge [OF pass wf] show ?case
          by (intro exI [of _ "remove_slots kept m1"] exI [of _ x']) simp
      qed
    qed
  qed (use w in simp_all)
qed

text \<open>The loop over Instances that have no slot in common.\<close>

lemma wp_instances_pass:
  assumes "calm w" "\<forall>x \<in> set xs. insts w (instance_key x) = Some x \<and> instance_wf (spec x)"
    and "distinct (map instance_key xs)" "untracked (set U) m" "slots_apart xs"
  shows "wp (reconcile_instances node grace instant_now ki U xs m) (\<lambda>r w'. \<exists>m'. r = Ok m' \<and> calm w'
     \<and> instances_pass grace node (set U) C xs (map_of m) (insts w) (map_of m') (insts w')) w"
  using assms
proof (induction xs arbitrary: w m)
  case Nil
  then show ?case by (simp add: instances_pass_def)
next
  case (Cons x xs)
  have x: "insts w (instance_key x) = Some x" "instance_wf (spec x)" using Cons.prems(2) by auto
  have k: "instance_key x \<notin> instance_key ` set xs" using Cons.prems(3) by simp
  show ?case
    unfolding reconcile_instances.simps wp_try_then
  proof (rule wp_mono [OF wp_instance_pass [OF Cons.prems(1) x Cons.prems(4)]], clarify, goal_cases)
    case (1 r w1 m1 x')
    from instance_pass_keeps_untracked [OF 1(3) Cons.prems(4) 1(4)] have "untracked (set U) m1" .
    moreover have "\<forall>y \<in> set xs. insts w1 (instance_key y) = Some y \<and> instance_wf (spec y)"
    proof
      fix y assume y: "y \<in> set xs"
      with k have "instance_key y \<noteq> instance_key x" by (metis image_eqI)
      with Cons.prems(2) [rule_format, of y] y 1(2) show "insts w1 (instance_key y) = Some y \<and> instance_wf (spec y)" by simp
    qed
    ultimately have "wp (reconcile_instances node grace instant_now ki U xs m1) (\<lambda>r w'. \<exists>m'. r = Ok m' \<and> calm w'
       \<and> instances_pass grace node (set U) C xs (map_of m1) (insts w1) (map_of m') (insts w')) w1"
      using Cons.prems(3) slots_apart_tl [OF Cons.prems(5)] by (intro Cons.IH [OF 1(1)]) auto
    then show ?case
      unfolding result.case
      by (rule wp_mono) (use instances_pass_Cons [OF 1(3,4) k Cons.prems(5)] 1(2) in metis)
  qed
qed

end

section \<open>The passes of all Agents\<close>

text \<open>
  The Instances of a cluster: well formed, and no two have a slot of the same name, by which
  the Agents track them.
\<close>

definition slots_ok :: "inst_store \<Rightarrow> bool" where
  "slots_ok st \<longleftrightarrow> (\<forall>x \<in> ran st. instance_wf (spec x))
     \<and> (\<forall>k k' x x' s. st k = Some x \<longrightarrow> st k' = Some x' \<longrightarrow> slot_owner (spec x) s \<noteq> None \<longrightarrow> slot_owner (spec x') s \<noteq> None
          \<longrightarrow> k = k')"

definition store_pass :: "nat \<Rightarrow> string \<Rightarrow> string set \<Rightarrow> (nat \<Rightarrow> bool) \<Rightarrow> (string \<Rightarrow> nat option) \<Rightarrow> inst_store
    \<Rightarrow> (string \<Rightarrow> nat option) \<Rightarrow> inst_store \<Rightarrow> bool" where
  "store_pass grace node U C \<mu> st \<mu>' st' \<longleftrightarrow>
     (\<forall>k. rel_option (\<lambda>x x'. instance_pass grace node U C \<mu> (spec x) \<mu>' (spec x')) (st k) (st' k))"

text \<open>
  The Agents of the nodes \<open>ns\<close> make a pass each, in this order; a node may have several. \<open>ms\<close>
  are the maps of slots that the Agents keep, \<open>usage\<close> is what the container runtime of a node
  answers.
\<close>

fun reconcile_all :: "nat \<Rightarrow> ('w, nat) state \<Rightarrow> 'w kube_interface \<Rightarrow> (string \<Rightarrow> string list) \<Rightarrow> string list
    \<Rightarrow> (string \<Rightarrow> removal_slot_map) \<Rightarrow> ('w, string \<Rightarrow> removal_slot_map) io" where
  "reconcile_all grace now ki usage [] ms = return (Ok ms)"
| "reconcile_all grace now ki usage (n # ns) ms =
     try_then (reconcile n grace now (return (Ok (usage n))) ki (ms n)) (\<lambda>m.
       reconcile_all grace now ki usage ns (ms(n := m)))"

lemma instance_pass_pruned:
  assumes "instance_pass grace node (set U) C (map_of (remove_slots U m)) i \<mu>' i'"
  shows "instance_pass grace node (set U) C (map_of m) i \<mu>' i'"
proof -
  have "slot_pass grace node (s \<in> set U) now (own, map_of (remove_slots U m) s)
      = slot_pass grace node (s \<in> set U) now (own, map_of m s)" for s now own
    by (simp add: slot_pass.simps remove_slots_get)
  with assms show ?thesis by (simp add: instance_pass_def)
qed

lemma instances_pass_store:
  assumes p: "instances_pass grace node (set U) C xs (map_of (remove_slots U m)) st \<mu>' st'"
    and key: "\<And>k x. st k = Some x \<Longrightarrow> instance_key x = k" and xs: "set xs = ran st"
  shows "store_pass grace node (set U) C (map_of m) st \<mu>' st'"
  unfolding store_pass_def
proof
  fix k
  show "rel_option (\<lambda>x x'. instance_pass grace node (set U) C (map_of m) (spec x) \<mu>' (spec x')) (st k) (st' k)"
  proof (cases "st k")
    case None
    then have "k \<notin> instance_key ` set xs" using key by (auto simp: xs ran_def)
    with p None show ?thesis by (simp add: instances_pass_def)
  next
    case (Some x)
    then have "x \<in> set xs" by (simp add: xs ranI)
    with p obtain x' where "st' (instance_key x) = Some x'"
      "instance_pass grace node (set U) C (map_of (remove_slots U m)) (spec x) \<mu>' (spec x')"
      by (auto simp: instances_pass_def)
    with key [OF Some] Some show ?thesis by (simp add: instance_pass_pruned)
  qed
qed

lemma store_pass_ok:
  assumes pass: "store_pass grace node U C \<mu> st \<mu>' st'" and st: "slots_ok st"
  shows "slots_ok st'"
proof -
  have old: "\<exists>x. st k = Some x \<and> (instance_wf (spec x) \<longrightarrow> instance_wf (spec x'))
      \<and> (\<forall>s. slot_owner (spec x) s = None \<longrightarrow> slot_owner (spec x') s = None)" if "st' k = Some x'" for k x'
    using pass [unfolded store_pass_def, rule_format, of k] that
    by (auto simp: instance_pass_def option_rel_Some2 simp del: not_None_eq)
  show ?thesis
    unfolding slots_ok_def
  proof (intro conjI ballI allI impI, goal_cases)
    case (1 x')
    then obtain k where "st' k = Some x'" by (auto simp: ran_def)
    from old [OF this] st show ?case unfolding slots_ok_def by (metis ranI)
  next
    case (2 k k' x x' s)
    from old [OF 2(1)] old [OF 2(2)] 2(3,4) st show ?case unfolding slots_ok_def by metis
  qed
qed

context calm_store
begin

lemma wp_reconcile_pass:
  assumes w: "calm w" and node: "node \<in> N" and st: "slots_ok (insts w)"
  shows "wp (reconcile node grace instant_now (return (Ok usage)) ki m) (\<lambda>r w'. \<exists>m'. r = Ok m' \<and> calm w'
     \<and> store_pass grace node (set usage) C (map_of m) (insts w) (map_of m') (insts w')) w"
proof -
  have gi: "wp (get_instances ki) (\<lambda>r w1. \<exists>xs. r = Ok xs \<and> calm w1 \<and> insts w1 = insts w
      \<and> set xs = ran (insts w) \<and> distinct (map instance_key xs)) w"
    using wp_conj [THEN iffD2, OF conjI [OF calm_get [OF w] wp_conj [THEN iffD2, OF conjI [OF get_instances_law get_instances_ok]]]]
    by (rule wp_mono) (auto simp: is_ok_iff)
  have fp: "wp (find_pods_with_field ki (node_field_selector node)) (\<lambda>r w2. \<exists>ps. r = Ok ps \<and> \<not> list_ex unready ps
      \<and> calm w2 \<and> insts w2 = insts w) w1" if "calm w1" "insts w1 = insts w" for w1
    using wp_conj [THEN iffD2, OF conjI [OF calm_pods [OF that(1) node] find_pods_with_field_law]]
    by (rule wp_mono) (use that(2) in auto)
  have key: "instance_key x = k" if "insts w k = Some x" for k x
    using insts_named [of w "fst k" "snd k" x] that by (simp add: stored_as_def instance_key_def prod_eq_iff)
  have loop: "wp (reconcile_instances node grace instant_now ki usage xs (remove_slots usage m)) (\<lambda>r w'. \<exists>m'. r = Ok m'
      \<and> calm w' \<and> store_pass grace node (set usage) C (map_of m) (insts w) (map_of m') (insts w')) w2"
    if "calm w2" and w2: "insts w2 = insts w" and xs: "set xs = ran (insts w)" "distinct (map instance_key xs)" for xs w2
  proof (rule wp_mono [OF wp_instances_pass [OF that(1) _ xs(2)]], goal_cases)
    case 1
    then show ?case using st key by (auto simp: xs(1) w2 slots_ok_def ran_def)
  next
    case 2
    then show ?case by (simp add: untracked_def remove_slots_get)
  next
    case 3
    have "insts w (instance_key x) = Some x" if "x \<in> set xs" for x
      using that key unfolding xs(1) ran_def by blast
    then show ?case using st unfolding slots_apart_def slots_ok_def by metis
  next
    case (4 r w')
    then show ?case using instances_pass_store [OF _ key xs(1)] unfolding w2 by blast
  qed
  show ?thesis
    unfolding reconcile_def Let_def wp_bind wp_return result.case
    by (rule wp_mono [OF gi]) (auto intro!: loop wp_mono [OF fp])
qed

end

text \<open>What a sequence of passes does to an Instance and to the maps of the Agents.\<close>

definition instance_run :: "nat \<Rightarrow> (string \<Rightarrow> string list) \<Rightarrow> string list \<Rightarrow> (nat \<Rightarrow> bool)
    \<Rightarrow> (string \<Rightarrow> removal_slot_map) \<Rightarrow> Instance \<Rightarrow> (string \<Rightarrow> removal_slot_map) \<Rightarrow> Instance \<Rightarrow> bool" where
  "instance_run grace usage ns C ms i ms' i' \<longleftrightarrow>
     (\<forall>s. slot_owner i s = None \<longrightarrow> slot_owner i' s = None)
   \<and> (\<forall>s own. slot_owner i s = Some own \<longrightarrow> (\<exists>ts own'. length ts = length ns \<and> list_all C ts \<and> slot_owner i' s = Some own'
        \<and> slot_run grace (\<lambda>n. s \<in> set (usage n)) (zip ns ts) (own, \<lambda>n. map_of (ms n) s) = (own', \<lambda>n. map_of (ms' n) s)))"

definition store_run :: "nat \<Rightarrow> (string \<Rightarrow> string list) \<Rightarrow> string list \<Rightarrow> (nat \<Rightarrow> bool)
    \<Rightarrow> (string \<Rightarrow> removal_slot_map) \<Rightarrow> inst_store \<Rightarrow> (string \<Rightarrow> removal_slot_map) \<Rightarrow> inst_store \<Rightarrow> bool" where
  "store_run grace usage ns C ms st ms' st' \<longleftrightarrow>
     (\<forall>k. rel_option (\<lambda>x x'. instance_run grace usage ns C ms (spec x) ms' (spec x')) (st k) (st' k))"

lemma instance_run_Nil: "instance_run grace usage [] C ms i ms i"
  by (auto simp: instance_run_def)

lemma instance_run_Cons:
  assumes p: "instance_pass grace n (set (usage n)) C (map_of (ms n)) i (map_of m) i'"
    and r: "instance_run grace usage ns C (ms(n := m)) i' ms'' i''"
  shows "instance_run grace usage (n # ns) C ms i ms'' i''"
  unfolding instance_run_def
proof (intro conjI allI impI, goal_cases)
  case (1 s)
  with p r show ?case by (simp add: instance_pass_def instance_run_def)
next
  case (2 s own)
  from instance_passD [OF p 2] obtain t own' where t: "C t" "slot_owner i' s = Some own'"
    "slot_pass grace n (s \<in> set (usage n)) t (own, map_of (ms n) s) = (own', map_of m s)" by blast
  from r t(2) obtain ts own'' where ts: "length ts = length ns" "list_all C ts" "slot_owner i'' s = Some own''"
    "slot_run grace (\<lambda>n. s \<in> set (usage n)) (zip ns ts) (own', \<lambda>k. map_of ((ms(n := m)) k) s) = (own'', \<lambda>k. map_of (ms'' k) s)"
    unfolding instance_run_def by blast
  have "(\<lambda>k. map_of ((ms(n := m)) k) s) = (\<lambda>k. map_of (ms k) s)(n := map_of m s)" by auto
  with t ts show ?case by (intro exI [of _ "t # ts"] exI [of _ own'']) simp
qed

lemma store_run_Cons:
  assumes "store_pass grace n (set (usage n)) C (map_of (ms n)) st (map_of m) st'"
    and "store_run grace usage ns C (ms(n := m)) st' ms'' st''"
  shows "store_run grace usage (n # ns) C ms st ms'' st''"
  unfolding store_run_def
proof
  fix k
  from assms [unfolded store_pass_def store_run_def, THEN spec, of k]
  show "rel_option (\<lambda>x x'. instance_run grace usage (n # ns) C ms (spec x) ms'' (spec x')) (st k) (st'' k)"
    by (cases "st k"; cases "st' k"; cases "st'' k") (auto intro: instance_run_Cons)
qed

text \<open>The passes refine the runs of the single slots.\<close>

context calm_store
begin

lemma wp_reconcile_all:
  assumes "calm w" "set ns \<subseteq> N" "slots_ok (insts w)"
  shows "wp (reconcile_all grace instant_now ki usage ns ms) (\<lambda>r w'. \<exists>ms'. r = Ok ms' \<and> calm w' \<and> slots_ok (insts w')
     \<and> store_run grace usage ns C ms (insts w) ms' (insts w')) w"
  using assms
proof (induction ns arbitrary: w ms)
  case Nil
  then show ?case by (simp add: store_run_def instance_run_Nil option.rel_refl)
next
  case (Cons n ns)
  have n: "n \<in> N" using Cons.prems(2) by simp
  show ?case
    unfolding reconcile_all.simps wp_try_then
  proof (rule wp_mono [OF wp_reconcile_pass [OF Cons.prems(1) n Cons.prems(3)]], clarify, goal_cases)
    case (1 r w1 m)
    have "set ns \<subseteq> N" using Cons.prems(2) by simp
    from Cons.IH [OF 1(1) this store_pass_ok [OF 1(2) Cons.prems(3)], of "ms(n := m)"]
    show ?case
      unfolding result.case by (rule wp_mono) (use store_run_Cons [where usage = usage and ms = ms, OF 1(2)] in blast)
  qed
qed

end

section \<open>Convergence\<close>

text \<open>Two rounds of passes with a pause between them.\<close>

definition reconcile_twice :: "nat \<Rightarrow> ('w, nat) state \<Rightarrow> 'w kube_interface \<Rightarrow> (string \<Rightarrow> string list) \<Rightarrow> ('w, unit) state
    \<Rightarrow> string list \<Rightarrow> string list \<Rightarrow> (string \<Rightarrow> removal_slot_map) \<Rightarrow> ('w, string \<Rightarrow> removal_slot_map) io" where
  "reconcile_twice grace now ki usage pause ns ns' ms =
     try_then (reconcile_all grace now ki usage ns ms) (\<lambda>ms'. do {
       _ \<leftarrow> pause;
       reconcile_all grace now ki usage ns' ms'
     })"

lemma instance_run_converges:
  assumes r1: "instance_run grace usage ns1 (\<lambda>t. t \<le> T) ms i ms1 i1"
    and r2: "instance_run grace usage ns2 (\<lambda>t. T + grace < t) ms1 i1 ms2 i2"
    and ns: "set ns1 = set ns" "set ns2 = set ns" "'''' \<notin> set ns"
    and once: "\<forall>n \<in> set ns. \<forall>n' \<in> set ns. \<forall>s. s \<in> set (usage n) \<longrightarrow> s \<in> set (usage n') \<longrightarrow> n = n'"
    and past: "\<forall>n \<in> set ns. \<forall>s t. map_of (ms n) s = Some t \<longrightarrow> t \<le> T"
  shows "slot_owner i2 s = map_option (true_owner ns (\<lambda>n. s \<in> set (usage n))) (slot_owner i s)"
proof (cases "slot_owner i s")
  case None
  with r1 r2 show ?thesis by (simp add: instance_run_def)
next
  case (Some own)
  let ?used = "\<lambda>n. s \<in> set (usage n)"
  from r1 Some obtain ts own1 where ts: "length ts = length ns1" "list_all (\<lambda>t. t \<le> T) ts" "slot_owner i1 s = Some own1"
    "slot_run grace ?used (zip ns1 ts) (own, \<lambda>n. map_of (ms n) s) = (own1, \<lambda>n. map_of (ms1 n) s)"
    unfolding instance_run_def by blast
  from r2 ts(3) obtain us own2 where us: "length us = length ns2" "list_all (\<lambda>t. T + grace < t) us" "slot_owner i2 s = Some own2"
    "slot_run grace ?used (zip ns2 us) (own1, \<lambda>n. map_of (ms1 n) s) = (own2, \<lambda>n. map_of (ms2 n) s)"
    unfolding instance_run_def by blast
  have fst_zip: "fst ` set (zip xs ys) = set xs" if "length ys = length xs" for xs :: "string list" and ys :: "nat list"
    using that by (metis list.set_map map_fst_zip)
  have snd_zip: "\<forall>p \<in> set (zip xs ys). P (snd p)" if "list_all P ys" for xs :: "string list" and ys P
    using that by (auto simp: list_all_iff dest: set_zip_rightD)
  have "fst (slot_run grace ?used (zip ns1 ts @ zip ns2 us) (own, \<lambda>n. map_of (ms n) s)) = true_owner ns ?used own"
    by (rule slot_run_converges [where T = T])
       (use ns once past fst_zip ts(1) us(1) snd_zip [OF ts(2)] snd_zip [OF us(2)] in \<open>simp_all\<close>)
  then show ?thesis by (simp add: slot_run_append ts(4) us(3,4) Some)
qed

text \<open>The executable cluster is calm while its clock, which only the pause moves, reads a time of \<open>C\<close>.\<close>

definition clock_reading :: "('a cluster_scheme, nat) state" where
  "clock_reading = State (\<lambda>w. (cl_clock w, w))"

definition pause_until :: "nat \<Rightarrow> ('a cluster_scheme, unit) state" where
  "pause_until t = State (\<lambda>w. ((), w\<lparr>cl_clock := t\<rparr>))"

definition calm_at :: "(nat \<Rightarrow> bool) \<Rightarrow> 'a cluster_scheme \<Rightarrow> bool" where
  "calm_at C w \<longleftrightarrow> C (cl_clock w) \<and> \<not> list_ex unready (listed (cl_pods w))"

lemma listed_keys: "map instance_key (listed m) = map fst (AList.clearjunk m)"
  by (simp add: listed_def instance_key_def named_def split_def comp_def)

lemma cluster_patch_calm: "cluster_patch (instance_api ns) nm (BodyInstance x) w = (r, w') \<Longrightarrow> calm_at C w \<Longrightarrow> calm_at C w'"
  by (auto simp: put_instance_def calm_at_def split: option.splits if_splits)

interpretation calm_cluster: calm_store cluster_kube cluster_insts clock_reading "calm_at C" C N for C N
proof (unfold_locales, goal_cases)
  case (1 w)
  then show ?case by (simp add: clock_reading_def wp_def)
next
  case (2 w)
  then show ?case by (simp add: clock_reading_def wp_def calm_at_def)
next
  case (3 w)
  then show ?case
    by (simp add: instance_get_instances_def wp_api_call cluster_list_def listed_keys distinct_clearjunk)
next
  case (4 w node)
  then show ?case
    by (auto simp: find_pods_with_selector_def wp_api_call cluster_list_def calm_at_def list_ex_iff typed_api_def
        instance_resource_def configuration_resource_def)
next
  case (5 w i nm ns)
  then show ?case
    by (auto simp: instance_update_instance_def instance_find_instance_def wp_api_call cluster_get_def get_named_def
        split: option.splits prod.splits result.split dest: cluster_patch_calm simp del: cluster_patch.simps)
qed

text \<open>
  C2: Slot reconciliation converges. Whatever owners the cluster has on record (lost
  allocations, a slot that two nodes were told they hold, slots of containers that are gone):
  when the cluster is calm, two rounds in which the Agent of every node makes at least one
  pass, in any order, the second more than the grace period after the first, leave every slot
  of every Instance with its true owner. That is the node whose containers use it; a slot that
  no node uses is free, unless its owner is none of the nodes that reconcile. No slot appears
  or disappears.
\<close>

theorem reconciliation_converges:
  assumes early: "calm_store ki insts now calm (\<lambda>t. t \<le> T) (set ns)"
    and late: "calm_store ki insts now calm' (\<lambda>t. T + grace < t) (set ns)"
    and pause: "\<forall>w. calm w \<longrightarrow> wp pause (\<lambda>_ w'. calm' w' \<and> insts w' = insts w) w"
    and w: "calm w" "slots_ok (insts w)"
    and ns: "set ns1 = set ns" "set ns2 = set ns" "'''' \<notin> set ns"
    and once: "\<forall>n \<in> set ns. \<forall>n' \<in> set ns. \<forall>s. s \<in> set (usage n) \<longrightarrow> s \<in> set (usage n') \<longrightarrow> n = n'"
    and past: "\<forall>n \<in> set ns. \<forall>s t. map_of (ms n) s = Some t \<longrightarrow> t \<le> T"
    and run: "run_state (reconcile_twice grace now ki usage pause ns1 ns2 ms) w = (r, w')"
  shows "is_ok r \<and> (\<forall>k. rel_option (\<lambda>x x'. \<forall>s. slot_owner (spec x') s
     = map_option (true_owner ns (\<lambda>n. s \<in> set (usage n))) (slot_owner (spec x) s)) (insts w k) (insts w' k))"
proof -
  let ?goal = "\<lambda>w'. \<forall>k. rel_option (\<lambda>x x'. \<forall>s. slot_owner (spec x') s
     = map_option (true_owner ns (\<lambda>n. s \<in> set (usage n))) (slot_owner (spec x) s)) (insts w k) (insts w' k)"
  have second: "?goal w2" if r1: "store_run grace usage ns1 (\<lambda>t. t \<le> T) ms (insts w) ms1 st1"
    and r2: "store_run grace usage ns2 (\<lambda>t. T + grace < t) ms1 st1 ms2 (insts w2)" for ms1 st1 ms2 w2
  proof
    fix k
    from r1 r2 have "rel_option (\<lambda>x x'. instance_run grace usage ns1 (\<lambda>t. t \<le> T) ms (spec x) ms1 (spec x')) (insts w k) (st1 k)"
      "rel_option (\<lambda>x x'. instance_run grace usage ns2 (\<lambda>t. T + grace < t) ms1 (spec x) ms2 (spec x')) (st1 k) (insts w2 k)"
      by (simp_all add: store_run_def)
    then show "rel_option (\<lambda>x x'. \<forall>s. slot_owner (spec x') s
        = map_option (true_owner ns (\<lambda>n. s \<in> set (usage n))) (slot_owner (spec x) s)) (insts w k) (insts w2 k)"
      by (cases "insts w k"; cases "st1 k"; cases "insts w2 k") (auto dest: instance_run_converges [OF _ _ ns once past])
  qed
  have "wp (reconcile_twice grace now ki usage pause ns1 ns2 ms) (\<lambda>r w'. is_ok r \<and> ?goal w') w"
    unfolding reconcile_twice_def wp_try_then
  proof (rule wp_mono [OF calm_store.wp_reconcile_all [OF early w(1) _ w(2)]], goal_cases)
    case (2 r w1)
    then obtain ms1 where r: "r = Ok ms1" and w1: "calm w1" "slots_ok (insts w1)"
      and r1: "store_run grace usage ns1 (\<lambda>t. t \<le> T) ms (insts w) ms1 (insts w1)" by blast
    have "wp (reconcile_all grace now ki usage ns2 ms1) (\<lambda>r w'. is_ok r \<and> ?goal w') w2"
      if "calm' w2" "insts w2 = insts w1" for w2
      by (rule wp_mono [OF calm_store.wp_reconcile_all [OF late that(1)]])
         (use ns(2) w1(2) that(2) second [OF r1] in auto)
    with pause w1(1) show ?case by (auto simp: r elim!: wp_mono)
  qed (use ns in simp)
  from wp_run [OF this run] show ?thesis .
qed

theorem reconciliation_converges_witness:
  "\<exists>r w' x'. run_state (reconcile_twice 300 clock_reading cluster_kube (\<lambda>n. if n = ''node-b'' then [''cam-0''] else [])
       (pause_until 1400) [''node-a'', ''node-b''] [''node-b'', ''node-a''] (\<lambda>_. [])) sample_cluster = (r, w')
     \<and> is_ok r \<and> cluster_insts w' (''cam'', ''ns'') = Some x'
     \<and> slot_owner (spec x') ''cam-0'' = Some ''node-b'' \<and> slot_owner (spec x') ''cam-1'' = Some ''''"
proof -
  let ?usage = "\<lambda>n. if n = ''node-b'' then [''cam-0''] else []"
  let ?run = "run_state (reconcile_twice 300 clock_reading cluster_kube ?usage
       (pause_until 1400) [''node-a'', ''node-b''] [''node-b'', ''node-a''] (\<lambda>_. [])) sample_cluster"
  obtain r w' where run: "?run = (r, w')" by (cases ?run)
  have pause: "\<forall>w. calm_at (\<lambda>t. t \<le> 1000) w \<longrightarrow>
      wp (pause_until 1400) (\<lambda>_ w'. calm_at (\<lambda>t. 1000 + 300 < t) w' \<and> cluster_insts w' = cluster_insts w) w"
    by (simp add: pause_until_def wp_def calm_at_def)
  have w: "calm_at (\<lambda>t. t \<le> 1000) sample_cluster"
    by (simp add: calm_at_def sample_cluster_def listed_def)
  have ok: "slots_ok (cluster_insts sample_cluster)"
    using sample_wf by (simp add: slots_ok_def sample_insts)
  have goal: "is_ok r \<and> (\<forall>k. rel_option (\<lambda>x x'. \<forall>s. slot_owner (spec x') s
     = map_option (true_owner [''node-a'', ''node-b''] (\<lambda>n. s \<in> set (?usage n))) (slot_owner (spec x) s))
     (cluster_insts sample_cluster k) (cluster_insts w' k))"
    by (rule reconciliation_converges [where ns = "[''node-a'', ''node-b'']", OF calm_cluster.calm_store_axioms
          calm_cluster.calm_store_axioms pause w ok _ _ _ _ _ run]) auto
  from this [THEN conjunct2, rule_format, of "(''cam'', ''ns'')"] have "rel_option (\<lambda>x x'. \<forall>s. slot_owner (spec x') s
     = map_option (true_owner [''node-a'', ''node-b''] (\<lambda>n. s \<in> set (?usage n))) (slot_owner (spec x) s))
     (Some sample_object) (cluster_insts w' (''cam'', ''ns''))" by (simp add: sample_insts)
  then obtain x' where "cluster_insts w' (''cam'', ''ns'') = Some x'" "\<forall>s. slot_owner (spec x') s
     = map_option (true_owner [''node-a'', ''node-b''] (\<lambda>n. s \<in> set (?usage n))) (slot_owner sample_instance s)"
    by (auto simp: option_rel_Some1)
  with goal run show ?thesis by (auto simp: sample_instance_def true_owner_def)
qed

declare split_paired_All [simp] split_paired_Ex [simp]

end
