(* ===== verification/Udev_Rule.thy ===== *)
theory Udev_Rule
  imports Akri_Prelude
begin

text \<open>
  The udev rules of a Configuration: the grammar \<open>agent/src/protocols/udev/udev_rule_grammar.pest\<close>
  rule by rule, and \<open>parse_udev_rule\<close> of \<open>udev/discovery_impl.rs\<close>. A rule of the grammar is
  a function that returns what it matched and the rest of the input, or nothing; choices are
  ordered and repetitions greedy, as in pest. Between the parts of a normal rule, and between
  the repetitions in it, pest skips \<open>WHITESPACE\<close>; \<open>udev_filter\<close> is atomic (\<open>$\<close>) with all it
  calls, except that \<open>key\<close> and \<open>value\<close> skip again (\<open>!\<close>). Rules are ASCII text here, so
  \<open>SPACE_SEPARATOR\<close> is the blank alone.
\<close>

section \<open>The parse tree\<close>

text \<open>The alternatives of \<open>field\<close> with their key, and of \<open>operation\<close>.\<close>

datatype Rule_field =
    Rule_attributes string
  | Rule_attribute string
  | Rule_devpath
  | Rule_drivers
  | Rule_driver
  | Rule_kernels
  | Rule_kernel
  | Rule_property string
  | Rule_subsystems
  | Rule_subsystem
  | Rule_tags
  | Rule_tag
  | Rule_unsupported_field string

datatype Rule_action = Rule_addition | Rule_removal | Rule_final_assignment | Rule_assignment

datatype Rule_operation = Rule_equality | Rule_inequality | Rule_action_operation Rule_action

record UdevFilter =
  uf_field :: Rule_field
  uf_operation :: Rule_operation
  uf_value :: string

section \<open>The grammar\<close>

text \<open>A literal, and the skipping of \<open>WHITESPACE\<close>.\<close>

fun lit :: "string \<Rightarrow> string \<Rightarrow> string option" where
  "lit [] s = Some s"
| "lit (c # p) [] = None"
| "lit (c # p) (d # s) = (if c = d then lit p s else None)"

definition skip :: "string \<Rightarrow> string" where
  "skip s = dropWhile (\<lambda>c. c = CHR '' '') s"

definition ascii_alphanumeric :: "char \<Rightarrow> bool" where
  "ascii_alphanumeric c \<longleftrightarrow> (let n = (of_char c :: nat) in
     48 \<le> n \<and> n \<le> 57 \<or> 65 \<le> n \<and> n \<le> 90 \<or> 97 \<le> n \<and> n \<le> 122)"

definition key_char :: "char \<Rightarrow> bool" where
  "key_char c \<longleftrightarrow> ascii_alphanumeric c \<or> c \<in> set '' $._*?[]-|/'' \<or> c = CHR 0x5C"

definition value_char :: "char \<Rightarrow> bool" where
  "value_char c \<longleftrightarrow> ascii_alphanumeric c \<or> c \<in> set '' $._*:?[]-|/%{}'' \<or> c = CHR 0x5C"

text \<open>
  A repeated character class in a rule that skips: the first character is matched where it
  stands, every further one after skipping, and a blank that is followed by no further
  character is given back.
\<close>

lemma length_skip: "length (skip s) \<le> length s"
  by (simp add: skip_def length_dropWhile_le)

lemma skip_Cons_length: "skip s = c # r \<Longrightarrow> length r < length s"
  using length_skip [of s] by simp

function chars_rest :: "(char \<Rightarrow> bool) \<Rightarrow> string \<Rightarrow> string" where
  "chars_rest P s = (case skip s of
       c # s' \<Rightarrow> if P c then chars_rest P s' else s
     | [] \<Rightarrow> s)"
  by pat_completeness auto
termination
  by (relation "measure (\<lambda>(P, s). length s)") (auto dest: skip_Cons_length)

declare chars_rest.simps [simp del]

definition chars_many :: "(char \<Rightarrow> bool) \<Rightarrow> string \<Rightarrow> string \<times> string" where
  "chars_many P s =
     (let r = (case s of c # s' \<Rightarrow> if P c then chars_rest P s' else s | [] \<Rightarrow> s)
      in (take (length s - length r) s, r))"

definition bounded_key :: "string \<Rightarrow> (string \<times> string) option" where
  "bounded_key s = do {
     s1 \<leftarrow> lit ''{'' s;
     let (key, s2) = chars_many key_char s1;
     s3 \<leftarrow> lit ''}'' s2;
     Some (key, s3)
   }"

definition quoted_value :: "string \<Rightarrow> (string \<times> string) option" where
  "quoted_value s = do {
     s1 \<leftarrow> lit [CHR 0x22] s;
     let (v, s2) = chars_many value_char s1;
     s3 \<leftarrow> lit [CHR 0x22] s2;
     Some (v, s3)
   }"

text \<open>
  Ordered choice over keywords: a keyword that stands alone, with the node it builds, or one
  that needs a key. The name of an unsupported field is the text it matched.
\<close>

datatype 'a keyword = Plain string 'a | Keyed string "string \<Rightarrow> 'a"

fun match_keyword :: "'a keyword \<Rightarrow> string \<Rightarrow> ('a \<times> string) option" where
  "match_keyword (Plain w a) s = map_option (Pair a) (lit w s)"
| "match_keyword (Keyed w f) s = do { s1 \<leftarrow> lit w s; (k, s2) \<leftarrow> bounded_key s1; Some (f k, s2) }"

fun choice :: "'a keyword list \<Rightarrow> string \<Rightarrow> ('a \<times> string) option" where
  "choice [] s = None"
| "choice (k # ks) s = (case match_keyword k s of Some r \<Rightarrow> Some r | None \<Rightarrow> choice ks s)"

definition with_key :: "string \<Rightarrow> string \<Rightarrow> string" where
  "with_key w k = w @ ''{'' @ k @ ''}''"

abbreviation unsupported_plain :: "string \<Rightarrow> Rule_field keyword" where
  "unsupported_plain w \<equiv> Plain w (Rule_unsupported_field w)"

abbreviation unsupported_keyed :: "string \<Rightarrow> Rule_field keyword" where
  "unsupported_keyed w \<equiv> Keyed w (\<lambda>k. Rule_unsupported_field (with_key w k))"

definition action_field :: "Rule_field keyword list" where
  "action_field = [unsupported_plain ''LABEL'', unsupported_plain ''GOTO'', unsupported_plain ''GROUP'',
     unsupported_keyed ''IMPORT'', unsupported_plain ''OPTIONS'', unsupported_plain ''OWNER'',
     unsupported_plain ''MODE'', unsupported_keyed ''RUN'', unsupported_plain ''WAIT_FOR'']"

definition unsupported_field :: "Rule_field keyword list" where
  "unsupported_field = unsupported_plain ''ACTION'' # action_field @
     [unsupported_keyed ''CONST'', unsupported_plain ''NAME'', unsupported_plain ''PROGRAM'',
      unsupported_plain ''RESULT'', unsupported_keyed ''SECLABEL'', unsupported_plain ''SYMLINK'',
      unsupported_keyed ''SYSCTL'', unsupported_keyed ''TEST'']"

definition supported_field :: "Rule_field keyword list" where
  "supported_field = [Keyed ''ATTRS'' Rule_attributes, Keyed ''ATTR'' Rule_attribute,
     Plain ''DEVPATH'' Rule_devpath, Plain ''DRIVERS'' Rule_drivers, Plain ''DRIVER'' Rule_driver,
     Plain ''KERNELS'' Rule_kernels, Plain ''KERNEL'' Rule_kernel, Keyed ''ENV'' Rule_property,
     Plain ''SUBSYSTEMS'' Rule_subsystems, Plain ''SUBSYSTEM'' Rule_subsystem,
     Plain ''TAGS'' Rule_tags, Plain ''TAG'' Rule_tag]"

definition field_rule :: "Rule_field keyword list" where
  "field_rule = unsupported_field @ supported_field"

definition operation_rule :: "Rule_operation keyword list" where
  "operation_rule = [Plain ''=='' Rule_equality, Plain ''!='' Rule_inequality,
     Plain ''+='' (Rule_action_operation Rule_addition), Plain ''-='' (Rule_action_operation Rule_removal),
     Plain '':='' (Rule_action_operation Rule_final_assignment),
     Plain ''='' (Rule_action_operation Rule_assignment)]"

definition udev_filter :: "string \<Rightarrow> (UdevFilter \<times> string) option" where
  "udev_filter s = do {
     (f, s1) \<leftarrow> choice field_rule s;
     (opn, s2) \<leftarrow> choice operation_rule s1;
     (v, s3) \<leftarrow> quoted_value s2;
     Some (\<lparr>uf_field = f, uf_operation = opn, uf_value = v\<rparr>, s3)
   }"

section \<open>Matching takes input\<close>

lemma lit_length: "lit p s = Some r \<Longrightarrow> length s = length p + length r"
  by (induction p s rule: lit.induct) (auto split: if_splits)

lemma chars_rest_length: "length (chars_rest P s) \<le> length s"
proof (induction P s rule: chars_rest.induct)
  case (1 P s)
  show ?case using 1 length_skip [of s]
    by (subst chars_rest.simps) (fastforce split: list.split)
qed

lemma chars_many_length: "chars_many P s = (v, r) \<Longrightarrow> length r \<le> length s"
  using chars_rest_length [of P "tl s"] by (auto simp: chars_many_def Let_def split: list.splits if_splits)

lemma bounded_key_length: "bounded_key s = Some (k, r) \<Longrightarrow> length r < length s"
  by (auto simp: bounded_key_def Let_def split: Option.bind_splits prod.splits dest!: lit_length chars_many_length)

lemma quoted_value_length: "quoted_value s = Some (k, r) \<Longrightarrow> length r < length s"
  by (auto simp: quoted_value_def Let_def split: Option.bind_splits prod.splits dest!: lit_length chars_many_length)

lemma match_keyword_length: "match_keyword k s = Some (a, r) \<Longrightarrow> length r \<le> length s"
  by (cases k) (fastforce split: Option.bind_splits dest!: lit_length bounded_key_length)+

lemma choice_length: "choice ks s = Some (a, r) \<Longrightarrow> length r \<le> length s"
  by (induction ks) (auto split: option.splits dest!: match_keyword_length)

lemma udev_filter_length: "udev_filter s = Some (f, r) \<Longrightarrow> length r < length s"
  by (fastforce simp: udev_filter_def split: Option.bind_splits dest!: choice_length quoted_value_length)

section \<open>Filters, rules and the whole input\<close>

text \<open>\<open>"," ~ udev_filter\<close>, then its repetition inside \<open>inner_rule\<close>, then that of \<open>inner_rule\<close> itself.\<close>

definition comma_filter :: "string \<Rightarrow> (UdevFilter \<times> string) option" where
  "comma_filter s = do { s1 \<leftarrow> lit '','' s; udev_filter (skip s1) }"

lemma comma_filter_length: "comma_filter s = Some (f, r) \<Longrightarrow> length r < length s"
  using length_skip [of "the (lit '','' s)"]
  by (auto simp: comma_filter_def split: Option.bind_splits dest!: lit_length udev_filter_length)

lemma comma_filter_skip_length: "comma_filter (skip s) = Some (f, r) \<Longrightarrow> length r < length s"
  by (rule less_le_trans [OF comma_filter_length length_skip])

function comma_filters :: "string \<Rightarrow> UdevFilter list \<times> string" where
  "comma_filters s = (case comma_filter (skip s) of
       Some (f, r) \<Rightarrow> (let (fs, r') = comma_filters r in (f # fs, r'))
     | None \<Rightarrow> ([], s))"
  by pat_completeness auto
termination
  by (relation "measure length") (auto dest: comma_filter_skip_length)

declare comma_filters.simps [simp del]

definition inner_rule :: "string \<Rightarrow> (UdevFilter list \<times> string) option" where
  "inner_rule s = do {
     (f, s1) \<leftarrow> udev_filter s;
     let (fs, s2) = comma_filters (skip s1);
     Some (f # fs, s2)
   }"

lemma comma_filters_length: "comma_filters s = (fs, r) \<Longrightarrow> length r \<le> length s"
proof (induction s arbitrary: fs r rule: comma_filters.induct)
  case (1 s)
  then show ?case
    by (subst (asm) comma_filters.simps)
       (fastforce split: option.splits prod.splits dest!: comma_filter_skip_length)
qed

lemma inner_rule_length: "inner_rule s = Some (fs, r) \<Longrightarrow> length r < length s"
  using length_skip
  by (fastforce simp: inner_rule_def Let_def split: Option.bind_splits prod.splits
      dest!: udev_filter_length comma_filters_length intro: le_less_trans)

lemma inner_rule_skip_length: "inner_rule (skip s) = Some (f, r) \<Longrightarrow> length r < length s"
  by (rule less_le_trans [OF inner_rule_length length_skip])

function inner_rules :: "string \<Rightarrow> UdevFilter list list \<times> string" where
  "inner_rules s = (case inner_rule (skip s) of
       Some (fs, r) \<Rightarrow> (let (rest, r') = inner_rules r in (fs # rest, r'))
     | None \<Rightarrow> ([], s))"
  by pat_completeness auto
termination
  by (relation "measure length") (auto dest: inner_rule_skip_length)

declare inner_rules.simps [simp del]

text \<open>\<open>SOI ~ (inner_rule)* ~ EOI\<close>\<close>

definition udev_rule :: "string \<Rightarrow> UdevFilter list list option" where
  "udev_rule s = (let (rules, r) = inner_rules (skip s) in if skip r = [] then Some rules else None)"

section \<open>Rules of a Configuration\<close>

text \<open>
  \<open>parse_udev_rule\<close> goes into the first \<open>inner_rule\<close> of the parse tree, or into \<open>EOI\<close> when
  there is none, and leaves at the first filter it cannot handle.
\<close>

text \<open>
  The text of the pairs inside a field: only the fields with a key have one, in its braces. The
  operation of the message is printed by the name of its grammar rule.
\<close>

definition inner_text :: "Rule_field \<Rightarrow> string" where
  "inner_text f = (case f of
       Rule_attributes k \<Rightarrow> with_key [] k
     | Rule_attribute k \<Rightarrow> with_key [] k
     | Rule_property k \<Rightarrow> with_key [] k
     | _ \<Rightarrow> [])"

definition unsupported_operation :: "UdevFilter \<Rightarrow> error" where
  "unsupported_operation f = Msg (concat [''parse_udev_rule - unsupported action operation for rule with field ['',
     inner_text (uf_field f), ''], operation [action_operation], and value['', uf_value f, '']''])"

fun push_udev_filters :: "UdevFilter list \<Rightarrow> UdevFilter list \<Rightarrow> (UdevFilter list, error) result" where
  "push_udev_filters [] udev_filters = Ok udev_filters"
| "push_udev_filters (f # fs) udev_filters =
     (case uf_field f of
        Rule_unsupported_field w \<Rightarrow> Err (Msg (''parse_udev_rule - unsupported field '' @ w))
      | _ \<Rightarrow> (case uf_operation f of
            Rule_action_operation _ \<Rightarrow> Err (unsupported_operation f)
          | _ \<Rightarrow> push_udev_filters fs (udev_filters @ [f])))"

definition parse_udev_rule :: "string \<Rightarrow> (UdevFilter list, error) result" where
  "parse_udev_rule udev_rule_string =
     (case udev_rule udev_rule_string of
        None \<Rightarrow> Err (Msg ''parse error'')
      | Some [] \<Rightarrow> Ok []
      | Some (first # _) \<Rightarrow> push_udev_filters first [])"

section \<open>Printing\<close>

text \<open>
  The text of a filter, and of a rule with \<open>n\<close> blanks before and \<open>m\<close> blanks after every comma.
\<close>

fun field_text :: "Rule_field \<Rightarrow> string" where
  "field_text (Rule_attributes k) = with_key ''ATTRS'' k"
| "field_text (Rule_attribute k) = with_key ''ATTR'' k"
| "field_text (Rule_property k) = with_key ''ENV'' k"
| "field_text Rule_devpath = ''DEVPATH''"
| "field_text Rule_drivers = ''DRIVERS''"
| "field_text Rule_driver = ''DRIVER''"
| "field_text Rule_kernels = ''KERNELS''"
| "field_text Rule_kernel = ''KERNEL''"
| "field_text Rule_subsystems = ''SUBSYSTEMS''"
| "field_text Rule_subsystem = ''SUBSYSTEM''"
| "field_text Rule_tags = ''TAGS''"
| "field_text Rule_tag = ''TAG''"
| "field_text (Rule_unsupported_field w) = w"

fun operation_text :: "Rule_operation \<Rightarrow> string" where
  "operation_text Rule_equality = ''==''"
| "operation_text Rule_inequality = ''!=''"
| "operation_text (Rule_action_operation Rule_addition) = ''+=''"
| "operation_text (Rule_action_operation Rule_removal) = ''-=''"
| "operation_text (Rule_action_operation Rule_final_assignment) = '':=''"
| "operation_text (Rule_action_operation Rule_assignment) = ''=''"

definition filter_text :: "UdevFilter \<Rightarrow> string" where
  "filter_text f = field_text (uf_field f) @ operation_text (uf_operation f)
     @ [CHR 0x22] @ uf_value f @ [CHR 0x22]"

definition blanks :: "nat \<Rightarrow> string" where
  "blanks n = replicate n (CHR '' '')"

fun comma_text :: "nat \<Rightarrow> nat \<Rightarrow> UdevFilter list \<Rightarrow> string" where
  "comma_text n m [] = []"
| "comma_text n m (f # fs) = blanks n @ '','' @ blanks m @ filter_text f @ comma_text n m fs"

fun rule_text :: "nat \<Rightarrow> nat \<Rightarrow> UdevFilter list \<Rightarrow> string" where
  "rule_text n m [] = []"
| "rule_text n m (f # fs) = filter_text f @ comma_text n m fs"

text \<open>
  What a key or a value can be: characters of its class, with no blank at the end unless it
  is a single blank. The unsupported fields are the listed keywords, some of them with a key.
\<close>

definition chars_ok :: "(char \<Rightarrow> bool) \<Rightarrow> string \<Rightarrow> bool" where
  "chars_ok P s \<longleftrightarrow> list_all P s \<and> (length s \<le> 1 \<or> last s \<noteq> CHR '' '')"

fun keyword_matches :: "Rule_field keyword \<Rightarrow> Rule_field \<Rightarrow> bool" where
  "keyword_matches (Plain w a) f \<longleftrightarrow> f = a"
| "keyword_matches (Keyed w g) f \<longleftrightarrow> (\<exists>k. chars_ok key_char k \<and> f = g k)"

definition field_ok :: "Rule_field \<Rightarrow> bool" where
  "field_ok f \<longleftrightarrow> list_ex (\<lambda>k. keyword_matches k f) field_rule"

definition filter_ok :: "UdevFilter \<Rightarrow> bool" where
  "filter_ok f \<longleftrightarrow> field_ok (uf_field f) \<and> chars_ok value_char (uf_value f)"

section \<open>The grammar reads what is printed\<close>

lemma lit_append [simp]: "lit p (p @ s) = Some s"
  by (induction p) auto

lemma skip_blanks [simp]: "skip (blanks n @ s) = skip s" "skip (CHR '' '' # s) = skip s"
  by (induction n) (auto simp: skip_def blanks_def)

lemma skip_other [simp]: "c \<noteq> CHR '' '' \<Longrightarrow> skip (c # s) = c # s"
  by (simp add: skip_def)

lemma skip_Nil [simp]: "skip [] = []"
  by (simp add: skip_def)

lemma skip_skip [simp]: "skip (skip s) = skip s"
  by (simp add: skip_def)

lemma chars_rest_text:
  assumes "list_all P v" "v = [] \<or> last v \<noteq> CHR '' ''" "\<not> P c" "c \<noteq> CHR '' ''"
  shows "chars_rest P (v @ c # r) = c # r"
  using assms(1,2)
proof (induction v rule: length_induct)
  case (1 v)
  show ?case
  proof (cases "skip v")
    case Nil
    then have "set v \<subseteq> {CHR '' ''}" by (auto simp: skip_def dropWhile_eq_Nil_conv)
    then have "v = []" using "1.prems" by (metis last_in_set singletonD subsetD)
    then show ?thesis using assms(3,4) by (subst chars_rest.simps) simp
  next
    case (Cons d v')
    define u where "u = takeWhile (\<lambda>c. c = CHR '' '') v"
    have v: "v = u @ d # v'"
      using Cons takeWhile_dropWhile_id [of "\<lambda>c. c = CHR '' ''" v] by (simp add: skip_def u_def)
    have "skip (v @ c # r) = skip v @ c # r"
      using Cons dropWhile_append [of "\<lambda>c. c = CHR '' ''" v] by (fastforce simp: skip_def simp flip: dropWhile_eq_Nil_conv)
    then have "skip (v @ c # r) = d # v' @ c # r" by (simp add: Cons)
    moreover have "chars_rest P (v' @ c # r) = c # r"
      using "1.IH" [rule_format, of v'] "1.prems" v by (auto split: if_splits)
    ultimately show ?thesis using "1.prems" v by (subst chars_rest.simps) simp
  qed
qed

lemma chars_many_text:
  assumes "chars_ok P v" "\<not> P c" "c \<noteq> CHR '' ''"
  shows "chars_many P (v @ c # r) = (v, c # r)"
proof (cases v)
  case (Cons d v')
  then have "chars_rest P (v' @ c # r) = c # r"
    using assms by (intro chars_rest_text) (auto simp: chars_ok_def split: if_splits)
  then show ?thesis using Cons assms by (simp add: chars_many_def chars_ok_def)
qed (use assms in \<open>simp add: chars_many_def\<close>)

lemma key_delimiter: "\<not> key_char (CHR ''}'')" and value_delimiter: "\<not> value_char (CHR 0x22)"
  by (simp_all add: key_char_def value_char_def ascii_alphanumeric_def)

lemma bounded_key_text: "chars_ok key_char k \<Longrightarrow> bounded_key (CHR ''{'' # k @ CHR ''}'' # s) = Some (k, s)"
  by (simp add: bounded_key_def chars_many_text key_delimiter)

lemma quoted_value_text: "chars_ok value_char v \<Longrightarrow> quoted_value (CHR 0x22 # v @ CHR 0x22 # s) = Some (v, s)"
  by (simp add: quoted_value_def chars_many_text value_delimiter)

lemmas field_rule_defs = field_rule_def unsupported_field_def action_field_def supported_field_def

lemma choice_field_text:
  assumes "field_ok f" "CHR ''S'' \<noteq> c"
  shows "choice field_rule (field_text f @ c # s) = Some (f, c # s)"
proof -
  from assms(1) have "list_ex (\<lambda>k. keyword_matches k f) field_rule" by (simp add: field_ok_def)
  then show ?thesis using assms(2) unfolding field_rule_defs append_Cons append_Nil list_ex_Nil_iff list_ex_Cons_iff keyword_matches.simps
    by (elim disjE exE conjE FalseE; hypsubst) (simp_all add: with_key_def bounded_key_text)
qed

lemma choice_operation_text: "c \<noteq> CHR ''='' \<Longrightarrow> choice operation_rule (operation_text opn @ c # s) = Some (opn, c # s)"
  by (cases opn rule: operation_text.cases) (simp_all add: operation_rule_def)

lemma udev_filter_text: "filter_ok f \<Longrightarrow> udev_filter (filter_text f @ s) = Some (f, s)"
proof -
  assume ok: "filter_ok f"
  obtain c w where op: "operation_text (uf_operation f) = c # w" "CHR ''S'' \<noteq> c"
    by (cases "uf_operation f" rule: operation_text.cases) auto
  have "choice field_rule (filter_text f @ s) = Some (uf_field f,
      operation_text (uf_operation f) @ CHR 0x22 # uf_value f @ CHR 0x22 # s)"
    using choice_field_text [OF _ op(2), of "uf_field f"] ok op(1) by (simp add: filter_text_def filter_ok_def)
  then show ?thesis using ok
    by (simp add: udev_filter_def choice_operation_text quoted_value_text filter_ok_def)
qed

text \<open>The text of a filter starts with a letter, so it is not skipped and is not a comma.\<close>

lemma field_text_start: "field_ok f \<Longrightarrow> \<exists>c w. field_text f = c # w \<and> c \<notin> set '' ,''"
  unfolding field_ok_def field_rule_defs append_Cons append_Nil list_ex_Nil_iff list_ex_Cons_iff keyword_matches.simps
  by (elim disjE exE conjE FalseE; hypsubst) (simp_all add: with_key_def)

lemma filter_text_start: "filter_ok f \<Longrightarrow> \<exists>c w. filter_text f = c # w \<and> c \<notin> set '' ,''"
  using field_text_start by (fastforce simp: filter_ok_def filter_text_def)

lemma skip_filter_text [simp]: "filter_ok f \<Longrightarrow> skip (filter_text f @ s) = filter_text f @ s"
  using filter_text_start [of f] by auto

lemma comma_filter_text: "filter_ok f \<Longrightarrow> comma_filter (filter_text f @ s) = None"
  using filter_text_start [of f] by (auto simp: comma_filter_def)

lemma comma_filters_text:
  assumes "list_all filter_ok fs" "comma_filter (skip r) = None"
  shows "comma_filters (comma_text n m fs @ r) = (fs, r)"
  using assms(1)
proof (induction fs)
  case Nil
  then show ?case using assms(2) by (subst comma_filters.simps) simp
next
  case (Cons f fs)
  then show ?case
    by (subst comma_filters.simps) (simp add: comma_filter_def udev_filter_text)
qed

lemma comma_filters_skip: "snd (comma_filters (skip s)) = (if fst (comma_filters s) = [] then skip s else snd (comma_filters s))
    \<and> fst (comma_filters (skip s)) = fst (comma_filters s)"
  by (simp add: comma_filters.simps [of s] comma_filters.simps [of "skip s"] split: option.split prod.split)

lemma inner_rule_text:
  assumes "filter_ok f" "list_all filter_ok fs" "comma_filter (skip r) = None"
  shows "inner_rule (rule_text n m (f # fs) @ r) = Some (f # fs, if fs = [] then skip r else r)"
proof -
  from comma_filters_skip [of "comma_text n m fs @ r"] comma_filters_text [OF assms(2,3), of n m]
  have "comma_filters (skip (comma_text n m fs @ r)) = (fs, if fs = [] then skip r else r)"
    by (cases fs) (auto simp: prod_eq_iff)
  with assms(1) show ?thesis by (simp add: inner_rule_def udev_filter_text)
qed

lemma inner_rule_Nil: "inner_rule [] = None"
  by (simp add: inner_rule_def udev_filter_def field_rule_defs)

text \<open>The text of one rule parses to it; two rules with no comma between them parse to two.\<close>

lemma udev_rule_text:
  assumes "list_all filter_ok fs"
  shows "udev_rule (blanks b @ rule_text n m fs @ blanks e) = Some (if fs = [] then [] else [fs])"
proof (cases fs)
  case Nil
  have "skip (blanks b @ blanks e) = []" using skip_blanks(1) [of e "[]"] by simp
  with Nil show ?thesis by (simp add: udev_rule_def inner_rules.simps inner_rule_Nil)
next
  case (Cons f fs')
  have e: "skip (blanks e) = []" using skip_blanks(1) [of e "[]"] by simp
  have "inner_rule (rule_text n m fs @ blanks e) = Some (fs, if fs' = [] then [] else blanks e)"
    using assms Cons e by (simp add: inner_rule_text comma_filter_def del: rule_text.simps)
  with assms Cons e show ?thesis
    by (simp add: udev_rule_def inner_rules.simps [of "filter_text f @ _"] inner_rules.simps [of "[]"] inner_rules.simps [of "blanks e"] inner_rule_Nil)
qed

lemma udev_rule_two:
  assumes "list_all filter_ok fs" "list_all filter_ok gs" "fs \<noteq> []" "gs \<noteq> []"
  shows "udev_rule (rule_text n m fs @ blanks b @ rule_text n m gs) = Some [fs, gs]"
proof -
  obtain f fs' g gs' where fg: "fs = f # fs'" "gs = g # gs'" using assms(3,4) by (meson neq_Nil_conv)
  then have ok: "filter_ok f" "list_all filter_ok fs'" "filter_ok g" "list_all filter_ok gs'" using assms(1,2) by auto
  have g: "inner_rule (rule_text n m gs) = Some (gs, [])"
    using inner_rule_text [OF ok(3,4), of "[]" n m] fg by (simp add: comma_filter_def)
  have "inner_rules [] = ([], [])" by (simp add: inner_rules.simps inner_rule_Nil)
  then have gg: "inner_rules s = ([gs], [])" if "skip s = rule_text n m gs" for s
    using g that by (simp add: inner_rules.simps [of s])
  have skip: "skip (rule_text n m gs) = rule_text n m gs" "skip (rule_text n m fs @ s) = rule_text n m fs @ s" for s
    using ok fg by simp_all
  have "comma_filter (skip (blanks b @ rule_text n m gs)) = None"
    using ok fg by (simp add: comma_filter_text)
  from inner_rule_text [OF ok(1,2) this, of n m, folded fg]
  have f: "inner_rule (rule_text n m fs @ blanks b @ rule_text n m gs)
      = Some (fs, if fs' = [] then rule_text n m gs else blanks b @ rule_text n m gs)"
    by (simp only: skip skip_blanks)
  show ?thesis
    unfolding udev_rule_def skip by (subst inner_rules.simps) (simp add: skip f gg)
qed

section \<open>Round trip\<close>

text \<open>The filters that discovery can use, and the error for one that it cannot.\<close>

definition usable :: "UdevFilter \<Rightarrow> bool" where
  "usable f \<longleftrightarrow> (case uf_field f of
       Rule_unsupported_field _ \<Rightarrow> False
     | _ \<Rightarrow> (case uf_operation f of Rule_action_operation _ \<Rightarrow> False | _ \<Rightarrow> True))"

definition refusal :: "UdevFilter \<Rightarrow> error" where
  "refusal f = (case uf_field f of
       Rule_unsupported_field w \<Rightarrow> Msg (''parse_udev_rule - unsupported field '' @ w)
     | _ \<Rightarrow> unsupported_operation f)"

lemma push_udev_filters_eq: "push_udev_filters fs acc =
    (case find (\<lambda>f. \<not> usable f) fs of None \<Rightarrow> Ok (acc @ fs) | Some f \<Rightarrow> Err (refusal f))"
proof (induction fs arbitrary: acc)
  case (Cons f fs)
  show ?case
  proof (cases "usable f")
    case True
    then have "push_udev_filters (f # fs) acc = push_udev_filters fs (acc @ [f])"
      by (auto simp: usable_def split: Rule_field.splits Rule_operation.splits)
    with Cons True show ?thesis by (simp split: option.split)
  next
    case False
    then have "push_udev_filters (f # fs) acc = Err (refusal f)"
      by (auto simp: usable_def refusal_def split: Rule_field.splits Rule_operation.splits)
    with False show ?thesis by simp
  qed
qed simp

lemma parse_udev_rule_eq: "udev_rule s = Some (if fs = [] then rest else fs # rest) \<Longrightarrow> fs = [] \<longrightarrow> rest = [] \<Longrightarrow>
    parse_udev_rule s = (case find (\<lambda>f. \<not> usable f) fs of None \<Rightarrow> Ok fs | Some f \<Rightarrow> Err (refusal f))"
  by (auto simp: parse_udev_rule_def push_udev_filters_eq split: if_splits option.split)

text \<open>
  C12: The text of any list of filters, with any number of blanks around the commas and around
  the whole, is parsed back to exactly these filters when discovery supports them all. When
  one of them has an action field or an action operation, the parse is an error, and it names
  the first such filter.
\<close>

theorem parse_udev_rule_text:
  assumes "list_all filter_ok fs"
  shows "parse_udev_rule (blanks b @ rule_text n m fs @ blanks e) =
    (case find (\<lambda>f. \<not> usable f) fs of None \<Rightarrow> Ok fs | Some f \<Rightarrow> Err (refusal f))"
  using udev_rule_text [OF assms] by (intro parse_udev_rule_eq [where rest = "[]"]) simp_all

definition camera_filters :: "UdevFilter list" where
  "camera_filters = [\<lparr>uf_field = Rule_kernel, uf_operation = Rule_equality, uf_value = ''video[0-9]*''\<rparr>,
     \<lparr>uf_field = Rule_attribute ''idVendor'', uf_operation = Rule_inequality, uf_value = ''05 a9''\<rparr>]"

lemma camera_filters_ok: "list_all filter_ok camera_filters"
  by (simp add: camera_filters_def filter_ok_def field_ok_def field_rule_defs chars_ok_def key_char_def
      value_char_def ascii_alphanumeric_def)

theorem parse_udev_rule_text_witness:
  "parse_udev_rule '' KERNEL==\"video[0-9]*\" , ATTR{idVendor}!=\"05 a9\"'' = Ok camera_filters
   \<and> list_all filter_ok camera_filters"
  using parse_udev_rule_text [OF camera_filters_ok, of 1 1 1 0] camera_filters_ok
  by (simp add: camera_filters_def blanks_def filter_text_def with_key_def usable_def)

section \<open>What is parsed is well formed\<close>

lemma skip_Cons_split: "skip s = c # s' \<Longrightarrow> \<exists>n. s = blanks n @ c # s' \<and> c \<noteq> CHR '' ''"
proof (induction s)
  case (Cons d s)
  show ?case
  proof (cases "d = CHR '' ''")
    case True
    with Cons obtain n where "s = blanks n @ c # s'" "c \<noteq> CHR '' ''" by auto
    then have "d # s = blanks (Suc n) @ c # s'" using True by (simp add: blanks_def)
    then show ?thesis using \<open>c \<noteq> CHR '' ''\<close> by blast
  qed (use Cons in \<open>auto simp: blanks_def intro: exI [of _ 0]\<close>)
qed simp

lemma chars_rest_split:
  assumes "P (CHR '' '')"
  shows "\<exists>v. s = v @ chars_rest P s \<and> list_all P v \<and> (v = [] \<or> last v \<noteq> CHR '' '')"
proof (induction s rule: length_induct)
  case (1 s)
  show ?case
  proof (cases "\<exists>c s'. skip s = c # s' \<and> P c")
    case True
    then obtain c s' n where s: "skip s = c # s'" "P c" "s = blanks n @ c # s'" "c \<noteq> CHR '' ''"
      by (metis skip_Cons_split)
    then obtain v where v: "s' = v @ chars_rest P s'" "list_all P v" "v = [] \<or> last v \<noteq> CHR '' ''"
      using "1.IH" skip_Cons_length by blast
    have "chars_rest P s = chars_rest P s'" using s(1,2) by (simp add: chars_rest.simps [of P s])
    then have "s = (blanks n @ c # v) @ chars_rest P s" using s(3) v(1) by simp
    moreover have "list_all P (blanks n @ c # v)" using assms s(2) v(2) by (auto simp: blanks_def list_all_iff)
    moreover have "last (blanks n @ c # v) \<noteq> CHR '' ''" using v(3) s(4) by auto
    ultimately show ?thesis by blast
  next
    case False
    then have "chars_rest P s = s" by (subst chars_rest.simps) (auto split: list.split)
    then show ?thesis by (intro exI [of _ "[]"]) simp
  qed
qed

lemma chars_many_ok:
  assumes "chars_many P s = (v, r)" "P (CHR '' '')"
  shows "chars_ok P v"
proof (cases "\<exists>c s'. s = c # s' \<and> P c")
  case True
  then obtain c s' where s: "s = c # s'" "P c" by blast
  obtain w where w: "s' = w @ chars_rest P s'" "list_all P w" "w = [] \<or> last w \<noteq> CHR '' ''"
    using chars_rest_split [of P s', OF assms(2)] by blast
  have "v = take (length s - length (chars_rest P s')) s" using assms(1) s by (auto simp: chars_many_def Let_def)
  also have "length s - length (chars_rest P s') = Suc (length w)"
    using arg_cong [OF w(1), of length] s by simp
  also have "take (Suc (length w)) s = c # w" using s w(1) by (metis append_eq_conv_conj take_Suc_Cons)
  finally show ?thesis using w s by (auto simp: chars_ok_def)
next
  case False
  then have "v = []" using assms by (auto simp: chars_many_def split: list.splits if_splits)
  then show ?thesis by (simp add: chars_ok_def)
qed

lemma match_keyword_ok: "match_keyword k s = Some (f, r) \<Longrightarrow> keyword_matches k f"
  by (cases k) (auto simp: bounded_key_def Let_def key_char_def split: Option.bind_splits prod.splits
      dest!: chars_many_ok)

lemma choice_ok: "choice ks s = Some (f, r) \<Longrightarrow> list_ex (\<lambda>k. keyword_matches k f) ks"
  by (induction ks) (auto split: option.splits dest: match_keyword_ok)

lemma udev_filter_ok: "udev_filter s = Some (f, r) \<Longrightarrow> filter_ok f"
  by (auto simp: udev_filter_def quoted_value_def filter_ok_def field_ok_def Let_def value_char_def
      split: Option.bind_splits prod.splits dest!: chars_many_ok dest: choice_ok)

lemma comma_filters_ok: "comma_filters s = (fs, r) \<Longrightarrow> list_all filter_ok fs"
proof (induction s arbitrary: fs r rule: comma_filters.induct)
  case (1 s)
  then show ?case
    by (subst (asm) comma_filters.simps)
       (auto simp: comma_filter_def split: option.splits prod.splits Option.bind_splits dest!: udev_filter_ok)
qed

lemma inner_rule_ok: "inner_rule s = Some (fs, r) \<Longrightarrow> list_all filter_ok fs \<and> fs \<noteq> []"
  by (auto simp: inner_rule_def Let_def split: Option.bind_splits prod.splits dest!: udev_filter_ok comma_filters_ok)

lemma udev_rule_ok: "udev_rule s = Some (fs # rest) \<Longrightarrow> list_all filter_ok fs \<and> fs \<noteq> []"
  by (auto simp: udev_rule_def inner_rules.simps [of "skip s"] split: prod.splits option.splits if_splits dest!: inner_rule_ok)

text \<open>
  C36: Whatever the rule of a Configuration is, parsing it returns only filters that discovery
  handles, with a match operation and with keys and values of the characters the grammar
  allows; and the list it returns is a normal form: its own text parses to the same list.
\<close>

theorem parse_udev_rule_wf:
  assumes "parse_udev_rule s = Ok fs"
  shows "list_all filter_ok fs \<and> list_all usable fs \<and> parse_udev_rule (rule_text 0 1 fs) = Ok fs"
proof -
  have ok: "list_all filter_ok fs" and us: "find (\<lambda>f. \<not> usable f) fs = None"
    using assms by (auto simp: parse_udev_rule_def push_udev_filters_eq split: option.splits list.splits
        dest!: udev_rule_ok)
  have "parse_udev_rule (rule_text 0 1 fs) = Ok fs"
    using udev_rule_text [OF ok, of 0 0 1 0] us
    by (subst parse_udev_rule_eq [of _ fs "[]"]) (simp_all add: blanks_def)
  then show ?thesis using ok us by (simp add: find_None_iff list_all_iff)
qed

theorem parse_udev_rule_wf_witness:
  "parse_udev_rule ''TAG==\"uaccess\"'' = Ok [\<lparr>uf_field = Rule_tag, uf_operation = Rule_equality, uf_value = ''uaccess''\<rparr>]
   \<and> list_all usable [\<lparr>uf_field = Rule_tag, uf_operation = Rule_equality, uf_value = ''uaccess''\<rparr>]"
proof -
  have "parse_udev_rule ''TAG==\"uaccess\"'' = Ok [\<lparr>uf_field = Rule_tag, uf_operation = Rule_equality, uf_value = ''uaccess''\<rparr>]"
    by code_simp
  from parse_udev_rule_wf [OF this] this show ?thesis by blast
qed

text \<open>
  A comma left out between two filters is not an error: the filters after the gap are a
  second rule of the parse tree, which is never looked at, so that the devices are searched
  with the first part of the rule alone.
\<close>

theorem parse_udev_rule_missing_comma:
  assumes "list_all filter_ok fs" "list_all filter_ok gs" "fs \<noteq> []" "gs \<noteq> []"
  shows "parse_udev_rule (rule_text n m fs @ blanks b @ rule_text n m gs) = parse_udev_rule (rule_text n m fs)"
proof -
  have "udev_rule (rule_text n m fs) = Some [fs]"
    using udev_rule_text [OF assms(1), of 0 n m 0] assms(3) by (simp add: blanks_def)
  with udev_rule_two [OF assms, of n m b] assms(3) show ?thesis
    by (simp add: parse_udev_rule_def)
qed

theorem parse_udev_rule_missing_comma_witness:
  "parse_udev_rule ''KERNEL==\"a\" TAG==\"b\"'' = Ok [\<lparr>uf_field = Rule_kernel, uf_operation = Rule_equality, uf_value = ''a''\<rparr>]"
proof -
  let ?f = "\<lparr>uf_field = Rule_kernel, uf_operation = Rule_equality, uf_value = ''a''\<rparr>"
  let ?g = "\<lparr>uf_field = Rule_tag, uf_operation = Rule_equality, uf_value = ''b''\<rparr>"
  have ok: "list_all filter_ok [?f]" "list_all filter_ok [?g]"
    by (simp_all add: filter_ok_def field_ok_def field_rule_defs chars_ok_def value_char_def ascii_alphanumeric_def)
  have "parse_udev_rule ''KERNEL==\"a\"'' = Ok [?f]" by code_simp
  with parse_udev_rule_missing_comma [OF ok, of 0 0 1] show ?thesis
    by (simp add: filter_text_def blanks_def)
qed

end
