(* ===== verification/Udev_Discovery.thy ===== *)
theory Udev_Discovery
  imports Udev_Rule Discovery
begin

text \<open>
  Discovery of udev devices: \<open>agent/src/protocols/udev/mod.rs\<close> (the traits \<open>DeviceExt\<close> and
  \<open>Enumerator\<close>), \<open>discovery_impl.rs\<close> and \<open>discovery_handler.rs\<close>. The crates \<open>udev\<close> (the
  enumerator and what a device reports) and \<open>regex\<close> are parameters.
\<close>

section \<open>Devices, enumerators and regular expressions\<close>

text \<open>An \<open>OsStr\<close> is what its \<open>to_str\<close> returns: nothing when it is not UTF-8.\<close>

type_synonym OsStr = "string option"

datatype udev_device = UdevDevice
  (mockable_devpath: OsStr)
  (mockable_devnode: "OsStr option")
  (mockable_sysname: OsStr)
  (mockable_property_value: "string \<Rightarrow> OsStr option")
  (mockable_attribute_value: "string \<Rightarrow> OsStr option")
  (mockable_driver: "OsStr option")
  (mockable_subsystem: "OsStr option")
  (mockable_parent: "udev_device option")

record 'w Enumerator =
  match_subsystem :: "string \<Rightarrow> ('w, unit) io"
  nomatch_subsystem :: "string \<Rightarrow> ('w, unit) io"
  match_attribute :: "string \<Rightarrow> string \<Rightarrow> ('w, unit) io"
  nomatch_attribute :: "string \<Rightarrow> string \<Rightarrow> ('w, unit) io"
  match_sysname :: "string \<Rightarrow> ('w, unit) io"
  match_property :: "string \<Rightarrow> string \<Rightarrow> ('w, unit) io"
  match_tag :: "string \<Rightarrow> ('w, unit) io"
  add_syspath :: "string \<Rightarrow> ('w, unit) io"
  scan_devices :: "('w, udev_device list) io"

text \<open>\<open>Regex::new\<close>, which can fail, and \<open>find\<close>: the start and end of the leftmost match.\<close>

record 're regex_crate =
  Regex_new :: "string \<Rightarrow> 're option"
  Regex_find :: "'re \<Rightarrow> string \<Rightarrow> (nat \<times> nat) option"

definition TAGS :: string where "TAGS = ''TAGS''"
definition UDEV_DEVNODE_LABEL_ID :: string where "UDEV_DEVNODE_LABEL_ID = ''UDEV_DEVNODE''"

section \<open>Matching a device\<close>

definition filter_equality_check :: "bool \<Rightarrow> bool \<Rightarrow> bool" where
  "filter_equality_check is_eq is_match \<longleftrightarrow> (is_eq \<and> is_match) \<or> (\<not> is_eq \<and> \<not> is_match)"

definition is_regex_match :: "'re regex_crate \<Rightarrow> string \<Rightarrow> 're \<Rightarrow> bool" where
  "is_regex_match rx test_value value_regex =
     (case Regex_find rx value_regex test_value of
        Some (start, end) \<Rightarrow> start = 0 \<and> end = length test_value
      | None \<Rightarrow> False)"

fun device_or_parents_have_subsystem :: "'re regex_crate \<Rightarrow> udev_device \<Rightarrow> 're \<Rightarrow> (bool, error) result" where
  "device_or_parents_have_subsystem rx (UdevDevice dp dn sn pv av dr ss parent) value_regex =
     (case ss of
        Some subsystem \<Rightarrow> res_then (unwrap subsystem) (\<lambda>subsystem_str.
          if is_regex_match rx subsystem_str value_regex then Ok True
          else (case parent of
              Some p \<Rightarrow> device_or_parents_have_subsystem rx p value_regex
            | None \<Rightarrow> Ok False))
      | None \<Rightarrow> (case parent of
            Some p \<Rightarrow> device_or_parents_have_subsystem rx p value_regex
          | None \<Rightarrow> Ok False))"

fun device_or_parents_have_attribute :: "'re regex_crate \<Rightarrow> udev_device \<Rightarrow> string \<Rightarrow> 're \<Rightarrow> (bool, error) result" where
  "device_or_parents_have_attribute rx (UdevDevice dp dn sn pv av dr ss parent) key value_regex =
     (case av key of
        Some attribute_value \<Rightarrow> res_then (unwrap attribute_value) (\<lambda>attribute_value_str.
          if is_regex_match rx attribute_value_str value_regex then Ok True
          else (case parent of
              Some p \<Rightarrow> device_or_parents_have_attribute rx p key value_regex
            | None \<Rightarrow> Ok False))
      | None \<Rightarrow> (case parent of
            Some p \<Rightarrow> device_or_parents_have_attribute rx p key value_regex
          | None \<Rightarrow> Ok False))"

fun device_or_parents_have_driver :: "'re regex_crate \<Rightarrow> udev_device \<Rightarrow> 're \<Rightarrow> (bool, error) result" where
  "device_or_parents_have_driver rx (UdevDevice dp dn sn pv av dr ss parent) value_regex =
     (case dr of
        Some drv \<Rightarrow> res_then (unwrap drv) (\<lambda>driver_str.
          if is_regex_match rx driver_str value_regex then Ok True
          else (case parent of
              Some p \<Rightarrow> device_or_parents_have_driver rx p value_regex
            | None \<Rightarrow> Ok False))
      | None \<Rightarrow> (case parent of
            Some p \<Rightarrow> device_or_parents_have_driver rx p value_regex
          | None \<Rightarrow> Ok False))"

fun device_or_parents_have_sysname :: "'re regex_crate \<Rightarrow> udev_device \<Rightarrow> 're \<Rightarrow> (bool, error) result" where
  "device_or_parents_have_sysname rx (UdevDevice dp dn sn pv av dr ss parent) value_regex =
     res_then (unwrap sn) (\<lambda>sysname.
       if is_regex_match rx sysname value_regex then Ok True
       else (case parent of
           Some p \<Rightarrow> device_or_parents_have_sysname rx p value_regex
         | None \<Rightarrow> Ok False))"

fun device_or_parents_have_tag :: "'re regex_crate \<Rightarrow> udev_device \<Rightarrow> 're \<Rightarrow> (bool, error) result" where
  "device_or_parents_have_tag rx (UdevDevice dp dn sn pv av dr ss parent) value_regex =
     (case pv TAGS of
        Some tags \<Rightarrow> res_then (unwrap tags) (\<lambda>tags_str.
          if list_ex (\<lambda>tag. is_regex_match rx tag value_regex) (split_char (CHR '':'') tags_str) then Ok True
          else (case parent of
              Some p \<Rightarrow> device_or_parents_have_tag rx p value_regex
            | None \<Rightarrow> Ok False))
      | None \<Rightarrow> (case parent of
            Some p \<Rightarrow> device_or_parents_have_tag rx p value_regex
          | None \<Rightarrow> Ok False))"

section \<open>The filters that are applied to each device\<close>

text \<open>
  One round of the loop of \<open>filter_by_remaining_udev_filters\<close>, then the loop. For the first
  four fields the code takes the operation to be an inequality.
\<close>

definition remaining_udev_filter :: "'re regex_crate \<Rightarrow> udev_device list \<Rightarrow> UdevFilter
    \<Rightarrow> (udev_device list, error) result" where
  "remaining_udev_filter rx mutable_devices f =
     res_then (unwrap (Regex_new rx (uf_value f))) (\<lambda>value_regex.
     let is_eq = (uf_operation f = Rule_equality)
     in case uf_field f of
          Rule_devpath \<Rightarrow> filter_result (\<lambda>d. res_then (unwrap (mockable_devpath d)) (\<lambda>devpath.
              Ok (\<not> is_regex_match rx devpath value_regex))) mutable_devices
        | Rule_kernel \<Rightarrow> filter_result (\<lambda>d. res_then (unwrap (mockable_sysname d)) (\<lambda>sysname.
              Ok (\<not> is_regex_match rx sysname value_regex))) mutable_devices
        | Rule_tag \<Rightarrow> filter_result (\<lambda>d. case mockable_property_value d TAGS of
              Some tags \<Rightarrow> res_then (unwrap tags) (\<lambda>tags_str.
                Ok (\<not> list_ex (\<lambda>tag. is_regex_match rx tag value_regex) (split_char (CHR '':'') tags_str)))
            | None \<Rightarrow> Ok True) mutable_devices
        | Rule_property key \<Rightarrow> filter_result (\<lambda>d. case mockable_property_value d key of
              Some property_value \<Rightarrow> res_then (unwrap property_value) (\<lambda>property_value_str.
                Ok (\<not> is_regex_match rx property_value_str value_regex))
            | None \<Rightarrow> Ok True) mutable_devices
        | Rule_driver \<Rightarrow> filter_result (\<lambda>d. case mockable_driver d of
              Some driver \<Rightarrow> res_then (unwrap driver) (\<lambda>driver_str.
                Ok (filter_equality_check is_eq (is_regex_match rx driver_str value_regex)))
            | None \<Rightarrow> Ok (\<not> is_eq)) mutable_devices
        | Rule_subsystems \<Rightarrow> filter_result (\<lambda>d. res_then (device_or_parents_have_subsystem rx d value_regex)
              (\<lambda>m. Ok (filter_equality_check is_eq m))) mutable_devices
        | Rule_attributes key \<Rightarrow> filter_result (\<lambda>d. res_then (device_or_parents_have_attribute rx d key value_regex)
              (\<lambda>m. Ok (filter_equality_check is_eq m))) mutable_devices
        | Rule_drivers \<Rightarrow> filter_result (\<lambda>d. res_then (device_or_parents_have_driver rx d value_regex)
              (\<lambda>m. Ok (filter_equality_check is_eq m))) mutable_devices
        | Rule_kernels \<Rightarrow> filter_result (\<lambda>d. res_then (device_or_parents_have_sysname rx d value_regex)
              (\<lambda>m. Ok (filter_equality_check is_eq m))) mutable_devices
        | Rule_tags \<Rightarrow> filter_result (\<lambda>d. res_then (device_or_parents_have_tag rx d value_regex)
              (\<lambda>m. Ok (filter_equality_check is_eq m))) mutable_devices
        | _ \<Rightarrow> Ok mutable_devices)"

fun filter_by_remaining_udev_filters :: "'re regex_crate \<Rightarrow> udev_device list \<Rightarrow> UdevFilter list
    \<Rightarrow> (udev_device list, error) result" where
  "filter_by_remaining_udev_filters rx devices [] = Ok devices"
| "filter_by_remaining_udev_filters rx devices (f # fs) =
     res_then (remaining_udev_filter rx devices f) (\<lambda>devices'.
       filter_by_remaining_udev_filters rx devices' fs)"

section \<open>The filters that are given to the enumerator\<close>

definition match_udev_filter :: "'w Enumerator \<Rightarrow> UdevFilter \<Rightarrow> ('w, unit) io" where
  "match_udev_filter enumerator f =
     (case uf_field f of
        Rule_devpath \<Rightarrow> unwrapped (add_syspath enumerator (''/sys'' @ uf_value f))
      | Rule_kernel \<Rightarrow> unwrapped (match_sysname enumerator (uf_value f))
      | Rule_tag \<Rightarrow> unwrapped (match_tag enumerator (uf_value f))
      | Rule_subsystem \<Rightarrow> unwrapped (match_subsystem enumerator (uf_value f))
      | Rule_attribute key \<Rightarrow> unwrapped (match_attribute enumerator key (uf_value f))
      | Rule_property key \<Rightarrow> unwrapped (match_property enumerator key (uf_value f))
      | _ \<Rightarrow> return (Ok ()))"

definition filter_by_match_udev_filters :: "'w Enumerator \<Rightarrow> UdevFilter list \<Rightarrow> ('w, unit) io" where
  "filter_by_match_udev_filters enumerator udev_filters = try_for udev_filters (match_udev_filter enumerator)"

definition nomatch_udev_filter :: "'w Enumerator \<Rightarrow> UdevFilter \<Rightarrow> ('w, unit) io" where
  "nomatch_udev_filter enumerator f =
     (case uf_field f of
        Rule_attribute key \<Rightarrow> unwrapped (nomatch_attribute enumerator key (uf_value f))
      | Rule_subsystem \<Rightarrow> unwrapped (nomatch_subsystem enumerator (uf_value f))
      | _ \<Rightarrow> return (Ok ()))"

definition filter_by_nomatch_udev_filters :: "'w Enumerator \<Rightarrow> UdevFilter list \<Rightarrow> ('w, unit) io" where
  "filter_by_nomatch_udev_filters enumerator udev_filters = try_for udev_filters (nomatch_udev_filter enumerator)"

section \<open>Finding the devices of a rule\<close>

text \<open>The three groups of filters, by the tests of the loop that fills them.\<close>

definition is_match_filter :: "UdevFilter \<Rightarrow> bool" where
  "is_match_filter f \<longleftrightarrow> uf_operation f = Rule_equality \<and> (case uf_field f of
       Rule_devpath \<Rightarrow> True | Rule_kernel \<Rightarrow> True | Rule_tag \<Rightarrow> True | Rule_subsystem \<Rightarrow> True
     | Rule_attribute _ \<Rightarrow> True | Rule_property _ \<Rightarrow> True | _ \<Rightarrow> False)"

definition is_nomatch_filter :: "UdevFilter \<Rightarrow> bool" where
  "is_nomatch_filter f \<longleftrightarrow> \<not> is_match_filter f \<and> uf_operation f = Rule_inequality \<and> (case uf_field f of
       Rule_attribute _ \<Rightarrow> True | Rule_subsystem \<Rightarrow> True | _ \<Rightarrow> False)"

definition is_remaining_filter :: "UdevFilter \<Rightarrow> bool" where
  "is_remaining_filter f \<longleftrightarrow> \<not> is_match_filter f \<and> \<not> is_nomatch_filter f"

fun device_devpaths :: "udev_device list \<Rightarrow> (string list, error) result" where
  "device_devpaths [] = Ok []"
| "device_devpaths (d # ds) = (case mockable_devnode d of
       Some devnode \<Rightarrow> res_then (unwrap devnode) (\<lambda>s. res_then (device_devpaths ds) (\<lambda>rest. Ok (s # rest)))
     | None \<Rightarrow> device_devpaths ds)"

definition find_devices :: "'re regex_crate \<Rightarrow> 'w Enumerator \<Rightarrow> UdevFilter list \<Rightarrow> ('w, string list) io" where
  "find_devices rx enumerator udev_filters =
     try_then (filter_by_match_udev_filters enumerator (filter is_match_filter udev_filters)) (\<lambda>_.
     try_then (filter_by_nomatch_udev_filters enumerator (filter is_nomatch_filter udev_filters)) (\<lambda>_.
     try_then (scan_devices enumerator) (\<lambda>devices.
     return (res_then (filter_by_remaining_udev_filters rx devices (filter is_remaining_filter udev_filters))
       device_devpaths))))"

definition do_parse_and_find :: "'re regex_crate \<Rightarrow> 'w Enumerator \<Rightarrow> string \<Rightarrow> ('w, string list) io" where
  "do_parse_and_find rx enumerator udev_rule_string =
     try_then (return (parse_udev_rule udev_rule_string)) (find_devices rx enumerator)"

section \<open>The discovery handler\<close>

text \<open>
  \<open>enumerator_new\<close> is \<open>udev::Enumerator::new\<close>, whose error \<open>create_enumerator\<close> unwraps. The set of
  paths is a list without duplicates, in the order in which the set is iterated.
\<close>

definition create_enumerator :: "('w, 'w Enumerator) io \<Rightarrow> ('w, 'w Enumerator) io" where
  "create_enumerator enumerator_new = unwrapped enumerator_new"

fun find_all_devpaths :: "'re regex_crate \<Rightarrow> ('w, 'w Enumerator) io \<Rightarrow> string list \<Rightarrow> string list
    \<Rightarrow> ('w, string list) io" where
  "find_all_devpaths rx enumerator_new [] devpaths = return (Ok devpaths)"
| "find_all_devpaths rx enumerator_new (rule # rules) devpaths =
     try_then (create_enumerator enumerator_new) (\<lambda>enumerator.
     try_then (do_parse_and_find rx enumerator rule) (\<lambda>paths.
     find_all_devpaths rx enumerator_new rules (fold List.insert paths devpaths)))"

definition udev_discover :: "'re regex_crate \<Rightarrow> ('w, 'w Enumerator) io \<Rightarrow> (string \<Rightarrow> nat list) \<Rightarrow> string option
    \<Rightarrow> UdevDiscoveryHandlerConfig \<Rightarrow> ('w, DiscoveryResult list) io" where
  "udev_discover rx enumerator_new blake2b_3 node_name cfg =
     try_then (find_all_devpaths rx enumerator_new (udev_rules cfg) []) (\<lambda>devpaths.
     return (collect_results (map (\<lambda>path.
       DiscoveryResult_new blake2b_3 node_name path (hm_insert UDEV_DEVNODE_LABEL_ID path []) False) devpaths)))"

definition UdevDiscoveryHandler :: "'re regex_crate \<Rightarrow> ('w, 'w Enumerator) io \<Rightarrow> (string \<Rightarrow> nat list)
    \<Rightarrow> string option \<Rightarrow> UdevDiscoveryHandlerConfig \<Rightarrow> 'w discovery_handler" where
  "UdevDiscoveryHandler rx enumerator_new blake2b_3 node_name cfg =
     \<lparr>discover = udev_discover rx enumerator_new blake2b_3 node_name cfg, are_shared = Ok False\<rparr>"

section \<open>What a filter means\<close>

text \<open>
  The strings of a device that a field refers to: its own for a singular field, those of the
  device and of all its ancestors for a plural one; tags are the pieces of the property
  \<open>TAGS\<close>. A filter with \<open>==\<close> accepts a device when the whole of one such string matches, and
  one with \<open>!=\<close> when none does.
\<close>

fun lineage :: "udev_device \<Rightarrow> udev_device list" where
  "lineage (UdevDevice dp dn sn pv av dr ss parent) =
     UdevDevice dp dn sn pv av dr ss parent # (case parent of Some p \<Rightarrow> lineage p | None \<Rightarrow> [])"

fun opt_list :: "'a option \<Rightarrow> 'a list" where
  "opt_list None = []"
| "opt_list (Some a) = [a]"

fun own_strings :: "Rule_field \<Rightarrow> udev_device \<Rightarrow> OsStr list" where
  "own_strings Rule_devpath d = [mockable_devpath d]"
| "own_strings Rule_kernel d = [mockable_sysname d]"
| "own_strings Rule_tag d = opt_list (mockable_property_value d TAGS)"
| "own_strings (Rule_property k) d = opt_list (mockable_property_value d k)"
| "own_strings Rule_driver d = opt_list (mockable_driver d)"
| "own_strings Rule_subsystem d = opt_list (mockable_subsystem d)"
| "own_strings (Rule_attribute k) d = opt_list (mockable_attribute_value d k)"
| "own_strings _ d = []"

fun field_strings :: "Rule_field \<Rightarrow> udev_device \<Rightarrow> OsStr list" where
  "field_strings Rule_kernels d = concat (map (own_strings Rule_kernel) (lineage d))"
| "field_strings Rule_tags d = concat (map (own_strings Rule_tag) (lineage d))"
| "field_strings Rule_drivers d = concat (map (own_strings Rule_driver) (lineage d))"
| "field_strings Rule_subsystems d = concat (map (own_strings Rule_subsystem) (lineage d))"
| "field_strings (Rule_attributes k) d = concat (map (own_strings (Rule_attribute k)) (lineage d))"
| "field_strings f d = own_strings f d"

definition pieces :: "Rule_field \<Rightarrow> string \<Rightarrow> string list" where
  "pieces f s = (if f = Rule_tag \<or> f = Rule_tags then split_char (CHR '':'') s else [s])"

text \<open>A string matches as a whole: the leftmost match starts at its beginning and ends at its end.\<close>

definition whole_match :: "'re regex_crate \<Rightarrow> string \<Rightarrow> string \<Rightarrow> bool" where
  "whole_match rx pattern s \<longleftrightarrow> Regex_find rx (the (Regex_new rx pattern)) s = Some (0, length s)"

definition accepts :: "'re regex_crate \<Rightarrow> UdevFilter \<Rightarrow> udev_device \<Rightarrow> bool" where
  "accepts rx f d \<longleftrightarrow> (uf_operation f = Rule_equality) =
     list_ex (whole_match rx (uf_value f)) (concat (map (pieces (uf_field f) \<circ> the) (field_strings (uf_field f) d)))"

text \<open>The regular expression of a filter compiles, and what it reads of the devices is UTF-8.\<close>

definition checkable :: "'re regex_crate \<Rightarrow> udev_device list \<Rightarrow> UdevFilter \<Rightarrow> bool" where
  "checkable rx ds f \<longleftrightarrow> Regex_new rx (uf_value f) \<noteq> None
     \<and> list_all (\<lambda>d. list_all (\<lambda>x. x \<noteq> None) (field_strings (uf_field f) d)) ds"

section \<open>The filters accept what they mean\<close>

lemma whole_match: "Regex_new rx pattern = Some re \<Longrightarrow> is_regex_match rx s re = whole_match rx pattern s"
  by (auto simp: is_regex_match_def whole_match_def split: option.split)

text \<open>Looking up the hierarchy is a search through the lineage.\<close>

lemma have_subsystem: "list_all (\<lambda>x. x \<noteq> None) (field_strings Rule_subsystems d) \<Longrightarrow>
    device_or_parents_have_subsystem rx d re =
    Ok (list_ex (\<lambda>s. is_regex_match rx (the s) re) (field_strings Rule_subsystems d))"
  by (induction rx d re rule: device_or_parents_have_subsystem.induct) (auto split: option.splits)

lemma have_attribute: "list_all (\<lambda>x. x \<noteq> None) (field_strings (Rule_attributes k) d) \<Longrightarrow>
    device_or_parents_have_attribute rx d k re =
    Ok (list_ex (\<lambda>s. is_regex_match rx (the s) re) (field_strings (Rule_attributes k) d))"
  by (induction rx d k re rule: device_or_parents_have_attribute.induct) (auto split: option.splits)

lemma have_driver: "list_all (\<lambda>x. x \<noteq> None) (field_strings Rule_drivers d) \<Longrightarrow>
    device_or_parents_have_driver rx d re =
    Ok (list_ex (\<lambda>s. is_regex_match rx (the s) re) (field_strings Rule_drivers d))"
  by (induction rx d re rule: device_or_parents_have_driver.induct) (auto split: option.splits)

lemma have_sysname: "list_all (\<lambda>x. x \<noteq> None) (field_strings Rule_kernels d) \<Longrightarrow>
    device_or_parents_have_sysname rx d re =
    Ok (list_ex (\<lambda>s. is_regex_match rx (the s) re) (field_strings Rule_kernels d))"
  by (induction rx d re rule: device_or_parents_have_sysname.induct) (auto split: option.splits)

lemma have_tag: "list_all (\<lambda>x. x \<noteq> None) (field_strings Rule_tags d) \<Longrightarrow>
    device_or_parents_have_tag rx d re =
    Ok (list_ex (\<lambda>s. list_ex (\<lambda>t. is_regex_match rx t re) (split_char (CHR '':'') (the s))) (field_strings Rule_tags d))"
  by (induction rx d re rule: device_or_parents_have_tag.induct) (auto split: option.splits)

lemmas have_lineage = have_subsystem have_attribute have_driver have_sysname have_tag

lemma list_ex_concat_map: "list_ex p (concat (map f xs)) \<longleftrightarrow> list_ex (\<lambda>x. list_ex p (f x)) xs"
  by (induction xs) auto

lemma list_ex_map: "list_ex p (map f xs) \<longleftrightarrow> list_ex (\<lambda>x. p (f x)) xs"
  by (induction xs) auto

lemma remaining_cases: "usable f \<Longrightarrow> is_remaining_filter f \<Longrightarrow>
    uf_operation f = Rule_inequality \<and> (uf_field f \<in> {Rule_devpath, Rule_kernel, Rule_tag} \<or> (\<exists>k. uf_field f = Rule_property k))
    \<or> (uf_operation f = Rule_equality \<or> uf_operation f = Rule_inequality)
      \<and> (uf_field f \<in> {Rule_driver, Rule_subsystems, Rule_drivers, Rule_kernels, Rule_tags} \<or> (\<exists>k. uf_field f = Rule_attributes k))"
  unfolding usable_def is_remaining_filter_def is_match_filter_def is_nomatch_filter_def
  by (cases "uf_operation f"; cases "uf_field f"; simp)

lemma remaining_udev_filter_accepts:
  assumes "usable f" "is_remaining_filter f" "checkable rx ds f"
  shows "remaining_udev_filter rx ds f = Ok (filter (accepts rx f) ds)"
proof -
  obtain re where re: "Regex_new rx (uf_value f) = Some re"
    and utf8: "list_all (\<lambda>d. list_all (\<lambda>x. x \<noteq> None) (field_strings (uf_field f) d)) ds"
    using assms(3) by (auto simp: checkable_def)
  note accepts_eq = accepts_def list_ex_concat_map pieces_def comp_def
  note facts = remaining_udev_filter_def re Let_def whole_match [OF re]
  have each: "filter_result g ds = Ok (filter (accepts rx f) ds)"
    if "\<And>d. list_all (\<lambda>x. x \<noteq> None) (field_strings (uf_field f) d) \<Longrightarrow> g d = Ok (accepts rx f d)" for g
    using utf8 that by (auto simp: list_all_iff intro!: filter_result_pure)
  from remaining_cases [OF assms(1,2)] show ?thesis
    by (elim disjE conjE insertE emptyE exE)
       (auto simp: facts accepts_eq have_lineage filter_equality_check_def list_ex_map
         simp del: field_strings.simps(1-5) intro!: each split: option.split)
qed

lemma filter_by_remaining_accepts:
  "list_all (\<lambda>f. usable f \<and> is_remaining_filter f \<and> checkable rx ds f) fs \<Longrightarrow>
   filter_by_remaining_udev_filters rx ds fs = Ok (filter (\<lambda>d. list_all (\<lambda>f. accepts rx f d) fs) ds)"
proof (induction fs arbitrary: ds)
  case (Cons f fs)
  have "list_all (\<lambda>g. usable g \<and> is_remaining_filter g \<and> checkable rx (filter (accepts rx f) ds) g) fs"
    using Cons.prems by (auto simp: list_all_iff checkable_def)
  from Cons.IH [OF this] Cons.prems show ?case
    by (simp add: remaining_udev_filter_accepts conj_commute)
qed simp

definition devnodes :: "udev_device list \<Rightarrow> OsStr list" where
  "devnodes ds = concat (map (opt_list \<circ> mockable_devnode) ds)"

lemma device_devpaths_eq: "list_all (\<lambda>x. x \<noteq> None) (devnodes ds) \<Longrightarrow> device_devpaths ds = Ok (map the (devnodes ds))"
  by (induction ds) (auto simp: devnodes_def split: option.split)

section \<open>The enumerator\<close>

text \<open>
  The documented behaviour of an enumerator: a match that is added is kept, in order, for the
  scan, unless libudev refuses it (\<open>refuses\<close>), which is an error; the scan returns what libudev
  finds for these matches, or its error. \<open>reqs\<close> reads the matches added so far and \<open>found\<close> is
  libudev's answer.
\<close>

datatype enum_request =
    Match_subsystem string
  | Nomatch_subsystem string
  | Match_attribute string string
  | Nomatch_attribute string string
  | Match_sysname string
  | Match_property string string
  | Match_tag string
  | Add_syspath string

definition records :: "('w \<Rightarrow> enum_request list) \<Rightarrow> (enum_request \<Rightarrow> bool) \<Rightarrow> ('w, unit) io \<Rightarrow> enum_request \<Rightarrow> bool" where
  "records reqs refuses m q \<longleftrightarrow> (\<forall>w. \<exists>r w'. run_state m w = (r, w') \<and>
     (if refuses q then \<exists>e. r = Err e else r = Ok () \<and> reqs w' = reqs w @ [q]))"

definition enumerator_ok :: "'w Enumerator \<Rightarrow> ('w \<Rightarrow> enum_request list) \<Rightarrow> (enum_request \<Rightarrow> bool)
    \<Rightarrow> (enum_request list \<Rightarrow> (udev_device list, error) result) \<Rightarrow> bool"
where
  "enumerator_ok E reqs refuses found \<longleftrightarrow>
     (\<forall>v. records reqs refuses (match_subsystem E v) (Match_subsystem v))
   \<and> (\<forall>v. records reqs refuses (nomatch_subsystem E v) (Nomatch_subsystem v))
   \<and> (\<forall>k v. records reqs refuses (match_attribute E k v) (Match_attribute k v))
   \<and> (\<forall>k v. records reqs refuses (nomatch_attribute E k v) (Nomatch_attribute k v))
   \<and> (\<forall>v. records reqs refuses (match_sysname E v) (Match_sysname v))
   \<and> (\<forall>k v. records reqs refuses (match_property E k v) (Match_property k v))
   \<and> (\<forall>v. records reqs refuses (match_tag E v) (Match_tag v))
   \<and> (\<forall>v. records reqs refuses (add_syspath E v) (Add_syspath v))
   \<and> (\<forall>w. \<exists>w'. run_state (scan_devices E) w = (found (reqs w), w'))"

text \<open>
  What a filter asks of the enumerator: six fields can be asked for with \<open>==\<close> and two with
  \<open>!=\<close>; any other filter is left to the search itself. All that is asked for with \<open>==\<close> comes
  first.
\<close>

definition handed_over :: "UdevFilter \<Rightarrow> enum_request option" where
  "handed_over f = (case uf_operation f of
       Rule_equality \<Rightarrow> (case uf_field f of
           Rule_devpath \<Rightarrow> Some (Add_syspath (''/sys'' @ uf_value f))
         | Rule_kernel \<Rightarrow> Some (Match_sysname (uf_value f))
         | Rule_tag \<Rightarrow> Some (Match_tag (uf_value f))
         | Rule_subsystem \<Rightarrow> Some (Match_subsystem (uf_value f))
         | Rule_attribute k \<Rightarrow> Some (Match_attribute k (uf_value f))
         | Rule_property k \<Rightarrow> Some (Match_property k (uf_value f))
         | _ \<Rightarrow> None)
     | Rule_inequality \<Rightarrow> (case uf_field f of
           Rule_subsystem \<Rightarrow> Some (Nomatch_subsystem (uf_value f))
         | Rule_attribute k \<Rightarrow> Some (Nomatch_attribute k (uf_value f))
         | _ \<Rightarrow> None)
     | Rule_action_operation _ \<Rightarrow> None)"

definition enum_requests :: "UdevFilter list \<Rightarrow> enum_request list" where
  "enum_requests fs = List.map_filter handed_over (filter (\<lambda>f. uf_operation f = Rule_equality) fs)
     @ List.map_filter handed_over (filter (\<lambda>f. uf_operation f = Rule_inequality) fs)"

lemma asked_groups:
  "is_match_filter f \<longleftrightarrow> uf_operation f = Rule_equality \<and> handed_over f \<noteq> None"
  "is_nomatch_filter f \<longleftrightarrow> uf_operation f = Rule_inequality \<and> handed_over f \<noteq> None"
  "is_remaining_filter f \<longleftrightarrow> handed_over f = None"
  unfolding handed_over_def is_remaining_filter_def is_nomatch_filter_def is_match_filter_def
  by (auto split: Rule_operation.splits Rule_field.splits)

lemma enum_requests_groups:
  "enum_requests fs = map (the \<circ> handed_over) (filter is_match_filter fs) @ map (the \<circ> handed_over) (filter is_nomatch_filter fs)"
proof -
  have "is_match_filter = (\<lambda>f. uf_operation f = Rule_equality \<and> handed_over f \<noteq> None)"
    "is_nomatch_filter = (\<lambda>f. uf_operation f = Rule_inequality \<and> handed_over f \<noteq> None)"
    by (simp_all add: fun_eq_iff asked_groups)
  then show ?thesis unfolding enum_requests_def by (simp add: List.map_filter_def conj_commute)
qed

lemma records_match: "enumerator_ok E reqs refuses found \<Longrightarrow> is_match_filter f \<Longrightarrow>
    \<exists>m. match_udev_filter E f = unwrapped m \<and> records reqs refuses m (the (handed_over f))"
  unfolding enumerator_ok_def is_match_filter_def match_udev_filter_def handed_over_def
  by (auto split: Rule_field.splits)

lemma records_nomatch: "enumerator_ok E reqs refuses found \<Longrightarrow> is_nomatch_filter f \<Longrightarrow>
    \<exists>m. nomatch_udev_filter E f = unwrapped m \<and> records reqs refuses m (the (handed_over f))"
  unfolding enumerator_ok_def is_nomatch_filter_def nomatch_udev_filter_def handed_over_def
  by (auto split: Rule_field.splits)

abbreviation unwrap_panic :: string where
  "unwrap_panic \<equiv> ''called Result::unwrap() on an Err value''"

lemma wp_records_for:
  assumes "\<And>f. f \<in> set fs \<Longrightarrow> \<exists>m'. m f = unwrapped m' \<and> records reqs refuses m' (q f)"
  shows "wp (try_for fs m) (\<lambda>r w'. if list_ex refuses (map q fs) then r = Panic unwrap_panic
      else r = Ok () \<and> reqs w' = reqs w @ map q fs) w"
  using assms
proof (induction fs arbitrary: w)
  case (Cons f fs)
  obtain m' where m: "m f = unwrapped m'" "records reqs refuses m' (q f)" using Cons.prems [of f] by auto
  then obtain r w1 where r: "run_state m' w = (r, w1)"
      "if refuses (q f) then \<exists>e. r = Err e else r = Ok () \<and> reqs w1 = reqs w @ [q f]"
    unfolding records_def by blast
  have "wp (try_for fs m) (\<lambda>r w'. if list_ex refuses (map q fs) then r = Panic unwrap_panic
      else r = Ok () \<and> reqs w' = reqs w1 @ map q fs) w1" using Cons by simp
  then show ?case using r unfolding try_for.simps wp_try_then m(1)
    by (cases "refuses (q f)") (auto simp: wp_unwrapped wp_def [of m'] elim!: wp_mono split: if_splits)
qed simp

section \<open>Finding devices\<close>

text \<open>The devices of a rule by what its filters mean, among those that libudev finds.\<close>

definition accepted_devices :: "'re regex_crate \<Rightarrow> UdevFilter list \<Rightarrow> udev_device list \<Rightarrow> udev_device list" where
  "accepted_devices rx fs ds = filter (\<lambda>d. list_all (\<lambda>f. handed_over f \<noteq> None \<or> accepts rx f d) fs) ds"

definition rule_checkable :: "'re regex_crate \<Rightarrow> UdevFilter list \<Rightarrow> udev_device list \<Rightarrow> bool" where
  "rule_checkable rx fs ds \<longleftrightarrow> list_all (\<lambda>f. handed_over f \<noteq> None \<or> checkable rx ds f) fs
     \<and> list_all (\<lambda>x. x \<noteq> None) (devnodes ds)"

text \<open>What a search returns.\<close>

definition search_result :: "'re regex_crate \<Rightarrow> (enum_request \<Rightarrow> bool)
    \<Rightarrow> (enum_request list \<Rightarrow> (udev_device list, error) result) \<Rightarrow> UdevFilter list \<Rightarrow> (string list, error) result" where
  "search_result rx refuses found fs =
     (if list_ex refuses (enum_requests fs) then Panic unwrap_panic
      else case found (enum_requests fs) of
        Ok ds \<Rightarrow> Ok (map the (devnodes (accepted_devices rx fs ds)))
      | Err e \<Rightarrow> Err e
      | Panic p \<Rightarrow> Panic p)"

lemma devnodes_filter: "list_all p (devnodes ds) \<Longrightarrow> list_all p (devnodes (filter q ds))"
  by (auto simp: devnodes_def list_all_iff)

lemma list_all_remaining: "list_all p (filter is_remaining_filter fs) \<longleftrightarrow> list_all (\<lambda>f. handed_over f \<noteq> None \<or> p f) fs"
  by (induction fs) (auto simp: asked_groups)

lemma remaining_paths:
  assumes "list_all usable fs" "rule_checkable rx fs ds"
  shows "res_then (filter_by_remaining_udev_filters rx ds (filter is_remaining_filter fs)) device_devpaths
    = Ok (map the (devnodes (accepted_devices rx fs ds)))"
proof -
  have ch: "list_all (checkable rx ds) (filter is_remaining_filter fs)" and utf8: "list_all (\<lambda>x. x \<noteq> None) (devnodes ds)"
    using assms(2) by (simp_all add: rule_checkable_def list_all_remaining)
  have "filter_by_remaining_udev_filters rx ds (filter is_remaining_filter fs) = Ok (accepted_devices rx fs ds)"
    unfolding accepted_devices_def list_all_remaining [symmetric]
    by (rule filter_by_remaining_accepts) (use ch assms(1) in \<open>auto simp: list_all_iff\<close>)
  moreover have "list_all (\<lambda>x. x \<noteq> None) (devnodes (accepted_devices rx fs ds))"
    unfolding accepted_devices_def by (rule devnodes_filter [OF utf8])
  ultimately show ?thesis by (simp add: device_devpaths_eq)
qed

lemma find_devices_wp:
  assumes ok: "enumerator_ok E reqs refuses found" and us: "list_all usable fs"
    and ch: "\<And>ds. found (enum_requests fs) = Ok ds \<Longrightarrow> rule_checkable rx fs ds" and fresh: "reqs w = []"
  shows "wp (find_devices rx E fs) (\<lambda>r w'. r = search_result rx refuses found fs) w"
proof -
  let ?ms = "map (the \<circ> handed_over) (filter is_match_filter fs)" and ?ns = "map (the \<circ> handed_over) (filter is_nomatch_filter fs)"
  have req: "enum_requests fs = ?ms @ ?ns" by (rule enum_requests_groups)
  have m: "wp (try_for (filter is_match_filter fs) (match_udev_filter E)) (\<lambda>r w'. if list_ex refuses ?ms
      then r = Panic unwrap_panic else r = Ok () \<and> reqs w' = reqs w @ ?ms) w"
    by (rule wp_records_for) (use records_match [OF ok] in auto)
  have n: "wp (try_for (filter is_nomatch_filter fs) (nomatch_udev_filter E)) (\<lambda>r w'. if list_ex refuses ?ns
      then r = Panic unwrap_panic else r = Ok () \<and> reqs w' = reqs w1 @ ?ns) w1" for w1
    by (rule wp_records_for) (use records_nomatch [OF ok] in auto)
  have scan: "wp (try_then (scan_devices E) (\<lambda>devices. return (res_then
        (filter_by_remaining_udev_filters rx devices (filter is_remaining_filter fs)) device_devpaths)))
      (\<lambda>r w'. r = search_result rx refuses found fs) w2" if "reqs w2 = enum_requests fs" "\<not> list_ex refuses (enum_requests fs)" for w2
  proof -
    have "\<exists>w3. run_state (scan_devices E) w2 = (found (reqs w2), w3)" using ok unfolding enumerator_ok_def by blast
    then show ?thesis using that ch remaining_paths [OF us]
      unfolding wp_try_then search_result_def wp_def [of "scan_devices E"] by (auto split: result.split)
  qed
  show ?thesis unfolding find_devices_def filter_by_match_udev_filters_def filter_by_nomatch_udev_filters_def wp_try_then [of "try_for _ _"]
  proof (rule wp_mono [OF m], goal_cases)
    case (1 r w1)
    show ?case
    proof (cases "list_ex refuses ?ms")
      case True
      with 1 show ?thesis by (simp add: search_result_def req)
    next
      case False
      have "wp (try_for (filter is_nomatch_filter fs) (nomatch_udev_filter E)) (\<lambda>r s. case r of
          Ok _ \<Rightarrow> wp (try_then (scan_devices E) (\<lambda>devices. return (res_then
            (filter_by_remaining_udev_filters rx devices (filter is_remaining_filter fs)) device_devpaths)))
            (\<lambda>r w'. r = search_result rx refuses found fs) s
        | Err e \<Rightarrow> Err e = search_result rx refuses found fs
        | Panic p \<Rightarrow> Panic p = search_result rx refuses found fs) w1"
        by (rule wp_mono [OF n]) (use 1 False scan fresh in \<open>auto simp: search_result_def req split: if_splits\<close>)
      with 1 False show ?thesis by simp
    qed
  qed
qed

text \<open>
  C11: Searching the devices of a rule, when the regular expressions of the rule compile and the
  strings they are matched with are UTF-8. The outcome is determined by what libudev answers:
  if it refuses one of the matches that the rule hands over, the search panics; if its scan
  fails, the search fails with its error; otherwise the search returns the device nodes of
  exactly the devices that the rule describes: those that libudev finds for the matches, in
  their order, and that every other filter of the rule accepts. However the code splits the
  filters into three groups and walks up the parents, a filter with \<open>==\<close> keeps a device if and
  only if one of the strings its field refers to matches as a whole, and one with \<open>!=\<close> if and
  only if none does.
\<close>

theorem find_devices_accepts:
  assumes "enumerator_ok E reqs refuses found" "list_all usable fs" "reqs w = []"
    and "\<forall>ds. found (enum_requests fs) = Ok ds \<longrightarrow> rule_checkable rx fs ds"
  shows "fst (run_state (find_devices rx E fs) w) =
     (if list_ex refuses (enum_requests fs) then Panic unwrap_panic
      else case found (enum_requests fs) of
        Ok ds \<Rightarrow> Ok (map the (devnodes (accepted_devices rx fs ds)))
      | Err e \<Rightarrow> Err e
      | Panic p \<Rightarrow> Panic p)"
proof -
  have "wp (find_devices rx E fs) (\<lambda>r w'. r = search_result rx refuses found fs) w"
    by (rule find_devices_wp [OF assms(1,2) _ assms(3)]) (use assms(4) in blast)
  then show ?thesis by (simp add: wp_def split_beta search_result_def)
qed

text \<open>A small machine: a camera below a USB controller, and its controller.\<close>

definition usb_controller :: udev_device where
  "usb_controller = UdevDevice (Some ''/devices/usb1'') None (Some ''usb1'') (\<lambda>_. None) (\<lambda>_. None)
     (Some (Some ''xhci'')) (Some (Some ''usb'')) None"

definition usb_camera :: udev_device where
  "usb_camera = UdevDevice (Some ''/devices/usb1/video0'') (Some (Some ''/dev/video0'')) (Some ''video0'')
     (\<lambda>k. if k = TAGS then Some (Some ''seat:uaccess'') else None) (\<lambda>_. None)
     None (Some (Some ''video4linux'')) (Some usb_controller)"

text \<open>Regular expressions without special characters, with \<open>*\<close> as one that does not compile.\<close>

definition literal_regex :: "string regex_crate" where
  "literal_regex = \<lparr>Regex_new = (\<lambda>s. if s = ''*'' then None else Some s),
     Regex_find = (\<lambda>re s. if s = re then Some (0, length s) else None)\<rparr>"

definition recording :: "enum_request \<Rightarrow> (enum_request list, unit) io" where
  "recording q = State (\<lambda>qs. (Ok (), qs @ [q]))"

text \<open>Of the system's paths only \<open>/sys/devices/usb1\<close> exists.\<close>

definition usb_refuses :: "enum_request \<Rightarrow> bool" where
  "usb_refuses q = (case q of Add_syspath p \<Rightarrow> p \<noteq> ''/sys/devices/usb1'' | _ \<Rightarrow> False)"

definition usb_found :: "enum_request list \<Rightarrow> (udev_device list, error) result" where
  "usb_found qs = Ok (if Nomatch_subsystem ''usb'' \<in> set qs then [usb_camera] else [usb_controller, usb_camera])"

definition usb_enumerator :: "enum_request list Enumerator" where
  "usb_enumerator = \<lparr>match_subsystem = \<lambda>v. recording (Match_subsystem v),
     nomatch_subsystem = \<lambda>v. recording (Nomatch_subsystem v),
     match_attribute = \<lambda>k v. recording (Match_attribute k v),
     nomatch_attribute = \<lambda>k v. recording (Nomatch_attribute k v),
     match_sysname = \<lambda>v. recording (Match_sysname v),
     match_property = \<lambda>k v. recording (Match_property k v),
     match_tag = \<lambda>v. recording (Match_tag v),
     add_syspath = \<lambda>v. if v = ''/sys/devices/usb1'' then recording (Add_syspath v) else return (Err (Msg ''ENODEV'')),
     scan_devices = State (\<lambda>qs. (usb_found qs, qs))\<rparr>"

lemma usb_enumerator_ok: "enumerator_ok usb_enumerator id usb_refuses usb_found"
  by (simp add: enumerator_ok_def records_def usb_enumerator_def recording_def usb_refuses_def)

definition usb_filters :: "UdevFilter list" where
  "usb_filters = [\<lparr>uf_field = Rule_drivers, uf_operation = Rule_equality, uf_value = ''xhci''\<rparr>,
     \<lparr>uf_field = Rule_tag, uf_operation = Rule_inequality, uf_value = ''hidden''\<rparr>]"

lemma usb_filters_checkable: "list_all usable usb_filters"
    "rule_checkable literal_regex usb_filters [usb_controller, usb_camera]"
  by code_simp+

theorem find_devices_accepts_witness:
  "fst (run_state (find_devices literal_regex usb_enumerator usb_filters) []) = Ok [''/dev/video0'']
   \<and> enumerator_ok usb_enumerator id usb_refuses usb_found \<and> list_all usable usb_filters
   \<and> rule_checkable literal_regex usb_filters [usb_controller, usb_camera]"
proof -
  have "map the (devnodes (accepted_devices literal_regex usb_filters [usb_controller, usb_camera])) = [''/dev/video0'']"
    "enum_requests usb_filters = []" by code_simp+
  moreover from this have "\<forall>ds. usb_found (enum_requests usb_filters) = Ok ds \<longrightarrow> rule_checkable literal_regex usb_filters ds"
    using usb_filters_checkable(2) by (simp add: usb_found_def)
  ultimately show ?thesis
    using find_devices_accepts [OF usb_enumerator_ok usb_filters_checkable(1), of "[]" literal_regex]
      usb_enumerator_ok usb_filters_checkable by (simp add: usb_found_def)
qed

text \<open>
  A value that is no regular expression ends the search: when a filter that is checked on
  the devices themselves has such a value, no list of devices is ever returned, whatever the
  enumerator does and even if there is no device.
\<close>

theorem find_devices_bad_regex:
  assumes "list_ex (\<lambda>f. is_remaining_filter f \<and> Regex_new rx (uf_value f) = None) fs"
  shows "\<not> is_ok (fst (run_state (find_devices rx E fs) w))"
proof -
  have loop: "\<not> is_ok (filter_by_remaining_udev_filters rx ds gs)"
    if "list_ex (\<lambda>f. Regex_new rx (uf_value f) = None) gs" for ds gs
    using that
  proof (induction gs arbitrary: ds)
    case (Cons g gs)
    then show ?case by (cases "remaining_udev_filter rx ds g") (auto simp: remaining_udev_filter_def)
  qed simp
  have "list_ex (\<lambda>f. Regex_new rx (uf_value f) = None) (filter is_remaining_filter fs)"
    using assms by (auto simp: list_ex_iff)
  from loop [OF this] have "\<not> is_ok (res_then (filter_by_remaining_udev_filters rx ds (filter is_remaining_filter fs)) g)" for ds g
    by (metis is_ok.simps(1) is_ok_iff res_then_Ok)
  then have "wp (find_devices rx E fs) (\<lambda>r _. \<not> is_ok r) w"
    unfolding find_devices_def by (auto simp: wp_def split: prod.split result.split)
  then show ?thesis by (simp add: wp_def split_beta)
qed

theorem find_devices_bad_regex_witness:
  "\<not> is_ok (fst (run_state (find_devices literal_regex usb_enumerator
      [\<lparr>uf_field = Rule_driver, uf_operation = Rule_equality, uf_value = ''*''\<rparr>]) []))"
  by (rule find_devices_bad_regex) code_simp

section \<open>The handler\<close>

text \<open>
  \<open>Enumerator::new\<close> gives an enumerator with no match yet; \<open>rule_devnodes\<close> is what a rule
  describes on the machine.
\<close>

definition enumerator_new_ok :: "('w, 'w Enumerator) io \<Rightarrow> ('w \<Rightarrow> enum_request list) \<Rightarrow> (enum_request \<Rightarrow> bool)
    \<Rightarrow> (enum_request list \<Rightarrow> (udev_device list, error) result) \<Rightarrow> bool" where
  "enumerator_new_ok new reqs refuses found \<longleftrightarrow>
     (\<forall>w. \<exists>E w'. run_state new w = (Ok E, w') \<and> reqs w' = [] \<and> enumerator_ok E reqs refuses found)"

definition rule_devnodes :: "'re regex_crate \<Rightarrow> (enum_request list \<Rightarrow> (udev_device list, error) result) \<Rightarrow> string
    \<Rightarrow> string list" where
  "rule_devnodes rx found rule = (case parse_udev_rule rule of
       Ok fs \<Rightarrow> (case found (enum_requests fs) of
           Ok ds \<Rightarrow> map the (devnodes (accepted_devices rx fs ds))
         | _ \<Rightarrow> [])
     | _ \<Rightarrow> [])"

text \<open>
  A rule that can be searched: it parses, libudev accepts what it asks for and can scan, and
  what the search reads can be read.
\<close>

definition rule_searchable :: "'re regex_crate \<Rightarrow> (enum_request \<Rightarrow> bool)
    \<Rightarrow> (enum_request list \<Rightarrow> (udev_device list, error) result) \<Rightarrow> string \<Rightarrow> bool" where
  "rule_searchable rx refuses found rule = (case parse_udev_rule rule of
       Ok fs \<Rightarrow> \<not> list_ex refuses (enum_requests fs) \<and> (case found (enum_requests fs) of
           Ok ds \<Rightarrow> rule_checkable rx fs ds
         | _ \<Rightarrow> False)
     | _ \<Rightarrow> False)"

lemma parsed_usable: "parse_udev_rule s = Ok fs \<Longrightarrow> list_all usable fs"
  by (auto simp: parse_udev_rule_def push_udev_filters_eq find_None_iff list_all_iff split: option.splits list.splits)

lemma set_fold_insert: "set (fold List.insert xs ys) = set xs \<union> set ys"
  by (induction xs arbitrary: ys) auto

lemma distinct_fold_insert: "distinct ys \<Longrightarrow> distinct (fold List.insert xs ys)"
  by (induction xs arbitrary: ys) auto

lemma find_all_devpaths_wp:
  assumes "enumerator_new_ok new reqs refuses found"
  shows "list_all (rule_searchable rx refuses found) rules \<Longrightarrow> distinct ps \<Longrightarrow>
    wp (find_all_devpaths rx new rules ps) (\<lambda>r w'. \<exists>qs. r = Ok qs \<and> distinct qs
      \<and> set qs = set ps \<union> \<Union> (set (map (set \<circ> rule_devnodes rx found) rules))) w"
proof (induction rules arbitrary: ps w)
  case (Cons rule rules ps w)
  obtain E w1 where E: "run_state new w = (Ok E, w1)" "reqs w1 = []" "enumerator_ok E reqs refuses found"
    using assms unfolding enumerator_new_ok_def by blast
  obtain fs ds where fs: "parse_udev_rule rule = Ok fs" "found (enum_requests fs) = Ok ds" "rule_checkable rx fs ds"
      "\<not> list_ex refuses (enum_requests fs)"
    using Cons.prems(1) by (auto simp: rule_searchable_def split: result.splits)
  have new: "wp (create_enumerator new) (\<lambda>r w'. r = Ok E \<and> reqs w' = []) w"
    using E by (simp add: create_enumerator_def wp_unwrapped wp_def)
  have find: "wp (do_parse_and_find rx E rule) (\<lambda>r w'. r = Ok (rule_devnodes rx found rule) \<and> True) w'"
    if "reqs w' = []" for w'
    using find_devices_wp [OF E(3) parsed_usable [OF fs(1)] _ that] fs
    by (simp add: do_parse_and_find_def rule_devnodes_def search_result_def)
  have "wp (find_all_devpaths rx new rules (fold List.insert (rule_devnodes rx found rule) ps))
      (\<lambda>r w'. \<exists>qs. r = Ok qs \<and> distinct qs \<and> set qs = set ps \<union> \<Union> (set (map (set \<circ> rule_devnodes rx found) (rule # rules)))) w'" for w'
    by (rule wp_mono [OF Cons.IH [OF _ distinct_fold_insert [OF Cons.prems(2)]]])
       (use Cons.prems(1) in \<open>auto simp: set_fold_insert\<close>)
  note rest = this
  show ?case unfolding find_all_devpaths.simps
    by (rule wp_try_then_ok [OF new], rule wp_try_then_ok [OF find], assumption, rule rest)
qed simp

lemma collect_results_Ok: "collect_results (map (\<lambda>x. Ok (f x)) xs) = Ok (map f xs)"
  by (induction xs) auto

text \<open>
  C32: When every rule of the Configuration parses and can be searched (libudev accepts its
  matches and scans, its regular expressions compile, the strings are UTF-8) and the machine's
  name is known, the udev handler returns one result for each device node that some rule describes, and no node twice, however many rules describe it. A result
  carries its node as the property \<open>UDEV_DEVNODE\<close>, and its digest is over the node and the
  name of the machine, as udev devices are not shared.
\<close>

theorem udev_discover_spec:
  assumes "enumerator_new_ok new reqs refuses found" "list_all (rule_searchable rx refuses found) (udev_rules cfg)"
  shows "\<exists>paths. distinct paths \<and> set paths = \<Union> (set (map (set \<circ> rule_devnodes rx found) (udev_rules cfg)))
    \<and> fst (run_state (discover (UdevDiscoveryHandler rx new h (Some node) cfg)) w)
      = Ok (map (\<lambda>p. \<lparr>digest = concat (map hex_byte (h (p @ node))), dr_properties = [(''UDEV_DEVNODE'', p)]\<rparr>) paths)"
proof -
  have "wp (udev_discover rx new h (Some node) cfg) (\<lambda>r w'. \<exists>qs. distinct qs
      \<and> set qs = \<Union> (set (map (set \<circ> rule_devnodes rx found) (udev_rules cfg)))
      \<and> r = Ok (map (\<lambda>p. \<lparr>digest = concat (map hex_byte (h (p @ node))), dr_properties = [(''UDEV_DEVNODE'', p)]\<rparr>) qs)) w"
    using find_all_devpaths_wp [OF assms, of "[]" w]
    by (auto simp: udev_discover_def DiscoveryResult_new_def collect_results_Ok UDEV_DEVNODE_LABEL_ID_def elim!: wp_mono)
  then show ?thesis by (auto simp: wp_def UdevDiscoveryHandler_def split: prod.splits)
qed

theorem udev_discover_spec_witness:
  "\<exists>paths. set paths = {''/dev/video0''}
    \<and> fst (run_state (discover (UdevDiscoveryHandler literal_regex (State (\<lambda>_. (Ok usb_enumerator, []))) (\<lambda>s. [length s])
        (Some ''node-a'') \<lparr>udev_rules = [''SUBSYSTEM!=\"usb\"'', ''DRIVERS==\"xhci\"'']\<rparr>)) [])
      = Ok (map (\<lambda>p. \<lparr>digest = concat (map hex_byte [length (p @ ''node-a'')]), dr_properties = [(''UDEV_DEVNODE'', p)]\<rparr>) paths)"
proof -
  let ?new = "State (\<lambda>_. (Ok usb_enumerator, []))"
  let ?cfg = "\<lparr>udev_rules = [''SUBSYSTEM!=\"usb\"'', ''DRIVERS==\"xhci\"'']\<rparr>"
  have new: "enumerator_new_ok ?new id usb_refuses usb_found"
    by (simp add: enumerator_new_ok_def usb_enumerator_ok)
  have rules: "list_all (rule_searchable literal_regex usb_refuses usb_found) (udev_rules ?cfg)" by code_simp
  have "rule_devnodes literal_regex usb_found ''SUBSYSTEM!=\"usb\"'' = [''/dev/video0'']"
    "rule_devnodes literal_regex usb_found ''DRIVERS==\"xhci\"'' = [''/dev/video0'']" by code_simp+
  then have "\<Union> (set (map (set \<circ> rule_devnodes literal_regex usb_found) (udev_rules ?cfg))) = {''/dev/video0''}" by simp
  with udev_discover_spec [OF new rules, of "\<lambda>s. [length s]" "''node-a''" "[]"] show ?thesis by auto
qed

end
