(* ===== verification/Onvif_Query.thy ===== *)
theory Onvif_Query
  imports Akri_Prelude
begin

text \<open>
  \<open>shared/src/onvif/mod.rs\<close>: the questions Akri asks an ONVIF camera. The HTTP client
  (crate \<open>hyper\<close>), the XML parser and XPath (\<open>sxd_document\<close>, \<open>sxd_xpath\<close>) are parameters; the
  messages, the XPath queries and the handling of every answer are the source's.
\<close>

definition ONVIF_DEVICE_SERVICE_URL_LABEL_ID :: string where
  "ONVIF_DEVICE_SERVICE_URL_LABEL_ID = ''ONVIF_DEVICE_SERVICE_URL''"
definition ONVIF_DEVICE_IP_ADDRESS_LABEL_ID :: string where
  "ONVIF_DEVICE_IP_ADDRESS_LABEL_ID = ''ONVIF_DEVICE_IP_ADDRESS''"
definition ONVIF_DEVICE_MAC_ADDRESS_LABEL_ID :: string where
  "ONVIF_DEVICE_MAC_ADDRESS_LABEL_ID = ''ONVIF_DEVICE_MAC_ADDRESS''"
definition MEDIA_WSDL :: string where "MEDIA_WSDL = ''http://www.onvif.org/ver10/media/wsdl''"
definition DEVICE_WSDL :: string where "DEVICE_WSDL = ''http://www.onvif.org/ver10/device/wsdl''"

section \<open>The environment\<close>

text \<open>
  The values of XPath, with the string values of the nodes of a node set. An HTTP request
  (URL, content type, body) gives a status and the collected body, or an error while it was
  collected; \<open>None\<close> is a body that is not UTF-8.
\<close>

datatype Value = ValueString string | ValueNodeset "string list" | ValueBoolean bool | ValueNumber string

record ('d, 'w) onvif_env =
  hyper_request :: "string \<Rightarrow> string \<Rightarrow> string \<Rightarrow> ('w, nat \<times> (string option, error) result) io"
  parse_document :: "string \<Rightarrow> 'd option"
  evaluate_xpath :: "'d \<Rightarrow> string \<Rightarrow> (Value, error) result"
  value_string :: "Value \<Rightarrow> string"

section \<open>SOAP over HTTP\<close>

definition handle_request_body :: "('d, 'w) onvif_env \<Rightarrow> string \<Rightarrow> ('d, error) result" where
  "handle_request_body env body = ok_or (parse_document env body) (Msg ''invalid data'')"

definition post :: "('d, 'w) onvif_env \<Rightarrow> string \<Rightarrow> string \<Rightarrow> string \<Rightarrow> ('w, 'd) io" where
  "post env url mime_action msg =
     (let full_mime = ''application/soap+xml; charset=utf-8; '' @ mime_action @ '';''
      in try_then (unwrapped (hyper_request env url full_mime msg)) (\<lambda>(status, body).
         return (if status \<noteq> 200 then Err (Msg ''failure'')
           else res_then body (\<lambda>response_body.
                res_then (ok_or response_body (Msg ''invalid utf-8'')) (handle_request_body env)))))"

definition get_action :: "string \<Rightarrow> string \<Rightarrow> string" where
  "get_action wsdl function_name = ''action='' @ [CHR 0x22] @ wsdl @ ''/'' @ function_name @ [CHR 0x22]"

text \<open>The request bodies, line by line.\<close>

definition newline :: string where "newline = [CHR 0x0A]"

definition soap_envelope :: "string \<Rightarrow> string" where
  "soap_envelope wsdl = ''<soap:Envelope xmlns:soap=\"http://www.w3.org/2003/05/soap-envelope\" xmlns:wsdl=\"'' @ wsdl @ ''\"''"

definition simple_request :: "string \<Rightarrow> string \<Rightarrow> string" where
  "simple_request wsdl element = concat [soap_envelope wsdl, ''>'', newline,
     ''        <soap:Header/>'', newline,
     ''            <soap:Body>'', newline,
     ''                <wsdl:'', element, ''/>'', newline,
     ''            </soap:Body>'', newline,
     ''        </soap:Envelope>'']"

definition GET_NETWORK_INTERFACES_TEMPLATE :: string where
  "GET_NETWORK_INTERFACES_TEMPLATE = simple_request DEVICE_WSDL ''GetNetworkInterfaces''"
definition GET_SCOPES_TEMPLATE :: string where
  "GET_SCOPES_TEMPLATE = simple_request DEVICE_WSDL ''GetScopes''"
definition GET_SERVICES_TEMPLATE :: string where
  "GET_SERVICES_TEMPLATE = simple_request DEVICE_WSDL ''GetServices ''"
definition GET_PROFILES_TEMPLATE :: string where
  "GET_PROFILES_TEMPLATE = simple_request MEDIA_WSDL ''GetProfiles''"

definition get_stream_uri_message :: "string \<Rightarrow> string" where
  "get_stream_uri_message profile = concat [soap_envelope MEDIA_WSDL, '' xmlns:sch=\"http://www.onvif.org/ver10/schema\">'', newline,
     ''                <soap:Header/>'', newline,
     ''                <soap:Body>'', newline,
     ''                    <wsdl:GetStreamUri>'', newline,
     ''                    <wsdl:StreamSetup>'', newline,
     ''                        <sch:Stream>RTP-Unicast</sch:Stream>'', newline,
     ''                        <sch:Transport>'', newline,
     ''                            <sch:Protocol>RTSP</sch:Protocol>'', newline,
     ''                        </sch:Transport>'', newline,
     ''                    </wsdl:StreamSetup>'', newline,
     ''                    <wsdl:ProfileToken>'', profile, ''</wsdl:ProfileToken>'', newline,
     ''                    </wsdl:GetStreamUri>'', newline,
     ''                </soap:Body>'', newline,
     ''            </soap:Envelope>;'']"

section \<open>The questions\<close>

text \<open>\<open>local-name()='n'\<close> steps of the XPath queries.\<close>

definition quoted :: "string \<Rightarrow> string" where
  "quoted n = CHR 0x27 # n @ [CHR 0x27]"

definition local_step :: "string \<Rightarrow> string" where
  "local_step n = ''*[local-name()='' @ quoted n @ '']''"

definition IP_XPATH :: string where
  "IP_XPATH = ''//'' @ local_step ''GetNetworkInterfacesResponse'' @ ''/'' @ local_step ''NetworkInterfaces'' @ ''/''
     @ local_step ''IPv4'' @ ''/'' @ local_step ''Config'' @ ''/*/'' @ local_step ''Address'' @ ''/text()''"

definition MAC_XPATH :: string where
  "MAC_XPATH = ''//'' @ local_step ''GetNetworkInterfacesResponse'' @ ''/'' @ local_step ''NetworkInterfaces'' @ ''/''
     @ local_step ''Info'' @ ''/'' @ local_step ''HwAddress'' @ ''/text()''"

definition SCOPES_XPATH :: string where
  "SCOPES_XPATH = ''//'' @ local_step ''GetScopesResponse'' @ ''/'' @ local_step ''Scopes'' @ ''/''
     @ local_step ''ScopeItem'' @ ''/text()''"

definition PROFILES_XPATH :: string where
  "PROFILES_XPATH = ''//'' @ local_step ''GetProfilesResponse'' @ ''/'' @ local_step ''Profiles'' @ ''/@token''"

definition STREAM_URI_XPATH :: string where
  "STREAM_URI_XPATH = ''//'' @ local_step ''GetStreamUriResponse'' @ ''/'' @ local_step ''MediaUri'' @ ''/''
     @ local_step ''Uri'' @ ''/text()''"

definition service_xpath_query :: "string \<Rightarrow> string" where
  "service_xpath_query service = ''//'' @ local_step ''GetServicesResponse'' @ ''/*[local-name()='' @ quoted ''Service''
     @ '' and '' @ local_step ''Namespace'' @ ''/text() ='' @ quoted service @ '']/'' @ local_step ''XAddr'' @ ''/text()''"

text \<open>A request whose errors get a prefix, as the five functions write it.\<close>

definition post_or :: "('d, 'w) onvif_env \<Rightarrow> string \<Rightarrow> string \<Rightarrow> string \<Rightarrow> string \<Rightarrow> ('w, 'd) io" where
  "post_or env what url act msg = do {
     r \<leftarrow> post env url act msg;
     return (case r of Ok xml \<Rightarrow> Ok xml | Err e \<Rightarrow> Err (Msg what) | Panic p \<Rightarrow> Panic p)
   }"

text \<open>The two ways to read an XPath result: one string, or the strings of a node set.\<close>

definition first_value :: "string \<Rightarrow> (Value, error) result \<Rightarrow> (string, error) result" where
  "first_value what r = (case r of
       Ok (ValueString s) \<Rightarrow> Ok s
     | Ok (ValueNodeset ns) \<Rightarrow> (case ns of
           first # _ \<Rightarrow> Ok first
         | [] \<Rightarrow> Err (Msg (''Failed to get ONVIF '' @ what @ '': none specified in response'')))
     | Ok _ \<Rightarrow> Err (Msg (''Failed to get ONVIF '' @ what @ '': unexpected type''))
     | Err e \<Rightarrow> Err (Msg (''Failed to get ONVIF '' @ what))
     | Panic p \<Rightarrow> Panic p)"

definition node_values :: "string \<Rightarrow> (Value, error) result \<Rightarrow> (string list, error) result" where
  "node_values what r = (case r of
       Ok (ValueNodeset ns) \<Rightarrow> Ok ns
     | Ok _ \<Rightarrow> Err (Msg (''Failed to get ONVIF '' @ what @ '': unexpected type''))
     | Err e \<Rightarrow> Err (Msg (''Failed to get ONVIF '' @ what))
     | Panic p \<Rightarrow> Panic p)"

definition string_of :: "('d, 'w) onvif_env \<Rightarrow> (Value, error) result \<Rightarrow> (string, error) result" where
  "string_of env r = (case r of
       Ok v \<Rightarrow> Ok (value_string env v)
     | Err e \<Rightarrow> Err (Msg ''failed to get servuce uri from resoinse'')
     | Panic p \<Rightarrow> Panic p)"

definition inner_get_device_ip_and_mac_address :: "('d, 'w) onvif_env \<Rightarrow> string \<Rightarrow> ('w, string \<times> string) io" where
  "inner_get_device_ip_and_mac_address env service_url =
     try_then (post_or env ''failed to get network interfaces from device'' service_url
       (get_action DEVICE_WSDL ''GetNetworkInterfaces'') GET_NETWORK_INTERFACES_TEMPLATE) (\<lambda>doc.
     return (res_then (first_value ''ip address'' (evaluate_xpath env doc IP_XPATH)) (\<lambda>ip_address.
             res_then (first_value ''mac address'' (evaluate_xpath env doc MAC_XPATH)) (\<lambda>mac_address.
             Ok (ip_address, mac_address)))))"

definition inner_get_device_scopes :: "('d, 'w) onvif_env \<Rightarrow> string \<Rightarrow> ('w, string list) io" where
  "inner_get_device_scopes env url =
     try_then (post_or env ''failed to get scopes from device'' url
       (get_action DEVICE_WSDL ''GetScopes'') GET_SCOPES_TEMPLATE) (\<lambda>doc.
     return (node_values ''scopes'' (evaluate_xpath env doc SCOPES_XPATH)))"

definition inner_get_device_service_uri :: "('d, 'w) onvif_env \<Rightarrow> string \<Rightarrow> string \<Rightarrow> ('w, string) io" where
  "inner_get_device_service_uri env url service =
     try_then (post_or env ''failed to get services from device'' url
       (get_action DEVICE_WSDL ''GetServices'') GET_SERVICES_TEMPLATE) (\<lambda>doc.
     return (string_of env (evaluate_xpath env doc (service_xpath_query service))))"

definition inner_get_device_profiles :: "('d, 'w) onvif_env \<Rightarrow> string \<Rightarrow> ('w, string list) io" where
  "inner_get_device_profiles env url =
     try_then (post_or env ''failed to get profiles from device'' url
       (get_action MEDIA_WSDL ''GetProfiles'') GET_PROFILES_TEMPLATE) (\<lambda>doc.
     return (node_values ''profiles'' (evaluate_xpath env doc PROFILES_XPATH)))"

definition inner_get_device_profile_streaming_uri :: "('d, 'w) onvif_env \<Rightarrow> string \<Rightarrow> string \<Rightarrow> ('w, string) io" where
  "inner_get_device_profile_streaming_uri env url profile_token =
     try_then (post_or env ''failed to get streaming uri from device'' url
       (get_action MEDIA_WSDL ''GetStreamUri'') (get_stream_uri_message profile_token)) (\<lambda>doc.
     return (string_of env (evaluate_xpath env doc STREAM_URI_XPATH)))"

section \<open>The interface\<close>

record 'w OnvifQuery =
  get_device_ip_and_mac_address :: "string \<Rightarrow> ('w, string \<times> string) io"
  get_device_scopes :: "string \<Rightarrow> ('w, string list) io"
  get_device_service_uri :: "string \<Rightarrow> string \<Rightarrow> ('w, string) io"
  get_device_profiles :: "string \<Rightarrow> ('w, string list) io"
  get_device_profile_streaming_uri :: "string \<Rightarrow> string \<Rightarrow> ('w, string) io"

definition OnvifQueryImpl :: "('d, 'w) onvif_env \<Rightarrow> 'w OnvifQuery" where
  "OnvifQueryImpl env = \<lparr>
     get_device_ip_and_mac_address = inner_get_device_ip_and_mac_address env,
     get_device_scopes = inner_get_device_scopes env,
     get_device_service_uri = inner_get_device_service_uri env,
     get_device_profiles = inner_get_device_profiles env,
     get_device_profile_streaming_uri = inner_get_device_profile_streaming_uri env\<rparr>"

end
