(* ===== verification/Onvif_Discovery.thy ===== *)
theory Onvif_Discovery
  imports Discovery Onvif_Query
begin

text \<open>
  Discovery of ONVIF cameras: \<open>agent/src/protocols/onvif/discovery_impl.rs\<close> (the WS-Discovery
  probe and its answers) and \<open>discovery_handler.rs\<close> (the filters). XML (crate \<open>yaserde\<close>) and the
  network are parameters; text is ASCII.
\<close>

section \<open>The probe\<close>

record Envelope =
  message_id :: string
  reply_to :: string
  header_action :: string
  body_probe_types :: "string list"

definition NETWORK_VIDEO_TRANSMITTER :: string where
  "NETWORK_VIDEO_TRANSMITTER = ''netwsdl:NetworkVideoTransmitter''"

definition discovery_envelope :: "string \<Rightarrow> Envelope" where
  "discovery_envelope uuid_string = \<lparr>message_id = uuid_string,
     reply_to = ''urn:schemas-xmlsoap-org:ws:2005:04:discovery'',
     header_action = ''http://schemas.xmlsoap.org/ws/2005/04/discovery/Probe'',
     body_probe_types = [NETWORK_VIDEO_TRANSMITTER]\<rparr>"

definition create_onvif_discovery_message :: "(Envelope \<Rightarrow> (string, error) result) \<Rightarrow> string \<Rightarrow> (string, error) result" where
  "create_onvif_discovery_message yaserde_to_string uuid_string =
     unwrap_ok (yaserde_to_string (discovery_envelope uuid_string))"

text \<open>\<open>str::split_whitespace\<close>\<close>

definition is_whitespace :: "char \<Rightarrow> bool" where
  "is_whitespace c \<longleftrightarrow> (let n = (of_char c :: nat) in 9 \<le> n \<and> n \<le> 13 \<or> n = 32)"

function split_whitespace :: "string \<Rightarrow> string list" where
  "split_whitespace [] = []"
| "split_whitespace (c # s) =
     (if is_whitespace c then split_whitespace s
      else (c # takeWhile (\<lambda>d. \<not> is_whitespace d) s) # split_whitespace (dropWhile (\<lambda>d. \<not> is_whitespace d) s))"
  by pat_completeness auto
termination
  by (relation "measure length") (auto simp: le_imp_less_Suc length_dropWhile_le)

text \<open>\<open>yaserde_from_str\<close> gives the \<open>XAddrs\<close> of the probe matches of a response.\<close>

definition get_device_uris_from_discovery_response :: "(string \<Rightarrow> string list option) \<Rightarrow> string
    \<Rightarrow> (string list, error) result" where
  "get_device_uris_from_discovery_response yaserde_from_str discovery_response =
     res_then (unwrap (yaserde_from_str discovery_response)) (\<lambda>xaddrs.
     Ok (concat (map split_whitespace xaddrs)))"

section \<open>Collecting the answers\<close>

text \<open>
  The task that \<open>simple_onvif_discover\<close> spawns: what its socket reports in turn. A read that
  finds nothing tells whether the cancel message has arrived. The task pushes the addresses
  of each response on a list that it shares with its parent, and ends when it is cancelled or
  panics (also while it sets up its socket, which counts as a failed send); the parent waits for it or for the timeout and takes what has been pushed by then.
\<close>

datatype recv_event = Datagram string | NoData bool | RecvFailed

datatype send_outcome = Sent | SendTimedOut | SendFailed

fun receive_loop :: "(string \<Rightarrow> string list option) \<Rightarrow> recv_event list \<Rightarrow> string list \<Rightarrow> string list" where
  "receive_loop from_str [] thread_devices = thread_devices"
| "receive_loop from_str (Datagram s # evs) thread_devices =
     (case get_device_uris_from_discovery_response from_str s of
        Ok uris \<Rightarrow> receive_loop from_str evs (thread_devices @ uris)
      | _ \<Rightarrow> thread_devices)"
| "receive_loop from_str (NoData cancelled # evs) thread_devices =
     (if cancelled then thread_devices else receive_loop from_str evs thread_devices)"
| "receive_loop from_str (RecvFailed # evs) thread_devices = thread_devices"

record probe_run =
  send_result :: send_outcome
  socket_events :: "recv_event list"
  pushes_seen :: nat

definition pushed_devices :: "(string \<Rightarrow> string list option) \<Rightarrow> probe_run \<Rightarrow> string list" where
  "pushed_devices from_str run = (case send_result run of
       Sent \<Rightarrow> receive_loop from_str (socket_events run) []
     | _ \<Rightarrow> [])"

record 'w onvif_probe =
  probe :: "string \<Rightarrow> nat \<Rightarrow> ('w, probe_run) state"
  yaserde_to_string :: "Envelope \<Rightarrow> (string, error) result"
  yaserde_from_str :: "string \<Rightarrow> string list option"
  new_v4 :: "('w, string) state"

definition simple_onvif_discover :: "'w onvif_probe \<Rightarrow> nat \<Rightarrow> ('w, string list) io" where
  "simple_onvif_discover net timeout = do {
     uuid \<leftarrow> new_v4 net;
     case create_onvif_discovery_message (yaserde_to_string net) (''uuid:'' @ uuid) of
       Ok msg \<Rightarrow> do {
         run \<leftarrow> probe net msg (as_secs timeout);
         return (Ok (take (pushes_seen run) (pushed_devices (yaserde_from_str net) run)))
       }
     | _ \<Rightarrow> return (Ok [])
   }"

section \<open>Filters\<close>

definition execute_filter :: "FilterList option \<Rightarrow> string list \<Rightarrow> bool" where
  "execute_filter filter_list filter_against =
     (case filter_list of
        None \<Rightarrow> False
      | Some fl \<Rightarrow>
          let filter_count = length (filter (\<lambda>pattern.
                length (filter (\<lambda>item. contains_str item pattern) filter_against) > 0) (items fl))
          in if action fl = Include then filter_count = 0 else filter_count \<noteq> 0)"

definition onvif_properties :: "string \<Rightarrow> string \<Rightarrow> string \<Rightarrow> (string, string) hashmap" where
  "onvif_properties url ip_address mac_address =
     (let ps = hm_insert ONVIF_DEVICE_SERVICE_URL_LABEL_ID url [];
          ps = hm_insert ONVIF_DEVICE_IP_ADDRESS_LABEL_ID ip_address ps
      in hm_insert ONVIF_DEVICE_MAC_ADDRESS_LABEL_ID mac_address ps)"

fun apply_filters :: "(string \<Rightarrow> nat list) \<Rightarrow> string option \<Rightarrow> OnvifDiscoveryHandlerConfig \<Rightarrow> 'w OnvifQuery
    \<Rightarrow> string list \<Rightarrow> DiscoveryResult list \<Rightarrow> ('w, DiscoveryResult list) io" where
  "apply_filters blake2b_3 node_name cfg onvif_query [] found = return (Ok found)"
| "apply_filters blake2b_3 node_name cfg onvif_query (url # urls) found = do {
     r \<leftarrow> get_device_ip_and_mac_address onvif_query url;
     case r of
       Panic p \<Rightarrow> return (Panic p)
     | Err e \<Rightarrow> apply_filters blake2b_3 node_name cfg onvif_query urls found
     | Ok (ip_address, mac_address) \<Rightarrow>
         if execute_filter (ip_addresses cfg) [ip_address]
         then apply_filters blake2b_3 node_name cfg onvif_query urls found
         else if execute_filter (mac_addresses cfg) [mac_address]
         then apply_filters blake2b_3 node_name cfg onvif_query urls found
         else do {
           s \<leftarrow> get_device_scopes onvif_query url;
           case s of
             Panic p \<Rightarrow> return (Panic p)
           | Err e \<Rightarrow> apply_filters blake2b_3 node_name cfg onvif_query urls found
           | Ok device_scopes \<Rightarrow>
               if execute_filter (scopes cfg) device_scopes
               then apply_filters blake2b_3 node_name cfg onvif_query urls found
               else try_then (return (DiscoveryResult_new blake2b_3 node_name (dash ip_address mac_address)
                      (onvif_properties url ip_address mac_address) True)) (\<lambda>d.
                    apply_filters blake2b_3 node_name cfg onvif_query urls (found @ [d]))
         }
   }"

text \<open>\<open>discovery_timeout_seconds as u64\<close> wraps a negative \<open>i32\<close>.\<close>

definition i32_as_u64 :: "int \<Rightarrow> nat" where
  "i32_as_u64 n = nat (n mod 2 ^ 64)"

definition onvif_discover :: "'w onvif_probe \<Rightarrow> ('d, 'w) onvif_env \<Rightarrow> (string \<Rightarrow> nat list) \<Rightarrow> string option
    \<Rightarrow> OnvifDiscoveryHandlerConfig \<Rightarrow> ('w, DiscoveryResult list) io" where
  "onvif_discover net env blake2b_3 node_name cfg =
     try_then (simple_onvif_discover net (from_secs (i32_as_u64 (discovery_timeout_seconds cfg)))) (\<lambda>uris.
     apply_filters blake2b_3 node_name cfg (OnvifQueryImpl env) uris [])"

definition OnvifDiscoveryHandler :: "'w onvif_probe \<Rightarrow> ('d, 'w) onvif_env \<Rightarrow> (string \<Rightarrow> nat list) \<Rightarrow> string option
    \<Rightarrow> OnvifDiscoveryHandlerConfig \<Rightarrow> 'w discovery_handler" where
  "OnvifDiscoveryHandler net env blake2b_3 node_name cfg =
     \<lparr>discover = onvif_discover net env blake2b_3 node_name cfg, are_shared = Ok True\<rparr>"

section \<open>What a filter lets through\<close>

text \<open>
  An include filter lets a device through when one of its patterns occurs in one of the
  strings, an exclude filter when none does, no filter always.
\<close>

definition lets_through :: "FilterList option \<Rightarrow> string list \<Rightarrow> bool" where
  "lets_through filter_list xs = (case filter_list of
       None \<Rightarrow> True
     | Some fl \<Rightarrow> (action fl = Include) = list_ex (\<lambda>p. list_ex (\<lambda>x. contains_str x p) xs) (items fl))"

lemma contains_str_iff: "contains_str s p \<longleftrightarrow> (\<exists>u v. s = u @ p @ v)"
proof
  assume "contains_str s p"
  then obtain i where "take (length p) (drop i s) = p" by (auto simp: contains_str_def list_ex_iff)
  then have "s = take i s @ p @ drop (length p) (drop i s)" by (metis append_take_drop_id)
  then show "\<exists>u v. s = u @ p @ v" by blast
next
  assume "\<exists>u v. s = u @ p @ v"
  then obtain u v where "s = u @ p @ v" by blast
  then show "contains_str s p" by (auto simp: contains_str_def list_ex_iff intro!: bexI [of _ "length u"])
qed

lemma execute_filter_eq: "execute_filter fl xs \<longleftrightarrow> \<not> lets_through fl xs"
  by (auto simp: execute_filter_def lets_through_def list_ex_iff filter_empty_conv Let_def split: option.split)

text \<open>
  The filter test of the ONVIF handler is the negation of its meaning: it holds exactly for
  the devices to leave out. A pattern matches wherever it occurs as a part, so that an include
  filter on an IP address also lets through every address that contains it.
\<close>

theorem execute_filter_spec:
  "execute_filter (Some \<lparr>items = ps, action = a\<rparr>) xs \<longleftrightarrow>
     (a = Exclude \<longleftrightarrow> (\<exists>p x u v. p \<in> set ps \<and> x \<in> set xs \<and> x = u @ p @ v))"
  unfolding execute_filter_eq lets_through_def
  by (cases a) (auto simp: list_ex_iff contains_str_iff)

section \<open>Cameras\<close>

text \<open>Cameras that answer the same way throughout a search.\<close>

definition steady_cameras :: "'w OnvifQuery \<Rightarrow> (string \<Rightarrow> (string \<times> string, error) result)
    \<Rightarrow> (string \<Rightarrow> (string list, error) result) \<Rightarrow> bool" where
  "steady_cameras q addr scp \<longleftrightarrow>
     (\<forall>url w. fst (run_state (get_device_ip_and_mac_address q url) w) = addr url)
   \<and> (\<forall>url w. fst (run_state (get_device_scopes q url) w) = scp url)"

text \<open>
  The cameras that a Configuration asks for, with their addresses, and those on which the
  search panics: when the question about the addresses does, or, for a camera that the filters
  on the addresses let through, the question about the scopes.
\<close>

definition addresses_wanted :: "OnvifDiscoveryHandlerConfig \<Rightarrow> string \<times> string \<Rightarrow> bool" where
  "addresses_wanted cfg a = (case a of (ip, mac) \<Rightarrow>
     lets_through (ip_addresses cfg) [ip] \<and> lets_through (mac_addresses cfg) [mac])"

definition selected :: "OnvifDiscoveryHandlerConfig \<Rightarrow> (string \<Rightarrow> (string \<times> string, error) result)
    \<Rightarrow> (string \<Rightarrow> (string list, error) result) \<Rightarrow> string \<Rightarrow> (string \<times> string \<times> string) option" where
  "selected cfg addr scp url = (case (addr url, scp url) of
       (Ok (ip, mac), Ok ss) \<Rightarrow> if addresses_wanted cfg (ip, mac) \<and> lets_through (scopes cfg) ss
         then Some (url, ip, mac) else None
     | _ \<Rightarrow> None)"

definition panics_on :: "OnvifDiscoveryHandlerConfig \<Rightarrow> (string \<Rightarrow> (string \<times> string, error) result)
    \<Rightarrow> (string \<Rightarrow> (string list, error) result) \<Rightarrow> string \<Rightarrow> bool" where
  "panics_on cfg addr scp url = (case addr url of
       Panic p \<Rightarrow> True
     | Err e \<Rightarrow> False
     | Ok a \<Rightarrow> addresses_wanted cfg a \<and> is_panic (scp url))"

definition camera_result :: "(string \<Rightarrow> nat list) \<Rightarrow> string \<times> string \<times> string \<Rightarrow> DiscoveryResult" where
  "camera_result h c = (case c of (url, ip, mac) \<Rightarrow>
     \<lparr>digest = concat (map hex_byte (h (ip @ ''-'' @ mac))),
      dr_properties = [(''ONVIF_DEVICE_SERVICE_URL'', url), (''ONVIF_DEVICE_IP_ADDRESS'', ip), (''ONVIF_DEVICE_MAC_ADDRESS'', mac)]\<rparr>)"

lemma camera_result: "DiscoveryResult_new h node (dash ip mac) (onvif_properties url ip mac) True = Ok (camera_result h (url, ip, mac))"
  by (simp add: DiscoveryResult_new_def camera_result_def onvif_properties_def Let_def ONVIF_DEVICE_SERVICE_URL_LABEL_ID_def
      ONVIF_DEVICE_IP_ADDRESS_LABEL_ID_def ONVIF_DEVICE_MAC_ADDRESS_LABEL_ID_def)

lemma apply_filters_wp:
  assumes "steady_cameras q addr scp"
  shows "wp (apply_filters h node cfg q urls found) (\<lambda>r _. if list_ex (panics_on cfg addr scp) urls then is_panic r
      else r = Ok (found @ map (camera_result h) (List.map_filter (selected cfg addr scp) urls))) w"
proof (induction urls arbitrary: found w)
  case Nil
  then show ?case by (simp add: List.map_filter_simps)
next
  case (Cons url urls found w)
  define Q where "Q r (w' :: 'a) \<longleftrightarrow> (if list_ex (panics_on cfg addr scp) (url # urls) then is_panic r
      else r = Ok (found @ map (camera_result h) (List.map_filter (selected cfg addr scp) (url # urls))))"
    for r :: "(DiscoveryResult list, error) result" and w'
  have bad: "Q (Panic p) w'" if "panics_on cfg addr scp url" for p w' using that by (simp add: Q_def)
  have out: "wp (apply_filters h node cfg q urls found) Q w'"
    if "selected cfg addr scp url = None" "\<not> panics_on cfg addr scp url" for w'
    by (rule wp_mono [OF Cons.IH]) (use that in \<open>auto simp: Q_def List.map_filter_simps split: if_splits\<close>)
  have hit: "wp (apply_filters h node cfg q urls (found @ [camera_result h c])) Q w'"
    if "selected cfg addr scp url = Some c" "\<not> panics_on cfg addr scp url" for w' c
    by (rule wp_mono [OF Cons.IH]) (use that in \<open>auto simp: Q_def List.map_filter_simps split: if_splits\<close>)
  have a: "wp (get_device_ip_and_mac_address q url) (\<lambda>r _. r = addr url) w'" for w'
    using assms by (simp add: steady_cameras_def wp_def split_beta)
  have s: "wp (get_device_scopes q url) (\<lambda>r _. r = scp url) w'" for w'
    using assms by (simp add: steady_cameras_def wp_def split_beta)
  have "wp (apply_filters h node cfg q (url # urls) found) Q w"
  proof (cases "addr url")
    case (Ok p)
    obtain ip mac where p: "p = (ip, mac)" by (cases p)
    have scopes: "wp (get_device_scopes q url) (\<lambda>r. wp (case r of
         Panic p \<Rightarrow> return (Panic p) | Err e \<Rightarrow> apply_filters h node cfg q urls found
       | Ok device_scopes \<Rightarrow> if execute_filter (scopes cfg) device_scopes then apply_filters h node cfg q urls found
           else try_then (return (DiscoveryResult_new h node (dash ip mac) (onvif_properties url ip mac) True))
             (\<lambda>d. apply_filters h node cfg q urls (found @ [d]))) Q) w'" if "addresses_wanted cfg (ip, mac)" for w'
      by (rule wp_mono [OF s])
         (use Ok p that out hit bad in \<open>auto simp: execute_filter_eq camera_result [simplified] selected_def panics_on_def split: result.split\<close>)
    show ?thesis unfolding apply_filters.simps wp_bind
      by (rule wp_mono [OF a])
         (use Ok p out scopes [unfolded execute_filter_eq] in \<open>auto simp: execute_filter_eq addresses_wanted_def selected_def panics_on_def split: result.split\<close>)
  next
    case (Err e)
    then have "selected cfg addr scp url = None" "\<not> panics_on cfg addr scp url" by (simp_all add: selected_def panics_on_def)
    then show ?thesis unfolding apply_filters.simps wp_bind by (intro wp_mono [OF a]) (use Err out in simp)
  next
    case (Panic p)
    then show ?thesis unfolding apply_filters.simps wp_bind by (intro wp_mono [OF a]) (simp add: bad panics_on_def)
  qed
  then show ?case by (simp add: Q_def [abs_def])
qed

text \<open>
  The addresses that a probe gathers: those in the responses received before the task is
  cancelled, its socket fails or a response cannot be parsed; none when the probe was not sent.
\<close>

fun ends_probe :: "(string \<Rightarrow> string list option) \<Rightarrow> recv_event \<Rightarrow> bool" where
  "ends_probe from_str (Datagram s) \<longleftrightarrow> from_str s = None"
| "ends_probe from_str (NoData cancelled) \<longleftrightarrow> cancelled"
| "ends_probe from_str RecvFailed \<longleftrightarrow> True"

fun announces :: "(string \<Rightarrow> string list option) \<Rightarrow> recv_event \<Rightarrow> string list" where
  "announces from_str (Datagram s) = concat (map split_whitespace (the (from_str s)))"
| "announces from_str _ = []"

definition announced :: "(string \<Rightarrow> string list option) \<Rightarrow> probe_run \<Rightarrow> string list" where
  "announced from_str run = (if send_result run = Sent
     then concat (map (announces from_str) (takeWhile (\<lambda>ev. \<not> ends_probe from_str ev) (socket_events run))) else [])"

lemma receive_loop_announces:
  "receive_loop from_str evs ds = ds @ concat (map (announces from_str) (takeWhile (\<lambda>ev. \<not> ends_probe from_str ev) evs))"
  by (induction from_str evs ds rule: receive_loop.induct)
     (auto simp: get_device_uris_from_discovery_response_def split: option.split)

lemma pushed_devices_announced: "pushed_devices from_str run = announced from_str run"
  by (simp add: pushed_devices_def announced_def receive_loop_announces split: send_outcome.split)

text \<open>
  C34: ONVIF discovery, for cameras that answer the same way throughout it. The addresses taken
  up are those announced in the probe responses until the timeout; a response that is not the
  expected XML, a failure of the socket or a cancellation ends what is announced. The discovery
  panics if and only if one of the questions to an announced camera does (a camera that does
  not take the connection, for example). Otherwise it returns, in the order of the addresses,
  exactly the cameras that answer both questions and that the filters on the IP address, the
  MAC address and the scopes all let through, each with its URL, IP address and MAC address as
  properties and a digest over the two addresses; a camera that answers with an error is left
  out and stops nothing.
\<close>

theorem onvif_discover_spec:
  assumes "steady_cameras (OnvifQueryImpl env) addr scp"
    and "run_state (new_v4 net) w = (u, w1)"
    and "yaserde_to_string net (discovery_envelope (''uuid:'' @ u)) = Ok msg"
    and "run_state (probe net msg (i32_as_u64 (discovery_timeout_seconds cfg))) w1 = (run, w2)"
    and "urls = take (pushes_seen run) (announced (yaserde_from_str net) run)"
    and "fst (run_state (discover (OnvifDiscoveryHandler net env h node cfg)) w) = r"
  shows "if list_ex (panics_on cfg addr scp) urls then is_panic r
    else r = Ok (map (camera_result h) (List.map_filter (selected cfg addr scp) urls))"
proof -
  have "wp (simple_onvif_discover net (from_secs (i32_as_u64 (discovery_timeout_seconds cfg))))
      (\<lambda>r w'. r = Ok urls \<and> True) w"
    using assms(2-5) unfolding simple_onvif_discover_def create_onvif_discovery_message_def
    by (simp add: wp_def State_Monad.bind_def pushed_devices_announced)
  then have "wp (onvif_discover net env h node cfg) (\<lambda>r _. if list_ex (panics_on cfg addr scp) urls then is_panic r
      else r = Ok ([] @ map (camera_result h) (List.map_filter (selected cfg addr scp) urls))) w"
    unfolding onvif_discover_def by (rule wp_try_then_ok) (rule apply_filters_wp [OF assms(1)])
  then show ?thesis using assms(6) by (auto simp: OnvifDiscoveryHandler_def wp_def split_beta split: if_splits)
qed

text \<open>Cameras whose documents are their URLs, and a probe that two of them answer.\<close>

definition camera_env :: "(string, unit) onvif_env" where
  "camera_env = \<lparr>hyper_request = (\<lambda>url mime body. return (Ok (200, Ok (Some url)))),
     parse_document = Some, evaluate_xpath = (\<lambda>doc q. Ok (ValueNodeset [doc])), value_string = (\<lambda>_. [])\<rparr>"

definition camera_probe :: "unit onvif_probe" where
  "camera_probe = \<lparr>probe = (\<lambda>msg secs. return \<lparr>send_result = Sent,
       socket_events = [Datagram ''cam1 cam2'', NoData False, Datagram ''cam13'', NoData True], pushes_seen = 3\<rparr>),
     yaserde_to_string = (\<lambda>e. Ok (message_id e)), yaserde_from_str = (\<lambda>s. Some [s]), new_v4 = return ''1''\<rparr>"

definition camera_config :: OnvifDiscoveryHandlerConfig where
  "camera_config = \<lparr>ip_addresses = Some \<lparr>items = [''cam1''], action = Include\<rparr>, mac_addresses = None,
     scopes = Some \<lparr>items = [''cam2''], action = Exclude\<rparr>, discovery_timeout_seconds = 1\<rparr>"

lemma camera_env_steady: "steady_cameras (OnvifQueryImpl camera_env) (\<lambda>url. Ok (url, url)) (\<lambda>url. Ok [url])"
  by (simp add: steady_cameras_def OnvifQueryImpl_def inner_get_device_ip_and_mac_address_def
      inner_get_device_scopes_def post_or_def post_def camera_env_def try_then_def unwrapped_def
      handle_request_body_def first_value_def node_values_def Let_def)

theorem onvif_discover_spec_witness:
  "fst (run_state (discover (OnvifDiscoveryHandler camera_probe camera_env (\<lambda>s. [1]) None camera_config)) ()) =
    Ok (map (camera_result (\<lambda>s. [1])) [(''cam1'', ''cam1'', ''cam1''), (''cam13'', ''cam13'', ''cam13'')])"
proof -
  let ?run = "\<lparr>send_result = Sent, socket_events = [Datagram ''cam1 cam2'', NoData False, Datagram ''cam13'', NoData True],
    pushes_seen = 3\<rparr>"
  have run: "run_state (new_v4 camera_probe) () = (''1'', ())"
    "yaserde_to_string camera_probe (discovery_envelope (''uuid:'' @ ''1'')) = Ok ''uuid:1''"
    "run_state (probe camera_probe ''uuid:1'' (i32_as_u64 (discovery_timeout_seconds camera_config))) () = (?run, ())"
    by (simp_all add: camera_probe_def discovery_envelope_def)
  have uris: "[''cam1'', ''cam2'', ''cam13''] = take (pushes_seen ?run) (announced (yaserde_from_str camera_probe) ?run)"
    by (simp add: announced_def camera_probe_def is_whitespace_def)
  have "List.map_filter (selected camera_config (\<lambda>url. Ok (url, url)) (\<lambda>url. Ok [url])) [''cam1'', ''cam2'', ''cam13'']
      = [(''cam1'', ''cam1'', ''cam1''), (''cam13'', ''cam13'', ''cam13'')]" by code_simp
  moreover have "\<not> panics_on camera_config (\<lambda>url. Ok (url, url)) (\<lambda>url. Ok [url]) url" for url
    by (simp add: panics_on_def)
  ultimately show ?thesis
    using onvif_discover_spec [OF camera_env_steady run uris refl, of "\<lambda>s. [1]" None] by (simp add: list_ex_iff)
qed

text \<open>
  One response that is not the expected XML ends the collection: the task panics, and
  whatever other cameras answer afterwards is lost, without an error.
\<close>

theorem onvif_bad_response:
  assumes "yaserde_from_str net s = None"
  shows "receive_loop (yaserde_from_str net) (evs @ Datagram s # later) devices = receive_loop (yaserde_from_str net) evs devices"
  by (induction "yaserde_from_str net" evs devices rule: receive_loop.induct)
     (auto simp: get_device_uris_from_discovery_response_def assms split: result.split)

theorem onvif_bad_response_witness:
  "receive_loop (\<lambda>s. if s = ''junk'' then None else Some [s]) [Datagram ''cam1'', Datagram ''junk'', Datagram ''cam2''] [] = [''cam1'']"
  using onvif_bad_response [of "camera_probe\<lparr>yaserde_from_str := \<lambda>s. if s = ''junk'' then None else Some [s]\<rparr>" "''junk''"
      "[Datagram ''cam1'']" "[Datagram ''cam2'']" "[]"]
  by (simp add: get_device_uris_from_discovery_response_def is_whitespace_def)

text \<open>
  A camera that was announced and does not take the connection is not skipped like other
  failures: the HTTP client's error is unwrapped, so that the whole discovery panics.
\<close>

theorem onvif_unreachable_camera:
  assumes "fst (run_state (hyper_request env url (''application/soap+xml; charset=utf-8; ''
      @ get_action DEVICE_WSDL ''GetNetworkInterfaces'' @ '';'') GET_NETWORK_INTERFACES_TEMPLATE) w) = Err e"
  shows "is_panic (fst (run_state (apply_filters h node cfg (OnvifQueryImpl env) (url # urls) found) w))"
proof -
  have "wp (get_device_ip_and_mac_address (OnvifQueryImpl env) url) (\<lambda>r _. is_panic r) w"
    using assms by (simp add: OnvifQueryImpl_def inner_get_device_ip_and_mac_address_def post_or_def post_def wp_unwrapped
        Let_def wp_def split_beta)
  then have "wp (apply_filters h node cfg (OnvifQueryImpl env) (url # urls) found) (\<lambda>r _. is_panic r) w"
    unfolding apply_filters.simps wp_bind by (rule wp_mono) (auto elim: is_panic.elims)
  then show ?thesis by (simp add: wp_def split_beta)
qed

theorem onvif_unreachable_camera_witness:
  "is_panic (fst (run_state (apply_filters (\<lambda>s. [1]) None camera_config
     (OnvifQueryImpl (camera_env\<lparr>hyper_request := \<lambda>url mime body. return (Err (Msg ''connection refused''))\<rparr>)) [''cam1'', ''cam2''] []) ()))"
  by (rule onvif_unreachable_camera) simp

end
