(* ===== verification/Opcua_Discovery.thy ===== *)
theory Opcua_Discovery
  imports Discovery
begin

text \<open>
  Discovery of OPC UA servers: \<open>agent/src/protocols/opcua/discovery_impl.rs\<close>,
  \<open>discovery_handler.rs\<close> and the wrappers of \<open>opcua/mod.rs\<close>. The crates \<open>url\<close> and \<open>opcua\<close>, name
  resolution and the network are parameters. A \<open>UAString\<close> is the text it displays.
\<close>

section \<open>The environment\<close>

datatype ApplicationType = Server | Client | ClientAndServer | DiscoveryServer

record ApplicationDescription =
  application_name :: string
  application_type :: ApplicationType
  ad_discovery_urls :: "string list option"

record parsed_url =
  scheme :: string
  host_str :: "string option"
  port :: "nat option"

type_synonym SocketAddr = string

record 'w opcua_env =
  Url_parse :: "string \<Rightarrow> parsed_url option"
  OPC_TCP_SCHEME :: string
  to_socket_addrs :: "string \<Rightarrow> ('w, SocketAddr list) io"
  connect_timeout :: "SocketAddr \<Rightarrow> nat \<Rightarrow> ('w, unit) io"
  opcua_client :: "('w, unit) io"
  find_servers :: "string \<Rightarrow> ('w, ApplicationDescription list) io"

definition TCP_CONNECTION_TEST_TIMEOUT_SECS :: nat where "TCP_CONNECTION_TEST_TIMEOUT_SECS = 3"
definition OPCUA_DISCOVERY_URL_LABEL :: string where "OPCUA_DISCOVERY_URL_LABEL = ''OPCUA_DISCOVERY_URL''"

section \<open>Discovery\<close>

definition get_socket_addr :: "'w opcua_env \<Rightarrow> string \<Rightarrow> ('w, SocketAddr) io" where
  "get_socket_addr env url =
     try_then (return (ok_or (Url_parse env url) (Msg ''could not parse url''))) (\<lambda>u.
     if scheme u \<noteq> OPC_TCP_SCHEME env then return (Err (Msg ''format of OPC UA url is not valid''))
     else try_then (return (unwrap (host_str u))) (\<lambda>host.
     try_then (return (ok_or (port u) (Msg ''provided discoveryURL is missing port''))) (\<lambda>p.
     try_then (unwrapped (to_socket_addrs env (host @ '':'' @ show_nat p))) (\<lambda>addrs.
     return (case addrs of a # _ \<Rightarrow> Ok a | [] \<Rightarrow> unwrap None)))))"

definition test_tcp_connection :: "'w opcua_env \<Rightarrow> string \<Rightarrow> ('w, unit) io" where
  "test_tcp_connection env url =
     try_then (get_socket_addr env url) (\<lambda>socket_addr. do {
       r \<leftarrow> connect_timeout env socket_addr (from_secs TCP_CONNECTION_TEST_TIMEOUT_SECS);
       return (case r of Ok _ \<Rightarrow> Ok () | Err e \<Rightarrow> Err e | Panic p \<Rightarrow> Panic p)
     })"

definition starts_with :: "string \<Rightarrow> string \<Rightarrow> bool" where
  "starts_with p s \<longleftrightarrow> take (length p) s = p"

definition get_discovery_url_from_application_description ::
  "string \<Rightarrow> ApplicationDescription \<Rightarrow> FilterList option \<Rightarrow> (string option, error) result" where
  "get_discovery_url_from_application_description tcp_scheme server filter_list =
     (if application_type server \<noteq> Server then Ok None
      else if \<not> should_include filter_list (application_name server) then Ok None
      else case ad_discovery_urls server of
          Some server_discovery_urls \<Rightarrow>
            (case find (starts_with tcp_scheme) server_discovery_urls of
               Some tcp_discovery_url \<Rightarrow> Ok (Some tcp_discovery_url)
             | None \<Rightarrow> (case server_discovery_urls of
                   first # _ \<Rightarrow> Ok (Some first)
                 | [] \<Rightarrow> Panic ''index out of bounds''))
        | None \<Rightarrow> Ok None)"

text \<open>\<open>filter_map\<close> over the applications of an answer.\<close>

fun servers_discovery_urls :: "string \<Rightarrow> FilterList option \<Rightarrow> ApplicationDescription list
    \<Rightarrow> (string list, error) result" where
  "servers_discovery_urls tcp_scheme filter_list [] = Ok []"
| "servers_discovery_urls tcp_scheme filter_list (application # applications) =
     res_then (get_discovery_url_from_application_description tcp_scheme application filter_list) (\<lambda>u.
     res_then (servers_discovery_urls tcp_scheme filter_list applications) (\<lambda>urls.
     Ok (case u of Some url \<Rightarrow> url # urls | None \<Rightarrow> urls)))"

text \<open>The closure of the loop appends to \<open>discovery_urls\<close>; a panic leaves it.\<close>

fun append_discovery_urls :: "'w opcua_env \<Rightarrow> FilterList option \<Rightarrow> string list \<Rightarrow> string list
    \<Rightarrow> ('w, string list) io" where
  "append_discovery_urls env filter_list [] found_urls = return (Ok found_urls)"
| "append_discovery_urls env filter_list (url # lds_urls) found_urls = do {
     t \<leftarrow> test_tcp_connection env url;
     case t of
       Err e \<Rightarrow> append_discovery_urls env filter_list lds_urls found_urls
     | Panic p \<Rightarrow> return (Panic p)
     | Ok _ \<Rightarrow> do {
         found \<leftarrow> find_servers env url;
         case found of
           Ok applications \<Rightarrow>
             try_then (return (servers_discovery_urls (OPC_TCP_SCHEME env) filter_list applications)) (\<lambda>urls.
             append_discovery_urls env filter_list lds_urls (found_urls @ urls))
         | Err err \<Rightarrow> append_discovery_urls env filter_list lds_urls found_urls
         | Panic p \<Rightarrow> return (Panic p)
       }
   }"

text \<open>\<open>Vec::dedup\<close> removes an element that equals the one before it.\<close>

definition get_discovery_urls :: "'w opcua_env \<Rightarrow> string list \<Rightarrow> FilterList option \<Rightarrow> ('w, string list) io" where
  "get_discovery_urls env lds_urls filter_list =
     try_then (append_discovery_urls env filter_list lds_urls []) (\<lambda>found_urls.
     return (Ok (remdups_adj found_urls)))"

definition do_standard_discovery :: "'w opcua_env \<Rightarrow> string list \<Rightarrow> FilterList option \<Rightarrow> ('w, string list) io" where
  "do_standard_discovery env urls filter_list =
     try_then (unwrapped (opcua_client env)) (\<lambda>_. get_discovery_urls env urls filter_list)"

definition opcua_discover :: "'w opcua_env \<Rightarrow> (string \<Rightarrow> nat list) \<Rightarrow> string option
    \<Rightarrow> OpcuaDiscoveryHandlerConfig \<Rightarrow> ('w, DiscoveryResult list) io" where
  "opcua_discover env blake2b_3 node_name cfg =
     (case opcua_discovery_method cfg of standard m \<Rightarrow>
        try_then (do_standard_discovery env (discovery_urls m) (application_names cfg)) (\<lambda>urls.
        return (collect_results (map (\<lambda>discovery_url.
          DiscoveryResult_new blake2b_3 node_name discovery_url
            (hm_insert OPCUA_DISCOVERY_URL_LABEL discovery_url []) True) urls))))"

definition OpcuaDiscoveryHandler :: "'w opcua_env \<Rightarrow> (string \<Rightarrow> nat list) \<Rightarrow> string option
    \<Rightarrow> OpcuaDiscoveryHandlerConfig \<Rightarrow> 'w discovery_handler" where
  "OpcuaDiscoveryHandler env blake2b_3 node_name cfg =
     \<lparr>discover = opcua_discover env blake2b_3 node_name cfg, are_shared = Ok True\<rparr>"

section \<open>Servers and their URLs\<close>

text \<open>A server is wanted when it is a server, passes the filter and has URLs.\<close>

definition wanted :: "FilterList option \<Rightarrow> ApplicationDescription \<Rightarrow> bool" where
  "wanted fl a \<longleftrightarrow> application_type a = Server \<and> passes fl (application_name a) \<and> ad_discovery_urls a \<noteq> None"

definition preferred_url :: "string \<Rightarrow> ApplicationDescription \<Rightarrow> string" where
  "preferred_url tcp a = (let us = the (ad_discovery_urls a)
     in case find (starts_with tcp) us of Some u \<Rightarrow> u | None \<Rightarrow> hd us)"

lemma application_url: "get_discovery_url_from_application_description tcp a fl =
    (if \<not> wanted fl a then Ok None
     else if ad_discovery_urls a = Some [] then Panic ''index out of bounds''
     else Ok (Some (preferred_url tcp a)))"
  by (auto simp: get_discovery_url_from_application_description_def wanted_def preferred_url_def should_include_passes
      split: option.split list.split)

lemma servers_discovery_urls_eq: "list_all (\<lambda>a. \<not> wanted fl a \<or> ad_discovery_urls a \<noteq> Some []) apps \<Longrightarrow>
    servers_discovery_urls tcp fl apps = Ok (map (preferred_url tcp) (filter (wanted fl) apps))"
  by (induction apps) (auto simp: application_url)

lemma is_panic_res_then: "is_panic r \<Longrightarrow> is_panic (res_then r f)"
  by (cases r) simp_all

lemma servers_discovery_urls_panic: "list_ex (\<lambda>a. wanted fl a \<and> ad_discovery_urls a = Some []) apps \<Longrightarrow>
    is_panic (servers_discovery_urls tcp fl apps)"
  by (induction apps) (auto simp: application_url is_panic_res_then)

text \<open>
  Which URL of an application is used: none unless it is a server that passes the filter
  on its name and announces URLs; otherwise one of those it announces, and one of the TCP
  scheme if there is any. The only panic is on a server that announces an empty list.
\<close>

theorem application_url_spec:
  "get_discovery_url_from_application_description tcp a fl =
     (if application_type a = Server \<and> passes fl (application_name a) then
        (case ad_discovery_urls a of
           None \<Rightarrow> Ok None
         | Some [] \<Rightarrow> Panic ''index out of bounds''
         | Some (u # us) \<Rightarrow> Ok (Some (preferred_url tcp a)))
      else Ok None)
   \<and> (ad_discovery_urls a = Some (u # us) \<longrightarrow> preferred_url tcp a \<in> set (u # us)
      \<and> (list_ex (starts_with tcp) (u # us) \<longrightarrow> starts_with tcp (preferred_url tcp a)))"
proof -
  have "preferred_url tcp a \<in> set (u # us) \<and> (list_ex (starts_with tcp) (u # us) \<longrightarrow> starts_with tcp (preferred_url tcp a))"
    if "ad_discovery_urls a = Some (u # us)"
    using that by (auto simp: preferred_url_def find_None_iff find_Some_iff list_ex_iff split: option.split)
  then show ?thesis
    by (auto simp: application_url wanted_def split: option.split list.split)
qed

definition plant_server :: ApplicationDescription where
  "plant_server = \<lparr>application_name = ''Plant'', application_type = Server,
     ad_discovery_urls = Some [''https://10.0.0.5:4843/'', ''opc.tcp://10.0.0.5:4840/'']\<rparr>"

theorem application_url_spec_witness:
  "get_discovery_url_from_application_description ''opc.tcp'' plant_server None = Ok (Some ''opc.tcp://10.0.0.5:4840/'')
   \<and> starts_with ''opc.tcp'' (preferred_url ''opc.tcp'' plant_server)"
proof -
  have "preferred_url ''opc.tcp'' plant_server = ''opc.tcp://10.0.0.5:4840/''" by code_simp
  with application_url_spec [of "''opc.tcp''" plant_server None "''https://10.0.0.5:4843/''" "[''opc.tcp://10.0.0.5:4840/'']"]
  show ?thesis by (simp add: plant_server_def passes_def starts_with_def)
qed

section \<open>The search through the discovery URLs\<close>

text \<open>
  A network that stays the same during the search: \<open>resolves\<close> is name resolution, \<open>connects\<close>
  tells which addresses take a connection, and \<open>answers\<close> what a discovery endpoint reports.
\<close>

record network =
  resolves :: "string \<Rightarrow> (SocketAddr list, error) result"
  connects :: "SocketAddr \<Rightarrow> bool"
  answers :: "string \<Rightarrow> (ApplicationDescription list, error) result"

definition steady :: "'w opcua_env \<Rightarrow> network \<Rightarrow> bool" where
  "steady env net \<longleftrightarrow>
     (\<forall>h w. fst (run_state (to_socket_addrs env h) w) = resolves net h)
   \<and> (\<forall>a t w. is_ok (fst (run_state (connect_timeout env a t) w)) = connects net a
        \<and> \<not> is_panic (fst (run_state (connect_timeout env a t) w)))
   \<and> (\<forall>url w. fst (run_state (find_servers env url) w) = answers net url)
   \<and> (\<forall>w. fst (run_state (opcua_client env) w) = Ok ())"

text \<open>
  The address of a URL (\<open>None\<close> when it has none because it cannot be parsed, has another scheme
  or no port), and the URLs on which the code does not panic: those of the right scheme have a
  host, and its name resolves to at least one address.
\<close>

definition url_addrs :: "'w opcua_env \<Rightarrow> network \<Rightarrow> string \<Rightarrow> (SocketAddr list, error) result option" where
  "url_addrs env net url = (case Url_parse env url of
       Some u \<Rightarrow> if scheme u = OPC_TCP_SCHEME env then
           (case (host_str u, port u) of
              (Some h, Some p) \<Rightarrow> Some (resolves net (h @ '':'' @ show_nat p))
            | _ \<Rightarrow> None)
         else None
     | None \<Rightarrow> None)"

definition reachable_url :: "'w opcua_env \<Rightarrow> network \<Rightarrow> string \<Rightarrow> bool" where
  "reachable_url env net url = (case url_addrs env net url of Some (Ok (a # _)) \<Rightarrow> connects net a | _ \<Rightarrow> False)"

definition url_safe :: "'w opcua_env \<Rightarrow> network \<Rightarrow> string \<Rightarrow> bool" where
  "url_safe env net url \<longleftrightarrow>
     (case Url_parse env url of Some u \<Rightarrow> scheme u = OPC_TCP_SCHEME env \<longrightarrow> host_str u \<noteq> None | None \<Rightarrow> True)
   \<and> (case url_addrs env net url of Some r \<Rightarrow> (case r of Ok (a # _) \<Rightarrow> True | _ \<Rightarrow> False) | None \<Rightarrow> True)"

definition endpoint_servers :: "'w opcua_env \<Rightarrow> network \<Rightarrow> FilterList option \<Rightarrow> string \<Rightarrow> ApplicationDescription list" where
  "endpoint_servers env net fl url =
     (if reachable_url env net url then (case answers net url of Ok apps \<Rightarrow> filter (wanted fl) apps | _ \<Rightarrow> []) else [])"

definition endpoint_safe :: "'w opcua_env \<Rightarrow> network \<Rightarrow> FilterList option \<Rightarrow> string \<Rightarrow> bool" where
  "endpoint_safe env net fl url \<longleftrightarrow> url_safe env net url
     \<and> (reachable_url env net url \<longrightarrow> \<not> is_panic (answers net url))
     \<and> list_all (\<lambda>a. ad_discovery_urls a \<noteq> Some []) (endpoint_servers env net fl url)"

lemma get_socket_addr_wp:
  assumes "steady env net"
  shows "wp (get_socket_addr env url) (\<lambda>r _. if \<not> url_safe env net url then is_panic r else
      case url_addrs env net url of Some (Ok (a # _)) \<Rightarrow> r = Ok a | _ \<Rightarrow> \<exists>e. r = Err e) w"
proof -
  have dns: "wp (to_socket_addrs env h) (\<lambda>r _. r = resolves net h) w'" for h w'
    using assms(1) by (simp add: steady_def wp_def split_beta)
  show ?thesis
    unfolding get_socket_addr_def url_addrs_def url_safe_def
    by (auto simp: wp_unwrapped split: option.splits result.splits list.splits intro!: wp_mono [OF dns])
qed

lemma test_tcp_connection_wp:
  assumes "steady env net"
  shows "wp (test_tcp_connection env url) (\<lambda>r _. if \<not> url_safe env net url then is_panic r
      else if reachable_url env net url then r = Ok () else \<exists>e. r = Err e) w"
proof -
  have conn: "wp (connect_timeout env a t) (\<lambda>r _. is_ok r = connects net a \<and> \<not> is_panic r) w'" for a t w'
    using assms(1) by (simp add: steady_def wp_def split_beta)
  show ?thesis unfolding test_tcp_connection_def wp_try_then reachable_url_def
    by (rule wp_mono [OF get_socket_addr_wp [OF assms]])
       (auto simp: is_ok_iff split: option.splits result.splits list.splits if_splits intro!: wp_mono [OF conn])
qed

text \<open>What one endpoint contributes.\<close>

definition endpoint_urls :: "'w opcua_env \<Rightarrow> network \<Rightarrow> FilterList option \<Rightarrow> string \<Rightarrow> string list" where
  "endpoint_urls env net fl url = map (preferred_url (OPC_TCP_SCHEME env)) (endpoint_servers env net fl url)"

lemma endpoint_answer:
  assumes "reachable_url env net url" "url_safe env net url"
  shows "case answers net url of
      Ok apps \<Rightarrow> (if endpoint_safe env net fl url
         then servers_discovery_urls (OPC_TCP_SCHEME env) fl apps = Ok (endpoint_urls env net fl url)
         else is_panic (servers_discovery_urls (OPC_TCP_SCHEME env) fl apps))
    | Err e \<Rightarrow> endpoint_safe env net fl url \<and> endpoint_urls env net fl url = []
    | Panic p \<Rightarrow> \<not> endpoint_safe env net fl url"
proof (cases "answers net url")
  case (Ok apps)
  then have safe: "endpoint_safe env net fl url \<longleftrightarrow> list_all (\<lambda>a. \<not> wanted fl a \<or> ad_discovery_urls a \<noteq> Some []) apps"
    using assms by (auto simp: endpoint_safe_def endpoint_servers_def list_all_iff)
  have "list_ex (\<lambda>a. wanted fl a \<and> ad_discovery_urls a = Some []) apps" if "\<not> endpoint_safe env net fl url"
    using that unfolding safe by (auto simp: list_all_iff list_ex_iff)
  with safe Ok assms show ?thesis
    by (simp add: servers_discovery_urls_eq servers_discovery_urls_panic endpoint_urls_def endpoint_servers_def)
qed (use assms in \<open>simp_all add: endpoint_safe_def endpoint_urls_def endpoint_servers_def\<close>)

lemma append_discovery_urls_wp:
  assumes "steady env net"
  shows "wp (append_discovery_urls env fl urls acc) (\<lambda>r _. if list_all (endpoint_safe env net fl) urls
      then r = Ok (acc @ concat (map (endpoint_urls env net fl) urls)) else is_panic r) w"
proof (induction urls arbitrary: acc w)
  case (Cons url urls acc w)
  let ?Q = "\<lambda>r (_ :: 'a). if list_all (endpoint_safe env net fl) (url # urls)
      then r = Ok (acc @ concat (map (endpoint_urls env net fl) (url # urls))) else is_panic r"
  have ans: "wp (find_servers env url) (\<lambda>r _. r = answers net url) w'" for w'
    using assms(1) by (simp add: steady_def wp_def split_beta)
  have go: "wp (append_discovery_urls env fl urls (acc @ endpoint_urls env net fl url)) ?Q w'"
    if "endpoint_safe env net fl url" for w'
    by (rule wp_mono [OF Cons.IH]) (use that in \<open>auto split: if_splits\<close>)
  have skip: "wp (append_discovery_urls env fl urls acc) ?Q w'"
    if "endpoint_safe env net fl url" "endpoint_urls env net fl url = []" for w'
    using go [OF that(1)] that(2) by simp
  have found: "wp (find_servers env url) (\<lambda>found. wp (case found of
        Ok applications \<Rightarrow> try_then (return (servers_discovery_urls (OPC_TCP_SCHEME env) fl applications))
          (\<lambda>us. append_discovery_urls env fl urls (acc @ us))
      | Err err \<Rightarrow> append_discovery_urls env fl urls acc
      | Panic p \<Rightarrow> return (Panic p)) ?Q) w'" if "reachable_url env net url" "url_safe env net url" for w'
  proof (rule wp_mono [OF ans], goal_cases)
    case (1 r w1)
    show ?case
    proof (cases "answers net url")
      case (Ok apps)
      then show ?thesis using endpoint_answer [OF that, of fl] go 1
        by (cases "endpoint_safe env net fl url") (auto elim!: is_panic.elims)
    qed (use endpoint_answer [OF that, of fl] skip 1 in simp_all)
  qed
  have off: "endpoint_safe env net fl url \<and> endpoint_urls env net fl url = []"
    if "\<not> reachable_url env net url" "url_safe env net url"
    using that by (simp add: endpoint_safe_def endpoint_urls_def endpoint_servers_def)
  have unsafe: "\<not> endpoint_safe env net fl url" if "\<not> url_safe env net url"
    using that by (simp add: endpoint_safe_def)
  show ?case unfolding append_discovery_urls.simps wp_bind
  proof (rule wp_mono [OF test_tcp_connection_wp [OF assms]], goal_cases)
    case (1 t w1)
    then show ?case using found skip off unsafe
      by (cases t; cases "url_safe env net url"; cases "reachable_url env net url") simp_all
  qed
qed simp

text \<open>The URLs that discovery returns: those of the endpoints in turn, without those that repeat their predecessor.\<close>

definition found_urls :: "'w opcua_env \<Rightarrow> network \<Rightarrow> FilterList option \<Rightarrow> string list \<Rightarrow> string list" where
  "found_urls env net fl urls = remdups_adj (concat (map (endpoint_urls env net fl) urls))"

lemma opcua_discover_wp:
  assumes "steady env net" "opcua_discovery_method cfg = standard \<lparr>discovery_urls = urls\<rparr>"
  shows "wp (opcua_discover env h node cfg) (\<lambda>r _. if list_all (endpoint_safe env net (application_names cfg)) urls
      then r = Ok (map (\<lambda>u. \<lparr>digest = concat (map hex_byte (h u)), dr_properties = [(''OPCUA_DISCOVERY_URL'', u)]\<rparr>)
        (found_urls env net (application_names cfg) urls))
      else is_panic r) w"
proof -
  let ?safe = "list_all (endpoint_safe env net (application_names cfg)) urls"
  have client: "wp (unwrapped (opcua_client env)) (\<lambda>r w'. r = Ok () \<and> True) w"
    using assms(1) by (simp add: wp_unwrapped steady_def wp_def split_beta)
  have collect: "collect_results (map (\<lambda>u. DiscoveryResult_new h node u [(OPCUA_DISCOVERY_URL_LABEL, u)] True) us)
      = Ok (map (\<lambda>u. \<lparr>digest = concat (map hex_byte (h u)), dr_properties = [(''OPCUA_DISCOVERY_URL'', u)]\<rparr>) us)" for us
    by (induction us) (auto simp: DiscoveryResult_new_def OPCUA_DISCOVERY_URL_LABEL_def)
  have std: "wp (do_standard_discovery env urls (application_names cfg)) (\<lambda>r _. if ?safe
      then r = Ok (found_urls env net (application_names cfg) urls) else is_panic r) w"
    unfolding do_standard_discovery_def get_discovery_urls_def
    by (rule wp_try_then_ok [OF client], unfold wp_try_then,
        rule wp_mono [OF append_discovery_urls_wp [OF assms(1), of "application_names cfg" urls "[]"]])
       (auto simp: found_urls_def split: if_splits elim!: is_panic.elims)
  show ?thesis unfolding opcua_discover_def assms(2) OpcuaDiscoveryMethod.case StandardOpcuaDiscovery.simps wp_try_then
    by (rule wp_mono [OF std]) (auto simp: collect split: if_splits elim!: is_panic.elims)
qed

text \<open>
  C33: OPC UA discovery on a network that stays the same during it. It panics if and only if
  some configured URL is of the right scheme but without a host or with a host name that
  does not resolve, or leads to an endpoint that reports a wanted server with an empty list of
  URLs (or on which the OPC UA client itself panics). Otherwise it returns, in the order of the configured URLs and of the answers, the
  preferred URL of every server that passes the filter on its name and that is reported by an
  endpoint which takes a connection, without those that repeat their predecessor; configured
  URLs that cannot be parsed, take no connection or answer with an error contribute nothing
  and stop nothing. Whether the reported servers themselves can be reached is not tested.
\<close>

theorem opcua_discover_spec:
  assumes "steady env net" "opcua_discovery_method cfg = standard \<lparr>discovery_urls = urls\<rparr>"
    and "fst (run_state (discover (OpcuaDiscoveryHandler env h node cfg)) w) = r"
  shows "if list_all (endpoint_safe env net (application_names cfg)) urls
    then r = Ok (map (\<lambda>u. \<lparr>digest = concat (map hex_byte (h u)), dr_properties = [(''OPCUA_DISCOVERY_URL'', u)]\<rparr>)
      (found_urls env net (application_names cfg) urls))
    else is_panic r"
  using opcua_discover_wp [OF assms(1,2), of h node w] assms(3)
  by (auto simp: OpcuaDiscoveryHandler_def wp_def split_beta)

text \<open>
  A plant with two discovery servers that know two servers; a third URL does not answer, and
  a fourth is no URL.
\<close>

definition plant_url :: "string \<Rightarrow> parsed_url option" where
  "plant_url url = (if url = ''bad'' then None
     else Some \<lparr>scheme = ''opc.tcp'', host_str = Some url, port = Some 4840\<rparr>)"

definition mixer_server :: ApplicationDescription where
  "mixer_server = \<lparr>application_name = ''Mixer'', application_type = Server,
     ad_discovery_urls = Some [''opc.tcp://10.0.0.6:4840/'']\<rparr>"

definition plant_network :: network where
  "plant_network = \<lparr>resolves = (\<lambda>h. Ok [h]), connects = (\<lambda>a. a \<noteq> ''off:4840''),
     answers = (\<lambda>url. if url = ''lds2'' then Ok [mixer_server]
       else Ok [\<lparr>application_name = ''LDS'', application_type = DiscoveryServer, ad_discovery_urls = None\<rparr>, plant_server])\<rparr>"

definition plant_env :: "unit opcua_env" where
  "plant_env = \<lparr>Url_parse = plant_url, OPC_TCP_SCHEME = ''opc.tcp'',
     to_socket_addrs = (\<lambda>h. return (resolves plant_network h)),
     connect_timeout = (\<lambda>a t. return (if connects plant_network a then Ok () else Err (Msg ''timed out''))),
     opcua_client = return (Ok ()),
     find_servers = (\<lambda>url. return (answers plant_network url))\<rparr>"

definition plant_config :: "string list \<Rightarrow> OpcuaDiscoveryHandlerConfig" where
  "plant_config urls = \<lparr>opcua_discovery_method = standard \<lparr>discovery_urls = urls\<rparr>, application_names = None\<rparr>"

lemma show_port: "show_nat 4840 = ''4840''"
  by (simp add: show_nat.simps digit_char_def char_of_def bit_0)

lemma preferred_plant: "preferred_url ''opc.tcp'' plant_server = ''opc.tcp://10.0.0.5:4840/''"
    "preferred_url ''opc.tcp'' mixer_server = ''opc.tcp://10.0.0.6:4840/''"
  by code_simp+

lemma plant_servers: "endpoint_servers plant_env plant_network None url =
    (if url = ''bad'' \<or> url = ''off'' then [] else if url = ''lds2'' then [mixer_server] else [plant_server])"
  by (simp add: endpoint_servers_def reachable_url_def url_addrs_def plant_env_def plant_network_def plant_url_def
      show_port wanted_def passes_def plant_server_def mixer_server_def)

lemma plant_scheme: "OPC_TCP_SCHEME plant_env = ''opc.tcp''"
  by (simp add: plant_env_def)

lemma plant_safe: "endpoint_safe plant_env plant_network None url"
proof -
  have "url_safe plant_env plant_network url"
    by (simp add: url_safe_def url_addrs_def plant_env_def plant_url_def plant_network_def)
  moreover have "\<not> is_panic (answers plant_network url)" by (simp add: plant_network_def)
  ultimately show ?thesis by (simp add: endpoint_safe_def plant_servers) (simp add: plant_server_def mixer_server_def)
qed

lemma plant_steady: "steady plant_env plant_network"
  by (simp add: steady_def plant_env_def)

theorem opcua_discover_spec_witness:
  "fst (run_state (discover (OpcuaDiscoveryHandler plant_env (\<lambda>u. [1]) None (plant_config [''lds1'', ''lds1'', ''bad'', ''off'', ''lds2'']))) ())
   = Ok [\<lparr>digest = ''01'', dr_properties = [(''OPCUA_DISCOVERY_URL'', ''opc.tcp://10.0.0.5:4840/'')]\<rparr>,
         \<lparr>digest = ''01'', dr_properties = [(''OPCUA_DISCOVERY_URL'', ''opc.tcp://10.0.0.6:4840/'')]\<rparr>]"
proof -
  let ?urls = "[''lds1'', ''lds1'', ''bad'', ''off'', ''lds2'']"
  have safe: "list_all (endpoint_safe plant_env plant_network (application_names (plant_config ?urls))) ?urls"
    by (simp add: plant_config_def plant_safe)
  have "found_urls plant_env plant_network (application_names (plant_config ?urls)) ?urls = [''opc.tcp://10.0.0.5:4840/'', ''opc.tcp://10.0.0.6:4840/'']"
    by (simp add: found_urls_def endpoint_urls_def plant_config_def plant_servers plant_scheme preferred_plant)
  moreover have "hex_byte 1 = ''01''" by code_simp
  ultimately show ?thesis
    using opcua_discover_spec [OF plant_steady _ refl, of "plant_config ?urls" ?urls "\<lambda>u. [1]" None "()"] safe
    by (simp add: plant_config_def)
qed

text \<open>
  A server that is registered with two discovery servers is discovered twice when another
  server was found in between: duplicates are removed only where they are adjacent, so that
  the handler returns two results with the same digest.
\<close>

theorem opcua_duplicate:
  "fst (run_state (discover (OpcuaDiscoveryHandler plant_env h node (plant_config [''lds1'', ''lds2'', ''lds1'']))) ())
   = Ok [\<lparr>digest = concat (map hex_byte (h ''opc.tcp://10.0.0.5:4840/'')),
           dr_properties = [(''OPCUA_DISCOVERY_URL'', ''opc.tcp://10.0.0.5:4840/'')]\<rparr>,
         \<lparr>digest = concat (map hex_byte (h ''opc.tcp://10.0.0.6:4840/'')),
           dr_properties = [(''OPCUA_DISCOVERY_URL'', ''opc.tcp://10.0.0.6:4840/'')]\<rparr>,
         \<lparr>digest = concat (map hex_byte (h ''opc.tcp://10.0.0.5:4840/'')),
           dr_properties = [(''OPCUA_DISCOVERY_URL'', ''opc.tcp://10.0.0.5:4840/'')]\<rparr>]"
proof -
  let ?urls = "[''lds1'', ''lds2'', ''lds1'']"
  have safe: "list_all (endpoint_safe plant_env plant_network (application_names (plant_config ?urls))) ?urls"
    by (simp add: plant_config_def plant_safe)
  have "found_urls plant_env plant_network (application_names (plant_config ?urls)) ?urls
      = [''opc.tcp://10.0.0.5:4840/'', ''opc.tcp://10.0.0.6:4840/'', ''opc.tcp://10.0.0.5:4840/'']"
    by (simp add: found_urls_def endpoint_urls_def plant_config_def plant_servers plant_scheme preferred_plant)
  then show ?thesis using opcua_discover_wp [OF plant_steady, of "plant_config ?urls" ?urls h node "()"] safe
    by (simp add: plant_config_def OpcuaDiscoveryHandler_def wp_def split_beta)
qed

end
