(* ===== verification/Webhook.thy ===== *)
theory Webhook
  imports Akri_Prelude
begin

text \<open>
  The admission webhook for Configurations: \<open>webhooks/validating/configuration/src/main.rs\<close>. A
  Configuration is admitted when everything it says survives being read into Akri's types and
  written out again. JSON is the data type of \<open>serde_json\<close>; reading and writing a
  \<open>KubeAkriConfig\<close> (derived by \<open>serde\<close>) and the rendering of an error are parameters.
\<close>

section \<open>JSON\<close>

text \<open>
  Numbers keep the distinction that \<open>serde_json::Number\<close> makes between integers and floats
  (of type \<open>'f\<close>). An object is an association list in the order of its map.
\<close>

datatype 'f number = Integer int | Float 'f

datatype 'f json =
    Null
  | Bool bool
  | Number "'f number"
  | String string
  | Array "'f json list"
  | Object "(string \<times> 'f json) list"

text \<open>\<open>value[key]\<close> and \<open>value[pos]\<close>: \<open>Null\<close> for whatever is not there.\<close>

fun index_key :: "'f json \<Rightarrow> string \<Rightarrow> 'f json" where
  "index_key (Object m) key = (case map_of m key of Some v \<Rightarrow> v | None \<Rightarrow> Null)"
| "index_key _ key = Null"

fun index_pos :: "'f json \<Rightarrow> nat \<Rightarrow> 'f json" where
  "index_pos (Array s) pos = (if pos < length s then s ! pos else Null)"
| "index_pos _ pos = Null"

section \<open>The comparison\<close>

datatype 'f mismatch =
    NoMatchingValue
  | KeyMismatch string "'f mismatch"
  | IndexMismatch nat "'f mismatch"
  | NotEqual "'f json" "'f json"

function (sequential) check :: "'f json \<Rightarrow> 'f json \<Rightarrow> (unit, 'f mismatch) result"
  and check_fields :: "(string \<times> 'f json) list \<Rightarrow> 'f json \<Rightarrow> (unit, 'f mismatch) result"
  and check_elements :: "'f json list \<Rightarrow> nat \<Rightarrow> 'f json \<Rightarrow> (unit, 'f mismatch) result" where
  "check v deserialized =
     (if v \<noteq> Null \<and> deserialized = Null then Err NoMatchingValue
      else case v of
          Object m \<Rightarrow> check_fields m deserialized
        | Array s \<Rightarrow> check_elements s 0 deserialized
        | String s \<Rightarrow> (case deserialized of
              String ds \<Rightarrow> if s \<noteq> ds then Err (NotEqual v deserialized) else Ok ()
            | _ \<Rightarrow> Err (NotEqual v deserialized))
        | Bool b \<Rightarrow> (case deserialized of
              Bool db \<Rightarrow> if b \<noteq> db then Err (NotEqual v deserialized) else Ok ()
            | _ \<Rightarrow> Err (NotEqual v deserialized))
        | Number n \<Rightarrow> (case deserialized of
              Number dn \<Rightarrow> if n \<noteq> dn then Err (NotEqual v deserialized) else Ok ()
            | _ \<Rightarrow> Err (NotEqual v deserialized))
        | Null \<Rightarrow> (case deserialized of
              Null \<Rightarrow> Ok ()
            | _ \<Rightarrow> Err (NotEqual v deserialized)))"
| "check_fields [] deserialized = Ok ()"
| "check_fields ((key, val) # m) deserialized =
     (case check val (index_key deserialized key) of
        Err e \<Rightarrow> Err (KeyMismatch key e)
      | Panic p \<Rightarrow> Panic p
      | Ok _ \<Rightarrow> check_fields m deserialized)"
| "check_elements [] pos deserialized = Ok ()"
| "check_elements (val # s) pos deserialized =
     (case check val (index_pos deserialized pos) of
        Err e \<Rightarrow> Err (IndexMismatch pos e)
      | Panic p \<Rightarrow> Panic p
      | Ok _ \<Rightarrow> check_elements s (Suc pos) deserialized)"
  by pat_completeness auto
termination
  by (relation "measure (\<lambda>x. case x of
        Inl (v, d) \<Rightarrow> size v
      | Inr (Inl (m, d)) \<Rightarrow> size_list (size_prod (\<lambda>_. 0) size) m
      | Inr (Inr (s, pos, d)) \<Rightarrow> size_list size s)") auto

section \<open>Admission\<close>

record 'f AdmissionRequest =
  ar_uid :: string
  ar_object :: "'f json option"

record AdmissionResponse =
  allowed :: bool
  status_message :: "string option"
  resp_uid :: string

text \<open>
  The parameters: \<open>serde\<close>'s reading (\<open>None\<close> is an error) and writing of a Configuration, the
  conversion of an integer to \<open>f64\<close>, and \<open>to_string\<close> of an error.
\<close>

record ('f, 'c) serde =
  config_from_value :: "'f json \<Rightarrow> 'c option"
  config_to_value :: "'c \<Rightarrow> 'f json"
  as_f64 :: "int \<Rightarrow> 'f"
  error_to_string :: "'f mismatch \<Rightarrow> string"

fun number_as_f64 :: "('f, 'c) serde \<Rightarrow> 'f number \<Rightarrow> 'f" where
  "number_as_f64 sd (Integer i) = as_f64 sd i"
| "number_as_f64 sd (Float x) = x"

text \<open>
  Indexing a JSON value for writing panics unless it is an object (or \<open>Null\<close>, which becomes
  one); a missing key is added with \<open>Null\<close>, on which \<open>as_object_mut().unwrap()\<close> panics.
\<close>

definition filter_configuration :: "('f, 'c) serde \<Rightarrow> 'f json \<Rightarrow> ('f json, error) result" where
  "filter_configuration sd v =
     (case index_key v ''metadata'' of
        Object metadata_map \<Rightarrow>
          let m = hm_remove ''managedFields'' (hm_remove ''deletionTimestamp'' (hm_remove ''creationTimestamp'' metadata_map))
          in (case map_of m ''generation'' of
                Some (Number n) \<Rightarrow>
                  let m' = hm_insert ''generation'' (Number (Float (number_as_f64 sd n))) m
                  in (case v of Object o' \<Rightarrow> Ok (Object (hm_insert ''metadata'' (Object m') o')) | _ \<Rightarrow> Panic ''cannot access key'')
              | _ \<Rightarrow> Panic ''called Option::unwrap() on a None value'')
      | _ \<Rightarrow> Panic ''called Option::unwrap() on a None value'')"

definition validate_configuration :: "('f, 'c) serde \<Rightarrow> 'f AdmissionRequest \<Rightarrow> (AdmissionResponse, error) result" where
  "validate_configuration sd rqst =
     (case ar_object rqst of
        Some raw \<Rightarrow>
          (case config_from_value sd raw of
             None \<Rightarrow> Panic ''Could not parse as Akri Configuration''
           | Some c \<Rightarrow>
               let deserialized = config_to_value sd c
               in res_then (filter_configuration sd raw) (\<lambda>v.
                  case check v deserialized of
                    Ok _ \<Rightarrow> Ok \<lparr>allowed = True, status_message = None, resp_uid = ar_uid rqst\<rparr>
                  | Err e \<Rightarrow> Ok \<lparr>allowed = False, status_message = Some (error_to_string sd e), resp_uid = ar_uid rqst\<rparr>
                  | Panic p \<Rightarrow> Panic p))
      | None \<Rightarrow> Ok \<lparr>allowed = False, status_message = Some ''AdmissionRequest object contains no data'', resp_uid = ar_uid rqst\<rparr>)"

record 'f AdmissionReview =
  rv_api_version :: "string option"
  rv_kind :: "string option"
  rv_request :: "'f AdmissionRequest option"
  rv_response :: "AdmissionResponse option"

datatype 'f HttpResponse = HttpOk "'f AdmissionReview" | BadRequest

definition validate :: "('f, 'c) serde \<Rightarrow> 'f AdmissionReview \<Rightarrow> ('f HttpResponse, error) result" where
  "validate sd rqst =
     (case rv_request rqst of
        Some r \<Rightarrow> res_then (validate_configuration sd r) (\<lambda>resp.
          Ok (HttpOk \<lparr>rv_api_version = Some ''admission.k8s.io/v1'', rv_kind = Some ''AdmissionReview'',
                      rv_request = None, rv_response = Some resp\<rparr>))
      | None \<Rightarrow> Ok BadRequest)"

section \<open>What the comparison finds\<close>

text \<open>
  Every value inside a JSON value, with the path to it, and what lies at a path of another
  value (\<open>Null\<close> where there is nothing).
\<close>

datatype path_step = Key string | Pos nat

fun step_to :: "'f json \<Rightarrow> path_step \<Rightarrow> 'f json" where
  "step_to v (Key k) = index_key v k"
| "step_to v (Pos i) = index_pos v i"

definition at_path :: "'f json \<Rightarrow> path_step list \<Rightarrow> 'f json" where
  "at_path v p = foldl step_to v p"

function (sequential) subvalues :: "'f json \<Rightarrow> (path_step list \<times> 'f json) list"
  and field_subvalues :: "(string \<times> 'f json) list \<Rightarrow> (path_step list \<times> 'f json) list"
  and element_subvalues :: "'f json list \<Rightarrow> nat \<Rightarrow> (path_step list \<times> 'f json) list" where
  "subvalues v = ([], v) # (case v of
       Object m \<Rightarrow> field_subvalues m
     | Array s \<Rightarrow> element_subvalues s 0
     | _ \<Rightarrow> [])"
| "field_subvalues [] = []"
| "field_subvalues ((k, v) # m) = map (apfst (Cons (Key k))) (subvalues v) @ field_subvalues m"
| "element_subvalues [] i = []"
| "element_subvalues (v # s) i = map (apfst (Cons (Pos i))) (subvalues v) @ element_subvalues s (Suc i)"
  by pat_completeness auto
termination
  by (relation "measure (\<lambda>x. case x of
        Inl v \<Rightarrow> size v
      | Inr (Inl m) \<Rightarrow> size_list (size_prod (\<lambda>_. 0) size) m
      | Inr (Inr (s, i)) \<Rightarrow> size_list size s)") auto

text \<open>A scalar agrees with itself only, an object or an array with anything but \<open>Null\<close>.\<close>

fun agrees :: "'f json \<Rightarrow> 'f json \<Rightarrow> bool" where
  "agrees (Object m) t \<longleftrightarrow> t \<noteq> Null"
| "agrees (Array s) t \<longleftrightarrow> t \<noteq> Null"
| "agrees v t \<longleftrightarrow> t = v"

lemma at_path_simps [simp]: "at_path v [] = v" "at_path v (st # p) = at_path (step_to v st) p"
  by (simp_all add: at_path_def)

lemma list_all_map: "list_all P (map f xs) \<longleftrightarrow> list_all (\<lambda>x. P (f x)) xs"
  by (simp add: list_all_iff)

lemma check_agrees:
  "is_ok (check v d) = list_all (\<lambda>(p, s). agrees s (at_path d p)) (subvalues v)"
  "is_ok (check_fields m d) = list_all (\<lambda>(p, s). agrees s (at_path d p)) (field_subvalues m)"
  "is_ok (check_elements s i d) = list_all (\<lambda>(p, s). agrees s (at_path d p)) (element_subvalues s i)"
proof (induction v d and m d and s i d rule: check_check_fields_check_elements.induct)
  case (1 v d)
  then show ?case by (cases v; cases d) auto
next
  case (3 k v m d)
  then show ?case
    by (cases "check v (index_key d k)") (auto simp: list_all_map apfst_def map_prod_def split_beta)
next
  case (5 v s i d)
  then show ?case
    by (cases "check v (index_pos d i)") (auto simp: list_all_map apfst_def map_prod_def split_beta)
qed simp_all

lemma check_no_panic: "\<not> is_panic (check v d)" "\<not> is_panic (check_fields m d)" "\<not> is_panic (check_elements s i d)"
  by (induction v d and m d and s i d rule: check_check_fields_check_elements.induct)
     (auto split: json.split result.split)

declare check.simps [simp del]

text \<open>
  C13: The comparison accepts a value exactly when everything in it is found again: every
  string, boolean, number and null at the same path with the same value, and something other
  than null at the path of every object and array. It never panics. Additional fields and
  elements on the other side do not matter, and neither does the type of what stands where
  the value has an empty object or an empty array.
\<close>

theorem check_spec:
  "(check v d = Ok () \<longleftrightarrow> list_all (\<lambda>(p, s). agrees s (at_path d p)) (subvalues v)) \<and> \<not> is_panic (check v d)"
  using check_agrees(1) [of v d] check_no_panic(1) [of v d] by (cases "check v d") auto

section \<open>The decision\<close>

lemma field_subvalues_set: "ps \<in> set (field_subvalues m) \<Longrightarrow>
    \<exists>k v p s. (k, v) \<in> set m \<and> (p, s) \<in> set (subvalues v) \<and> ps = (Key k # p, s)"
  by (induction m) (fastforce simp: apfst_def map_prod_def simp del: subvalues.simps)+

lemma field_subvalues_in: "(k, v) \<in> set m \<Longrightarrow> (p, s) \<in> set (subvalues v) \<Longrightarrow> (Key k # p, s) \<in> set (field_subvalues m)"
  by (induction m) (force simp: apfst_def map_prod_def simp del: subvalues.simps)+

lemma element_subvalues_set: "ps \<in> set (element_subvalues xs i) \<Longrightarrow>
    \<exists>j p s. j < length xs \<and> (p, s) \<in> set (subvalues (xs ! j)) \<and> ps = (Pos (i + j) # p, s)"
proof (induction xs arbitrary: i)
  case (Cons x xs)
  then consider p s where "(p, s) \<in> set (subvalues x)" "ps = (Pos i # p, s)" | "ps \<in> set (element_subvalues xs (Suc i))"
    by (auto simp: apfst_def map_prod_def simp del: subvalues.simps)
  then show ?case
  proof cases
    case 1
    then show ?thesis by (intro exI [of _ 0]) auto
  next
    case 2
    with Cons.IH obtain j p s where "j < length xs" "(p, s) \<in> set (subvalues (xs ! j))" "ps = (Pos (Suc i + j) # p, s)" by blast
    then show ?thesis by (intro exI [of _ "Suc j"]) auto
  qed
qed simp

text \<open>A JSON value in which no object has a key twice finds all of its own values.\<close>

definition keys_once :: "'f json \<Rightarrow> bool" where
  "keys_once v = (case v of Object m \<Rightarrow> distinct (map fst m) | _ \<Rightarrow> True)"

definition json_wf :: "'f json \<Rightarrow> bool" where
  "json_wf v \<longleftrightarrow> list_all (\<lambda>(p, s). keys_once s) (subvalues v)"

lemma json_wf_iff: "json_wf v \<longleftrightarrow> (\<forall>p s. (p, s) \<in> set (subvalues v) \<longrightarrow> keys_once s)"
  by (auto simp: json_wf_def list_all_iff)

lemma subvalues_Object: "set (subvalues (Object m)) = insert ([], Object m) (set (field_subvalues m))"
  and subvalues_Array: "set (subvalues (Array xs)) = insert ([], Array xs) (set (element_subvalues xs 0))"
  by (simp_all add: subvalues.simps [of "Object m"] subvalues.simps [of "Array xs"] del: subvalues.simps)

declare subvalues.simps [simp del]

lemma element_subvalues_in: "j < length xs \<Longrightarrow> (p, s) \<in> set (subvalues (xs ! j)) \<Longrightarrow>
    (Pos (i + j) # p, s) \<in> set (element_subvalues xs i)"
proof (induction xs arbitrary: i j)
  case (Cons x xs)
  show ?case
  proof (cases j)
    case 0
    with Cons.prems show ?thesis by (force simp: apfst_def map_prod_def)
  next
    case (Suc j')
    with Cons.IH [of j' "Suc i"] Cons.prems show ?thesis by simp
  qed
qed simp

lemma at_own_path: "json_wf v \<Longrightarrow> (p, s) \<in> set (subvalues v) \<Longrightarrow> at_path v p = s"
proof (induction p arbitrary: v)
  case Nil
  then show ?case
    by (cases v) (auto simp: subvalues_Object subvalues_Array subvalues.simps dest!: field_subvalues_set element_subvalues_set)
next
  case (Cons st p)
  show ?case
  proof (cases v)
    case (Object m)
    with Cons.prems obtain k x where kx: "(k, x) \<in> set m" "(p, s) \<in> set (subvalues x)" "st = Key k"
      by (auto simp: subvalues_Object dest!: field_subvalues_set)
    have "json_wf x" using Cons.prems(1) kx(1) Object
      by (auto simp: json_wf_iff subvalues_Object dest: field_subvalues_in)
    moreover have "distinct (map fst m)" using Cons.prems(1) Object
      by (auto simp: json_wf_iff subvalues_Object keys_once_def)
    ultimately show ?thesis using Cons.IH kx Object by simp
  next
    case (Array xs)
    with Cons.prems obtain j where j: "j < length xs" "(p, s) \<in> set (subvalues (xs ! j))" "st = Pos j"
      by (auto simp: subvalues_Array dest!: element_subvalues_set)
    have "json_wf (xs ! j)" using Cons.prems(1) j(1) Array element_subvalues_in [of j xs _ _ 0]
      unfolding json_wf_iff by (simp add: subvalues_Array) blast
    then show ?thesis using Cons.IH j Array by simp
  qed (use Cons.prems in \<open>auto simp: subvalues.simps\<close>)
qed

lemma check_refl: "json_wf v \<Longrightarrow> is_ok (check v v)"
proof -
  assume wf: "json_wf v"
  have "agrees s s" for s :: "'a json" by (cases s) auto
  then show ?thesis using at_own_path [OF wf] by (auto simp: check_agrees list_all_iff)
qed

lemma validate_configuration_eq:
  assumes "config_from_value sd raw = Some c" "filter_configuration sd raw = Ok v"
  shows "validate_configuration sd \<lparr>ar_uid = uid, ar_object = Some raw\<rparr> =
    (case check v (config_to_value sd c) of
       Ok _ \<Rightarrow> Ok \<lparr>allowed = True, status_message = None, resp_uid = uid\<rparr>
     | Err e \<Rightarrow> Ok \<lparr>allowed = False, status_message = Some (error_to_string sd e), resp_uid = uid\<rparr>
     | Panic p \<Rightarrow> Panic p)"
  using assms by (simp add: validate_configuration_def Let_def split: result.split)

text \<open>
  What the webhook asks of the value \<open>s\<close> at the path \<open>p\<close> of a Configuration, when \<open>d\<close> is what Akri's
  types make of the Configuration: nothing inside three fields of the metadata, equality as a
  float for the generation, and of everything else that it is found again.
\<close>

definition ignored :: "path_step list \<Rightarrow> bool" where
  "ignored p \<longleftrightarrow> (\<exists>k \<in> {''creationTimestamp'', ''deletionTimestamp'', ''managedFields''}.
     take 2 p = [Key ''metadata'', Key k])"

definition survives :: "('f, 'c) serde \<Rightarrow> 'f json \<Rightarrow> path_step list \<Rightarrow> 'f json \<Rightarrow> bool" where
  "survives sd d p s \<longleftrightarrow> ignored p \<or> (if p = [Key ''metadata'', Key ''generation'']
     then \<exists>n. s = Number n \<and> at_path d p = Number (Float (number_as_f64 sd n))
     else agrees s (at_path d p))"

lemma all_subvalues_Object:
  assumes "distinct (map fst m)"
  shows "list_all (\<lambda>(p, s). R p s) (subvalues (Object m)) \<longleftrightarrow> R [] (Object m)
     \<and> (\<forall>k v. map_of m k = Some v \<longrightarrow> list_all (\<lambda>(p, s). R (Key k # p) s) (subvalues v))"
proof -
  have "list_all (\<lambda>(p, s). R p s) (field_subvalues m) \<longleftrightarrow> (\<forall>(k, v) \<in> set m. list_all (\<lambda>(p, s). R (Key k # p) s) (subvalues v))"
    by (induction m) (auto simp: list_all_map apfst_def map_prod_def split_beta)
  then show ?thesis using assms by (auto simp: subvalues.simps [of "Object m"])
qed

lemma check_Object:
  assumes "distinct (map fst m)"
  shows "is_ok (check (Object m) d) \<longleftrightarrow> d \<noteq> Null \<and> (\<forall>k v. map_of m k = Some v \<longrightarrow> is_ok (check v (index_key d k)))"
  unfolding check_agrees(1) by (subst all_subvalues_Object [OF assms]) simp

lemma survives_elsewhere: "k \<noteq> ''metadata'' \<Longrightarrow> survives sd d (Key k # p) s = agrees s (at_path (index_key d k) p)"
  "survives sd d [Key ''metadata''] s = agrees s (index_key d ''metadata'')" "survives sd d [] s = agrees s d"
  by (simp_all add: survives_def ignored_def)

lemma survives_metadata: "survives sd d (Key ''metadata'' # Key k # p) s \<longleftrightarrow>
    k \<in> {''creationTimestamp'', ''deletionTimestamp'', ''managedFields''} \<or>
    (if k = ''generation'' \<and> p = [] then \<exists>n. s = Number n \<and> at_path d [Key ''metadata'', Key k] = Number (Float (number_as_f64 sd n))
     else agrees s (at_path (index_key (index_key d ''metadata'') k) p))"
  by (auto simp: survives_def ignored_def)

lemma json_wf_field: "json_wf (Object m) \<Longrightarrow> map_of m k = Some v \<Longrightarrow> json_wf v"
  by (auto simp: json_wf_iff subvalues_Object dest: field_subvalues_in map_of_SomeD)

lemma json_wf_keys: "json_wf (Object m) \<Longrightarrow> distinct (map fst m)"
  by (auto simp: json_wf_iff subvalues_Object keys_once_def)

text \<open>Comparing what the filter leaves is asking all of this of the Configuration itself.\<close>

lemma filtered_check:
  assumes wf: "json_wf raw" and md: "index_key raw ''metadata'' = Object m" and gen: "map_of m ''generation'' = Some (Number n)"
  shows "\<exists>v. filter_configuration sd raw = Ok v \<and>
     (is_ok (check v d) \<longleftrightarrow> list_all (\<lambda>(p, s). survives sd d p s) (subvalues raw))"
proof -
  obtain o' where raw: "raw = Object o'" and mo: "map_of o' ''metadata'' = Some (Object m)"
    using md by (cases raw) (auto split: option.splits)
  have dist: "distinct (map fst o')" "distinct (map fst m)"
    using wf json_wf_field [OF _ mo] by (auto simp: raw json_wf_keys)
  define m1 where "m1 = hm_remove ''managedFields'' (hm_remove ''deletionTimestamp'' (hm_remove ''creationTimestamp'' m))"
  define m2 where "m2 = hm_insert ''generation'' (Number (Float (number_as_f64 sd n))) m1"
  have look: "map_of m2 k = (if k = ''generation'' then Some (Number (Float (number_as_f64 sd n)))
      else if k \<in> {''creationTimestamp'', ''deletionTimestamp'', ''managedFields''} then None else map_of m k)" for k
    by (simp add: m2_def m1_def hashmap_simps)
  have "map_of m1 ''generation'' = Some (Number n)" using gen by (simp add: m1_def hashmap_simps)
  then have v: "filter_configuration sd raw = Ok (Object (hm_insert ''metadata'' (Object m2) o'))"
    using md by (simp add: filter_configuration_def Let_def m1_def m2_def raw)
  have "hm_wf o'" "hm_wf m" using dist by (simp_all add: hm_wf_def hm_keys_def)
  then have "hm_wf m2" "hm_wf (hm_insert ''metadata'' (Object m2) o')" by (simp_all add: m2_def m1_def)
  then have wfs: "distinct (map fst m2)" "distinct (map fst (hm_insert ''metadata'' (Object m2) o'))"
    by (simp_all add: hm_wf_def hm_keys_def)
  let ?md = "index_key d ''metadata''" and ?A = "\<lambda>v d. is_ok (check v d)"
  have inner: "list_all (\<lambda>(p, s). survives sd d (Key ''metadata'' # p) s) (subvalues (Object m)) \<longleftrightarrow> ?A (Object m2) ?md"
  proof -
    have one: "list_all (\<lambda>(p, s). survives sd d (Key ''metadata'' # Key k # p) s) (subvalues x) \<longleftrightarrow>
        (\<forall>y. map_of m2 k = Some y \<longrightarrow> ?A y (index_key ?md k))" if "map_of m k = Some x" for k x
    proof -
      consider "k \<in> {''creationTimestamp'', ''deletionTimestamp'', ''managedFields''}" | "k = ''generation''"
        | "k \<notin> {''creationTimestamp'', ''deletionTimestamp'', ''managedFields'', ''generation''}" by blast
      then show ?thesis
      proof cases
        case 1
        then have "map_of m2 k = None" by (auto simp: look)
        with 1 show ?thesis by (simp add: survives_metadata list_all_iff)
      next
        case 2
        with that gen have x: "x = Number n" by simp
        show ?thesis
          by (simp add: x 2 look survives_metadata check_agrees(1) subvalues.simps [of "Number _"])
      next
        case 3
        then have "survives sd d (Key ''metadata'' # Key k # p) s = agrees s (at_path (index_key ?md k) p)" for p s
          by (simp add: survives_metadata)
        moreover have "map_of m2 k = Some x" using 3 that by (simp add: look)
        ultimately show ?thesis by (simp add: check_agrees(1))
      qed
    qed
    have "(\<forall>k x. map_of m k = Some x \<longrightarrow> list_all (\<lambda>(p, s). survives sd d (Key ''metadata'' # Key k # p) s) (subvalues x))
        \<longleftrightarrow> (\<forall>k y. map_of m2 k = Some y \<longrightarrow> ?A y (index_key ?md k))"
      using one gen look by (metis option.distinct(1))
    then show ?thesis unfolding all_subvalues_Object [OF dist(2)] check_Object [OF wfs(1)] by (simp add: survives_elsewhere)
  qed
  have outer: "list_all (\<lambda>(p, s). survives sd d (Key k # p) s) (subvalues x) \<longleftrightarrow> ?A x (index_key d k)"
    if "k \<noteq> ''metadata''" for k x
    using that by (simp add: survives_elsewhere check_agrees(1))
  have "(\<forall>v. map_of (hm_insert ''metadata'' (Object m2) o') k = Some v \<longrightarrow> ?A v (index_key d k)) \<longleftrightarrow>
      (\<forall>v. map_of o' k = Some v \<longrightarrow> list_all (\<lambda>(p, s). survives sd d (Key k # p) s) (subvalues v))" for k
    by (cases "k = ''metadata''") (simp_all add: inner outer mo hashmap_simps)
  then have "?A (Object (hm_insert ''metadata'' (Object m2) o')) d \<longleftrightarrow> list_all (\<lambda>(p, s). survives sd d p s) (subvalues raw)"
    unfolding raw all_subvalues_Object [OF dist(1)] check_Object [OF wfs(2)] by (simp add: survives_elsewhere)
  with v show ?thesis by blast
qed

text \<open>
  C35: The webhook answers every review of a Configuration that it can read and whose metadata
  has a numeric generation, under the request's identifier. It admits the Configuration if and
  only if everything in it survives being read into Akri's types and written out again: every
  value of the Configuration, at whatever path, is found again at that path, except that
  nothing inside the creation timestamp, the deletion timestamp and the managed fields of the
  metadata is looked at, and that the generation is compared as a float. A denial comes with a
  message, an admission without.
\<close>

theorem webhook_decision:
  assumes "config_from_value sd raw = Some c" "json_wf raw"
    and "index_key raw ''metadata'' = Object m" "map_of m ''generation'' = Some (Number n)"
  shows "\<exists>resp. validate sd \<lparr>rv_api_version = av, rv_kind = k, rv_request = Some \<lparr>ar_uid = uid, ar_object = Some raw\<rparr>, rv_response = r\<rparr>
      = Ok (HttpOk \<lparr>rv_api_version = Some ''admission.k8s.io/v1'', rv_kind = Some ''AdmissionReview'', rv_request = None, rv_response = Some resp\<rparr>)
    \<and> resp_uid resp = uid
    \<and> (allowed resp \<longleftrightarrow> list_all (\<lambda>(p, s). survives sd (config_to_value sd c) p s) (subvalues raw))
    \<and> (status_message resp = None \<longleftrightarrow> allowed resp)"
proof -
  obtain v where v: "filter_configuration sd raw = Ok v" "is_ok (check v (config_to_value sd c)) \<longleftrightarrow>
      list_all (\<lambda>(p, s). survives sd (config_to_value sd c) p s) (subvalues raw)"
    using filtered_check [OF assms(2-4), of sd "config_to_value sd c"] by blast
  then show ?thesis using check_no_panic(1) [of v "config_to_value sd c"] unfolding validate_def
    by (cases "check v (config_to_value sd c)") (auto simp: validate_configuration_eq [OF assms(1) v(1)])
qed

text \<open>A Configuration with a capacity; the types know no other field of its spec.\<close>

definition demo_metadata :: "(string \<times> int json) list" where
  "demo_metadata = [(''creationTimestamp'', String ''2021''), (''generation'', Number (Integer 1)), (''name'', String ''cam'')]"

definition demo_config :: "(string \<times> int json) list \<Rightarrow> int json" where
  "demo_config sp = Object [(''metadata'', Object demo_metadata), (''spec'', Object sp)]"

definition demo_serde :: "(int, int json) serde" where
  "demo_serde = \<lparr>config_from_value = (\<lambda>v. case index_key (index_key v ''spec'') ''capacity'' of Null \<Rightarrow> None | c \<Rightarrow> Some c),
     config_to_value = (\<lambda>c. Object [(''metadata'', Object [(''generation'', Number (Float 1)), (''name'', String ''cam'')]),
       (''spec'', Object [(''capacity'', c), (''units'', String ''pod'')])]),
     as_f64 = (\<lambda>i. i), error_to_string = (\<lambda>_. ''mismatch'')\<rparr>"

definition demo_filtered :: "(string \<times> int json) list \<Rightarrow> int json" where
  "demo_filtered sp = Object [(''metadata'', Object [(''generation'', Number (Float 1)), (''name'', String ''cam'')]), (''spec'', Object sp)]"

lemma demo_filter: "filter_configuration demo_serde (demo_config sp) = Ok (demo_filtered sp)"
  by (simp add: filter_configuration_def demo_config_def demo_filtered_def demo_metadata_def demo_serde_def Let_def)

theorem webhook_decision_witness:
  "\<exists>resp. validate demo_serde \<lparr>rv_api_version = None, rv_kind = None, rv_request = Some \<lparr>ar_uid = ''7'',
       ar_object = Some (demo_config [(''capacity'', Number (Integer 5)), (''unit'', String ''pod'')])\<rparr>, rv_response = None\<rparr>
      = Ok (HttpOk \<lparr>rv_api_version = Some ''admission.k8s.io/v1'', rv_kind = Some ''AdmissionReview'', rv_request = None, rv_response = Some resp\<rparr>)
    \<and> resp_uid resp = ''7'' \<and> \<not> allowed resp"
proof -
  let ?sp = "[(''capacity'', Number (Integer 5)), (''unit'', String ''pod'')] :: (string \<times> int json) list"
  have c: "config_from_value demo_serde (demo_config ?sp) = Some (Number (Integer 5))"
    by (simp add: demo_serde_def demo_config_def)
  have wf: "json_wf (demo_config ?sp)"
    by (simp add: json_wf_def demo_config_def demo_metadata_def keys_once_def subvalues.simps apfst_def map_prod_def)
  have md: "index_key (demo_config ?sp) ''metadata'' = Object demo_metadata" "map_of demo_metadata ''generation'' = Some (Number (Integer 1))"
    by (simp_all add: demo_config_def demo_metadata_def)
  have "\<not> list_all (\<lambda>(p, s). survives demo_serde (config_to_value demo_serde (Number (Integer 5))) p s) (subvalues (demo_config ?sp))"
    by (simp add: demo_serde_def demo_config_def demo_metadata_def survives_def ignored_def subvalues.simps apfst_def map_prod_def)
  with webhook_decision [OF c wf md, of None None "''7''" None] show ?thesis by auto
qed

text \<open>
  The round trip decides: a Configuration that Akri's types read and write back unchanged
  (up to the fields of the metadata that are not looked at) is admitted.
\<close>

theorem webhook_roundtrip:
  assumes "config_from_value sd raw = Some c" "filter_configuration sd raw = Ok (config_to_value sd c)"
    "json_wf (config_to_value sd c)"
  shows "validate_configuration sd \<lparr>ar_uid = uid, ar_object = Some raw\<rparr> =
    Ok \<lparr>allowed = True, status_message = None, resp_uid = uid\<rparr>"
  using check_refl [OF assms(3)]
  by (cases "check (config_to_value sd c) (config_to_value sd c)") (auto simp: validate_configuration_eq [OF assms(1,2)])

theorem webhook_roundtrip_witness:
  "validate_configuration demo_serde \<lparr>ar_uid = ''7'',
     ar_object = Some (demo_config [(''capacity'', Number (Integer 5)), (''units'', String ''pod'')])\<rparr>
   = Ok \<lparr>allowed = True, status_message = None, resp_uid = ''7''\<rparr>"
proof (rule webhook_roundtrip [where c = "Number (Integer 5)"])
  show "filter_configuration demo_serde (demo_config [(''capacity'', Number (Integer 5)), (''units'', String ''pod'')])
      = Ok (config_to_value demo_serde (Number (Integer 5)))"
    unfolding demo_filter by (simp add: demo_filtered_def demo_serde_def)
  show "json_wf (config_to_value demo_serde (Number (Integer 5)))"
    by (simp add: demo_serde_def json_wf_def keys_once_def subvalues.simps apfst_def map_prod_def)
qed (simp add: demo_serde_def demo_config_def)

text \<open>
  C38: The webhook panics instead of denying, exactly when the object does not read as a
  Configuration, when its metadata is no object, or when the metadata has no numeric
  generation; a request without an object is denied, and a review without a request is
  answered as a bad request.
\<close>

theorem webhook_panics:
  "(is_panic (validate_configuration sd rqst) \<longleftrightarrow>
     (\<exists>raw. ar_object rqst = Some raw
       \<and> (config_from_value sd raw = None
          \<or> (\<forall>m n. \<not> (index_key raw ''metadata'' = Object m \<and> map_of m ''generation'' = Some (Number n))))))
   \<and> \<not> is_panic (validate sd (rv\<lparr>rv_request := None\<rparr>))"
proof -
  have filt: "is_panic (filter_configuration sd raw) \<longleftrightarrow>
      (\<forall>m n. \<not> (index_key raw ''metadata'' = Object m \<and> map_of m ''generation'' = Some (Number n)))" for raw
    by (cases raw) (auto simp: filter_configuration_def Let_def hashmap_simps split: json.splits option.splits)
  have noerr: "filter_configuration sd raw \<noteq> Err e" for raw e
    by (auto simp: filter_configuration_def Let_def split: json.splits option.splits)
  have "is_panic (validate_configuration sd rqst) \<longleftrightarrow>
      (\<exists>raw. ar_object rqst = Some raw \<and> (config_from_value sd raw = None
        \<or> is_panic (filter_configuration sd raw)))"
  proof (cases "ar_object rqst")
    case (Some raw)
    have "check v d \<noteq> Panic p" for v d :: "'a json" and p using check_no_panic(1) [of v d] by auto
    then show ?thesis using noerr [of raw]
      by (cases "filter_configuration sd raw")
         (auto simp: validate_configuration_def Some Let_def split: option.split result.split)
  qed (simp add: validate_configuration_def)
  then show ?thesis by (simp add: filt validate_def)
qed

end
