(* ===== verification/Video_Broker.thy ===== *)
theory Video_Broker
  imports Server_Wait Grpc "HOL-Library.Word"
begin

text \<open>
  The sample broker for USB cameras, \<open>samples/brokers/udev-video-broker/src\<close>: the device node
  it serves (\<open>main.rs\<close>) and the choice of a format, a resolution and an interval among those
  that the camera supports (\<open>util/camera_capturer.rs\<close>). The camera behind the crate \<open>rscam\<close>
  and the environment variables are parameters. Sizes are 32-bit words: arithmetic on \<open>u32\<close>
  panics on overflow when the build checks it and wraps around otherwise, so the functions
  take \<open>checks\<close>, the setting of the build.
\<close>

section \<open>Arithmetic on u32\<close>

type_synonym u32 = "32 word"

definition u32_sub :: "bool \<Rightarrow> u32 \<Rightarrow> u32 \<Rightarrow> (u32, error) result" where
  "u32_sub checks a b = (if checks \<and> a < b then Panic ''attempt to subtract with overflow'' else Ok (a - b))"

definition u32_add :: "bool \<Rightarrow> u32 \<Rightarrow> u32 \<Rightarrow> (u32, error) result" where
  "u32_add checks a b = (if checks \<and> 2 ^ 32 \<le> unat a + unat b then Panic ''attempt to add with overflow'' else Ok (a + b))"

definition u32_mul :: "bool \<Rightarrow> u32 \<Rightarrow> u32 \<Rightarrow> (u32, error) result" where
  "u32_mul checks a b =
     (if checks \<and> 2 ^ 32 \<le> unat a * unat b then Panic ''attempt to multiply with overflow'' else Ok (a * b))"

definition u32_div :: "u32 \<Rightarrow> u32 \<Rightarrow> (u32, error) result" where
  "u32_div a b = (if b = 0 then Panic ''attempt to divide by zero'' else Ok (a div b))"

text \<open>\<open>str::parse::<u32>\<close>: an optional plus sign and at least one digit, of a number below \<open>2^32\<close>.\<close>

definition digit_value :: "char \<Rightarrow> nat option" where
  "digit_value c = (let n = (of_char c :: nat) in if 48 \<le> n \<and> n \<le> 57 then Some (n - 48) else None)"

fun parse_digits :: "string \<Rightarrow> nat \<Rightarrow> nat option" where
  "parse_digits [] acc = Some acc"
| "parse_digits (c # s) acc = (case digit_value c of
       Some d \<Rightarrow> if 10 * acc + d < 2 ^ 32 then parse_digits s (10 * acc + d) else None
     | None \<Rightarrow> None)"

definition parse_u32 :: "string \<Rightarrow> u32 option" where
  "parse_u32 s = (let ds = (case s of c # t \<Rightarrow> if c = CHR ''+'' then t else s | [] \<Rightarrow> s)
     in if ds = [] then None else map_option of_nat (parse_digits ds 0))"

section \<open>What a camera supports\<close>

type_synonym Resolution = "u32 \<times> u32"
type_synonym Interval = "u32 \<times> u32"

text \<open>\<open>rscam::ResolutionInfo\<close> and \<open>rscam::IntervalInfo\<close>: a list, or a minimum, a maximum and a step.\<close>

datatype ResolutionInfo =
    DiscreteResolutions "Resolution list"
  | StepwiseResolutions Resolution Resolution Resolution

datatype IntervalInfo =
    DiscreteIntervals "Interval list"
  | StepwiseIntervals Interval Interval Interval

definition FRAMES_PER_SECOND :: string where "FRAMES_PER_SECOND = ''FRAMES_PER_SECOND''"
definition RESOLUTION_WIDTH :: string where "RESOLUTION_WIDTH = ''RESOLUTION_WIDTH''"
definition RESOLUTION_HEIGHT :: string where "RESOLUTION_HEIGHT = ''RESOLUTION_HEIGHT''"
definition FORMAT :: string where "FORMAT = ''FORMAT''"
definition DEFAULT_FRAMES_PER_SECOND :: u32 where "DEFAULT_FRAMES_PER_SECOND = 10"
definition DEFAULT_RESOLUTION_WIDTH :: u32 where "DEFAULT_RESOLUTION_WIDTH = 640"
definition DEFAULT_RESOLUTION_HEIGHT :: u32 where "DEFAULT_RESOLUTION_HEIGHT = 480"
definition DEFAULT_FORMAT :: string where "DEFAULT_FORMAT = ''MJPG''"

text \<open>The body of \<open>for step_num in 0..steps\<close>, the same in both functions.\<close>

fun push_options :: "bool \<Rightarrow> u32 \<times> u32 \<Rightarrow> u32 \<times> u32 \<Rightarrow> nat list \<Rightarrow> (u32 \<times> u32) list
    \<Rightarrow> ((u32 \<times> u32) list, error) result" where
  "push_options checks lo step [] options = Ok options"
| "push_options checks lo step (step_num # ns) options =
     res_then (u32_mul checks (of_nat step_num) (fst step)) (\<lambda>dw.
     res_then (u32_add checks (fst lo) dw) (\<lambda>curr_width.
     res_then (u32_mul checks (of_nat step_num) (snd step)) (\<lambda>dh.
     res_then (u32_add checks (snd lo) dh) (\<lambda>curr_height.
     push_options checks lo step ns (options @ [(curr_width, curr_height)])))))"

text \<open>Resolutions are counted along the width, intervals along the second component.\<close>

definition get_resolution_options :: "bool \<Rightarrow> ResolutionInfo \<Rightarrow> (Resolution list, error) result" where
  "get_resolution_options checks resolution_info = (case resolution_info of
       DiscreteResolutions resolution_options \<Rightarrow> Ok resolution_options
     | StepwiseResolutions lo hi step \<Rightarrow>
         res_then (u32_sub checks (fst hi) (fst lo)) (\<lambda>range.
         res_then (u32_div range (fst step)) (\<lambda>steps.
         push_options checks lo step [0..<unat steps] [])))"

definition get_interval_options :: "bool \<Rightarrow> IntervalInfo \<Rightarrow> (Interval list, error) result" where
  "get_interval_options checks interval_info = (case interval_info of
       DiscreteIntervals interval_options \<Rightarrow> Ok interval_options
     | StepwiseIntervals lo hi step \<Rightarrow>
         res_then (u32_sub checks (snd hi) (snd lo)) (\<lambda>range.
         res_then (u32_div range (snd step)) (\<lambda>steps.
         push_options checks lo step [0..<unat steps] [])))"

section \<open>The choice\<close>

text \<open>
  An environment variable is \<open>None\<close> when it is not set (or not UTF-8). \<open>options[0]\<close> panics on
  an empty list.
\<close>

definition first_option :: "'a list \<Rightarrow> ('a, error) result" where
  "first_option options = (case options of x # _ \<Rightarrow> Ok x | [] \<Rightarrow> Panic ''index out of bounds'')"

definition unwrap_parsed :: "string \<Rightarrow> (u32, error) result" where
  "unwrap_parsed s = (case parse_u32 s of Some n \<Rightarrow> Ok n | None \<Rightarrow> Panic ''called Result::unwrap() on an Err value'')"

definition get_format :: "(string \<Rightarrow> string option) \<Rightarrow> string list \<Rightarrow> (string, error) result" where
  "get_format get_env_var format_options =
     (let format_to_find = (case get_env_var FORMAT of Some fmt \<Rightarrow> fmt | None \<Rightarrow> DEFAULT_FORMAT)
      in if format_to_find \<notin> set format_options then
           if DEFAULT_FORMAT \<notin> set format_options then first_option format_options
           else Ok DEFAULT_FORMAT
         else Ok format_to_find)"

definition get_interval :: "bool \<Rightarrow> (string \<Rightarrow> string option) \<Rightarrow> IntervalInfo \<Rightarrow> (Interval, error) result" where
  "get_interval checks get_env_var interval_info =
     res_then (case get_env_var FRAMES_PER_SECOND of
         Some res \<Rightarrow> unwrap_parsed res
       | None \<Rightarrow> Ok DEFAULT_FRAMES_PER_SECOND) (\<lambda>fps_to_validate.
     res_then (get_interval_options checks interval_info) (\<lambda>interval_options.
     if (1, fps_to_validate) \<notin> set interval_options then first_option interval_options
     else Ok (1, fps_to_validate)))"

definition get_env_var_resolution :: "(string \<Rightarrow> string option) \<Rightarrow> (Resolution option, error) result" where
  "get_env_var_resolution get_env_var = (case get_env_var RESOLUTION_WIDTH of
       None \<Rightarrow> Ok None
     | Some w \<Rightarrow> res_then (unwrap_parsed w) (\<lambda>width. case get_env_var RESOLUTION_HEIGHT of
         None \<Rightarrow> Ok None
       | Some h \<Rightarrow> res_then (unwrap_parsed h) (\<lambda>height. Ok (Some (width, height)))))"

definition get_resolution :: "bool \<Rightarrow> (string \<Rightarrow> string option) \<Rightarrow> ResolutionInfo \<Rightarrow> (Resolution, error) result" where
  "get_resolution checks get_env_var resolution_info =
     res_then (get_env_var_resolution get_env_var) (\<lambda>env_var_resolution.
     let resolution_to_validate = (case env_var_resolution of
           Some res \<Rightarrow> res
         | None \<Rightarrow> (DEFAULT_RESOLUTION_WIDTH, DEFAULT_RESOLUTION_HEIGHT))
     in res_then (get_resolution_options checks resolution_info) (\<lambda>resolution_options.
        if resolution_to_validate \<notin> set resolution_options then first_option resolution_options
        else Ok resolution_to_validate))"

section \<open>The camera\<close>

record Config =
  cc_interval :: Interval
  cc_resolution :: Resolution
  cc_format :: string

text \<open>
  \<open>rscam\<close>. Each format of the camera is read on its own, and its four bytes may be no UTF-8
  text (\<open>None\<close>).
\<close>

record 'w rscam =
  RsCamera_new :: "string \<Rightarrow> ('w, unit) io"
  formats :: "('w, (string option, error) result list) state"
  resolutions :: "string \<Rightarrow> ('w, ResolutionInfo) io"
  intervals :: "string \<Rightarrow> Resolution \<Rightarrow> ('w, IntervalInfo) io"
  start_camera :: "Config \<Rightarrow> ('w, unit) io"

fun unwrap_formats :: "(string option, error) result list \<Rightarrow> (string list, error) result" where
  "unwrap_formats [] = Ok []"
| "unwrap_formats (wformat # wformats) =
     res_then (unwrap_ok wformat) (\<lambda>bytes.
     case bytes of
       None \<Rightarrow> Panic ''called Result::unwrap() on an Err value''
     | Some fmt \<Rightarrow> res_then (unwrap_formats wformats) (\<lambda>fmts. Ok (fmt # fmts)))"

definition build_and_start_camera_capturer :: "bool \<Rightarrow> 'w rscam \<Rightarrow> (string \<Rightarrow> string option) \<Rightarrow> string \<Rightarrow> ('w, unit) io" where
  "build_and_start_camera_capturer checks cam get_env_var devnode =
     try_then (unwrapped (RsCamera_new cam devnode)) (\<lambda>_. do {
       wformats \<leftarrow> formats cam;
       try_then (return (unwrap_formats wformats)) (\<lambda>format_options.
       try_then (return (get_format get_env_var format_options)) (\<lambda>format_string.
       try_then (unwrapped (resolutions cam format_string)) (\<lambda>resolution_info.
       try_then (return (get_resolution checks get_env_var resolution_info)) (\<lambda>resolution.
       try_then (unwrapped (intervals cam format_string resolution)) (\<lambda>interval_info.
       try_then (return (get_interval checks get_env_var interval_info)) (\<lambda>interval.
       unwrapped (start_camera cam \<lparr>cc_interval = interval, cc_resolution = resolution, cc_format = format_string\<rparr>)))))))
     })"

definition get_video_devnode :: "(string \<Rightarrow> string option) \<Rightarrow> (string, error) result" where
  "get_video_devnode get_env_var = (case get_env_var ''UDEV_DEVNODE'' of
       Some device_devnode \<Rightarrow> Ok device_devnode
     | None \<Rightarrow> Panic ''devnode not set in envrionment variable'')"

section \<open>The options of a stepwise camera\<close>

text \<open>
  The options lie on a line from the minimum, one step apart, as many as whole steps fit
  between minimum and maximum in the counted component.
\<close>

definition stepwise :: "u32 \<times> u32 \<Rightarrow> u32 \<times> u32 \<Rightarrow> nat \<Rightarrow> (u32 \<times> u32) list" where
  "stepwise lo step n = map (\<lambda>k. (fst lo + of_nat k * fst step, snd lo + of_nat k * snd step)) [0..<n]"

lemma push_options_unchecked:
  "push_options False lo step ns acc =
     Ok (acc @ map (\<lambda>k. (fst lo + of_nat k * fst step, snd lo + of_nat k * snd step)) ns)"
  by (induction ns arbitrary: acc) (simp_all add: u32_mul_def u32_add_def)

lemma u32_bound: "unat (a :: u32) < 2 ^ 32"
  using unsigned_less [of a] by simp

lemma u32_mul_fits:
  assumes "k < 2 ^ 32" "k * unat step < 2 ^ 32"
  shows "u32_mul checks (of_nat k) step = Ok (of_nat k * step)" "unat (of_nat k * step :: u32) = k * unat step"
proof -
  have k: "unat (of_nat k :: u32) = k" using assms(1) by (simp add: unat_of_nat)
  show "u32_mul checks (of_nat k) step = Ok (of_nat k * step)" "unat (of_nat k * step :: u32) = k * unat step"
    using assms(2) by (simp_all add: u32_mul_def k unat_word_ariths)
qed

lemma u32_add_fits:
  assumes "unat a + unat b < 2 ^ 32"
  shows "u32_add checks a b = Ok (a + b)" "unat (a + b :: u32) = unat a + unat b"
  using assms by (simp_all add: u32_add_def unat_word_ariths)

lemma push_options_checked:
  assumes "list_all (\<lambda>k. k < 2 ^ 32 \<and> unat (fst lo) + k * unat (fst step) < 2 ^ 32
      \<and> unat (snd lo) + k * unat (snd step) < 2 ^ 32) ns"
  shows "push_options checks lo step ns acc =
    Ok (acc @ map (\<lambda>k. (fst lo + of_nat k * fst step, snd lo + of_nat k * snd step)) ns)"
  using assms
proof (induction ns arbitrary: acc)
  case (Cons k ns acc)
  then have "k < 2 ^ 32" "k * unat (fst step) < 2 ^ 32" "k * unat (snd step) < 2 ^ 32" by auto
  with Cons show ?case by (simp add: u32_mul_fits u32_add_fits)
qed simp

text \<open>The steps that fit, counted in one component.\<close>

lemma steps_fit:
  assumes "lo \<le> (hi :: u32)" "k < unat ((hi - lo) div step)"
  shows "k < 2 ^ 32" "unat lo + k * unat step < unat hi"
proof -
  have d: "unat ((hi - lo) div step) = (unat hi - unat lo) div unat step"
    using assms(1) by (simp add: unat_div unat_sub)
  then have pos: "0 < unat step" using assms(2) by (cases "unat step = 0") auto
  have "Suc k * unat step \<le> (unat hi - unat lo) div unat step * unat step"
    using assms(2) d by (intro mult_le_mono1) simp
  also have "\<dots> \<le> unat hi - unat lo" by simp
  finally show "unat lo + k * unat step < unat hi"
    using pos word_le_nat_alt [THEN iffD1, OF assms(1)] by simp
  show "k < 2 ^ 32" using assms(2) u32_bound [of "(hi - lo) div step"] by simp
qed

definition steps_between :: "u32 \<Rightarrow> u32 \<Rightarrow> u32 \<Rightarrow> nat" where
  "steps_between lo hi step = (unat hi - unat lo) div unat step"

lemma steps_between_eq: "lo \<le> hi \<Longrightarrow> unat ((hi - lo) div step) = steps_between lo hi step"
  by (simp add: steps_between_def unat_div unat_sub)

text \<open>Whether the component that is not counted stays below \<open>2^32\<close> over the steps.\<close>

definition other_fits :: "u32 \<Rightarrow> u32 \<Rightarrow> nat \<Rightarrow> bool" where
  "other_fits lo step n \<longleftrightarrow> unat lo + (n - 1) * unat step < 2 ^ 32"

lemma other_fits_at: "other_fits lo step n \<Longrightarrow> k < n \<Longrightarrow> unat lo + k * unat step < 2 ^ 32"
proof -
  assume "other_fits lo step n" "k < n"
  moreover have "k * unat step \<le> (n - 1) * unat step" using \<open>k < n\<close> by (intro mult_le_mono1) simp
  ultimately show "unat lo + k * unat step < 2 ^ 32" unfolding other_fits_def by linarith
qed

lemma steps_in_range:
  assumes "lo \<le> hi" "other_fits lo' step' (steps_between lo hi step)" "k < unat ((hi - lo) div step)"
  shows "k < 2 ^ 32" "unat lo + k * unat step < 2 ^ 32" "unat lo' + k * unat step' < 2 ^ 32"
  using steps_fit [OF assms(1,3)] other_fits_at [OF assms(2)] assms(3) u32_bound [of hi]
  by (simp_all add: steps_between_eq [OF assms(1)])

lemma resolution_steps:
  assumes "fst lo \<le> fst hi" "fst step \<noteq> 0" "other_fits (snd lo) (snd step) (steps_between (fst lo) (fst hi) (fst step))"
  shows "get_resolution_options checks (StepwiseResolutions lo hi step)
    = Ok (stepwise lo step (steps_between (fst lo) (fst hi) (fst step)))"
  using push_options_checked [of lo step "[0..<unat ((fst hi - fst lo) div fst step)]" checks "[]"]
    steps_in_range [OF assms(1,3)] assms(1,2)
  by (simp add: list_all_iff get_resolution_options_def u32_sub_def not_less u32_div_def stepwise_def
      steps_between_eq [OF assms(1)])

lemma interval_steps:
  assumes "snd lo \<le> snd hi" "snd step \<noteq> 0" "other_fits (fst lo) (fst step) (steps_between (snd lo) (snd hi) (snd step))"
  shows "get_interval_options checks (StepwiseIntervals lo hi step)
    = Ok (stepwise lo step (steps_between (snd lo) (snd hi) (snd step)))"
  using push_options_checked [of lo step "[0..<unat ((snd hi - snd lo) div snd step)]" checks "[]"]
    steps_in_range [OF assms(1,3)] assms(1,2)
  by (simp add: list_all_iff get_interval_options_def u32_sub_def not_less u32_div_def stepwise_def
      steps_between_eq [OF assms(1)])

lemma stepwise_nth:
  assumes "k < n" "unat (fst lo) + k * unat (fst step) < 2 ^ 32" "unat (snd lo) + k * unat (snd step) < 2 ^ 32" "k < 2 ^ 32"
  shows "unat (fst (stepwise lo step n ! k)) = unat (fst lo) + k * unat (fst step)
    \<and> unat (snd (stepwise lo step n ! k)) = unat (snd lo) + k * unat (snd step)"
proof -
  have "k * unat (fst step) < 2 ^ 32" "k * unat (snd step) < 2 ^ 32" using assms(2,3) by linarith+
  with assms show ?thesis by (simp add: stepwise_def u32_mul_fits u32_add_fits)
qed

text \<open>
  C37: The resolutions of a camera that gives a minimum, a maximum and a step: as long as the
  heights fit, there is no overflow in any build, and the list has one entry per whole step
  between the widths, all different; the entry at position \<open>k\<close> is \<open>k\<close> steps from the minimum
  and strictly narrower than the maximum, which itself is never offered.
\<close>

theorem resolution_options_spec:
  assumes "fst lo \<le> fst hi" "fst step \<noteq> 0"
    and "other_fits (snd lo) (snd step) (steps_between (fst lo) (fst hi) (fst step))"
  shows "\<exists>opts. get_resolution_options checks (StepwiseResolutions lo hi step) = Ok opts
    \<and> length opts = (unat (fst hi) - unat (fst lo)) div unat (fst step) \<and> distinct opts
    \<and> (\<forall>k < length opts. unat (fst (opts ! k)) = unat (fst lo) + k * unat (fst step)
        \<and> unat (snd (opts ! k)) = unat (snd lo) + k * unat (snd step) \<and> fst (opts ! k) < fst hi)"
proof -
  let ?n = "steps_between (fst lo) (fst hi) (fst step)"
  let ?opts = "stepwise lo step ?n"
  have pos: "0 < unat (fst step)" using assms(2) by (simp add: unat_gt_0)
  have nth: "unat (fst (?opts ! k)) = unat (fst lo) + k * unat (fst step)
      \<and> unat (snd (?opts ! k)) = unat (snd lo) + k * unat (snd step) \<and> fst (?opts ! k) < fst hi" if "k < ?n" for k
  proof -
    have k: "k < unat ((fst hi - fst lo) div fst step)" using that by (simp add: steps_between_eq [OF assms(1)])
    have "unat (fst lo) + k * unat (fst step) < unat (fst hi)" by (rule steps_fit(2) [OF assms(1) k])
    with stepwise_nth [OF that steps_in_range(2,3,1) [OF assms(1,3) k]] show ?thesis by (simp add: word_less_nat_alt)
  qed
  have len: "length ?opts = ?n" by (simp add: stepwise_def)
  have "distinct ?opts"
  proof (unfold distinct_conv_nth len, intro allI impI)
    fix i j assume "i < ?n" "j < ?n" "i \<noteq> j"
    with nth [of i] nth [of j] pos show "?opts ! i \<noteq> ?opts ! j" by auto
  qed
  with nth len resolution_steps [OF assms] show ?thesis by (intro exI [of _ ?opts]) (simp add: steps_between_def)
qed

theorem resolution_options_spec_witness:
  "\<exists>opts. get_resolution_options True (StepwiseResolutions (320, 240) (1280, 960) (320, 240)) = Ok opts
    \<and> length opts = 3 \<and> distinct opts \<and> unat (fst (opts ! 2)) = 960 \<and> fst (opts ! 2) < 1280"
proof -
  have h: "fst (320, 240) \<le> fst (1280 :: u32, 960 :: u32)" "fst (320 :: u32, 240 :: u32) \<noteq> 0"
    "other_fits (snd (320 :: u32, 240)) (snd (320 :: u32, 240)) (steps_between (fst (320, 240 :: u32)) (fst (1280, 960 :: u32)) (fst (320, 240 :: u32)))"
    by (simp_all add: other_fits_def steps_between_def)
  from resolution_options_spec [OF h, of True] show ?thesis by auto
qed

section \<open>A camera is started with what it supports\<close>

lemma first_option_in: "first_option xs = Ok x \<Longrightarrow> x \<in> set xs"
  by (auto simp: first_option_def split: list.splits)

text \<open>A setting is what was asked for when the camera supports it, and the first option otherwise.\<close>

lemma get_format_in: "get_format env fmts = Ok f \<Longrightarrow> f \<in> set fmts"
  by (auto simp: get_format_def Let_def split: if_splits dest: first_option_in)

lemma get_resolution_in: "get_resolution checks env info = Ok r \<Longrightarrow>
    \<exists>opts. get_resolution_options checks info = Ok opts \<and> r \<in> set opts"
  by (auto simp: get_resolution_def Let_def res_then_Ok split: if_splits dest: first_option_in)

lemma get_interval_in: "get_interval checks env info = Ok r \<Longrightarrow>
    \<exists>opts. get_interval_options checks info = Ok opts \<and> r \<in> set opts"
  by (auto simp: get_interval_def res_then_Ok split: if_splits dest: first_option_in)

text \<open>
  On a camera that lists its formats, resolutions and intervals, the broker panics before it
  has started the camera, or it makes exactly one call to start it, with a format, a
  resolution and an interval that the camera supports together.
\<close>

definition lists_options :: "'w rscam \<Rightarrow> string list \<Rightarrow> (string \<Rightarrow> ResolutionInfo) \<Rightarrow> (string \<Rightarrow> Resolution \<Rightarrow> IntervalInfo)
    \<Rightarrow> bool" where
  "lists_options cam fmts res ivl \<longleftrightarrow> formats cam = return (map (\<lambda>f. Ok (Some f)) fmts)
     \<and> resolutions cam = (\<lambda>f. return (Ok (res f))) \<and> intervals cam = (\<lambda>f r. return (Ok (ivl f r)))"

definition supported :: "bool \<Rightarrow> string list \<Rightarrow> (string \<Rightarrow> ResolutionInfo) \<Rightarrow> (string \<Rightarrow> Resolution \<Rightarrow> IntervalInfo) \<Rightarrow> Config \<Rightarrow> bool"
where
  "supported checks fmts res ivl c \<longleftrightarrow> cc_format c \<in> set fmts
     \<and> (\<exists>rs. get_resolution_options checks (res (cc_format c)) = Ok rs \<and> cc_resolution c \<in> set rs)
     \<and> (\<exists>is. get_interval_options checks (ivl (cc_format c) (cc_resolution c)) = Ok is \<and> cc_interval c \<in> set is)"

lemma unwrap_formats_map [simp]: "unwrap_formats (map (\<lambda>f. Ok (Some f)) fmts) = Ok fmts"
  by (induction fmts) auto

text \<open>None of the choices returns an error: they return a value or panic.\<close>

lemma u32_not_Err [simp]: "u32_sub checks a b \<noteq> Err e" "u32_add checks a b \<noteq> Err e" "u32_mul checks a b \<noteq> Err e" "u32_div a b \<noteq> Err e"
  by (simp_all add: u32_sub_def u32_add_def u32_mul_def u32_div_def)

lemma res_then_Err: "res_then r f = Err e \<longleftrightarrow> r = Err e \<or> (\<exists>a. r = Ok a \<and> f a = Err e)"
  by (cases r) auto

lemma push_options_not_Err [simp]: "push_options checks lo step ns acc \<noteq> Err e"
  by (induction ns arbitrary: acc) (auto simp: res_then_Err)

lemma options_not_Err [simp]: "get_resolution_options checks ri \<noteq> Err e" "get_interval_options checks ii \<noteq> Err e"
  by (auto simp: get_resolution_options_def get_interval_options_def res_then_Err
      split: ResolutionInfo.split IntervalInfo.split)

lemma first_option_not_Err [simp]: "first_option xs \<noteq> Err e" "unwrap_parsed s \<noteq> Err e"
  by (simp_all add: first_option_def unwrap_parsed_def split: list.split option.split)

lemma choice_not_Err [simp]: "get_format env fmts \<noteq> Err e" "get_resolution checks env ri \<noteq> Err e" "get_interval checks env ii \<noteq> Err e"
proof -
  show "get_format env fmts \<noteq> Err e" by (simp add: get_format_def Let_def)
  have "get_env_var_resolution env \<noteq> Err e" for e
    by (auto simp: get_env_var_resolution_def res_then_Err split: option.split)
  then show "get_resolution checks env ri \<noteq> Err e"
    by (auto simp: get_resolution_def Let_def res_then_Err)
  show "get_interval checks env ii \<noteq> Err e"
    by (auto simp: get_interval_def res_then_Err split: option.split)
qed

theorem camera_started:
  assumes "lists_options cam fmts res ivl" "RsCamera_new cam devnode = return (Ok ())"
  shows "(\<exists>p. run_state (build_and_start_camera_capturer checks cam env devnode) w = (Panic p, w))
    \<or> (\<exists>c. supported checks fmts res ivl c
        \<and> run_state (build_and_start_camera_capturer checks cam env devnode) w = run_state (unwrapped (start_camera cam c)) w)"
proof -
  note run = assms(1) [unfolded lists_options_def] assms(2) build_and_start_camera_capturer_def try_then_def unwrapped_def
  show ?thesis
  proof (cases "get_format env fmts")
    case F: (Ok f)
    show ?thesis
    proof (cases "get_resolution checks env (res f)")
      case R: (Ok r)
      show ?thesis
      proof (cases "get_interval checks env (ivl f r)")
        case I: (Ok i)
        let ?c = "\<lparr>cc_interval = i, cc_resolution = r, cc_format = f\<rparr>"
        have "supported checks fmts res ivl ?c"
          using get_format_in [OF F] get_resolution_in [OF R] get_interval_in [OF I] by (simp add: supported_def)
        moreover have "run_state (build_and_start_camera_capturer checks cam env devnode) w
            = run_state (unwrapped (start_camera cam ?c)) w" by (simp add: run F R I)
        ultimately show ?thesis by blast
      qed (simp_all add: run F R)
    qed (simp_all add: run F)
  qed (simp_all add: run)
qed

text \<open>
  A camera that reports one resolution as a range from it to itself cannot be used: the range
  has no whole step, so that there is nothing to choose.
\<close>

lemma get_resolution_single: "fst step \<noteq> 0 \<Longrightarrow> \<not> is_ok (get_resolution checks env (StepwiseResolutions lo lo step))"
  by (cases "get_env_var_resolution env")
     (simp_all add: get_resolution_def resolution_steps other_fits_def u32_bound [simplified] steps_between_def stepwise_def first_option_def)

section \<open>Serving frames\<close>

text \<open>
  \<open>util/camera_service.rs\<close> and \<open>main\<close>. The server address is parsed as the standard library
  parses an IPv4 socket address: four decimal numbers of at most three digits below 256, and a
  port below 65536. The address here is a constant, so other forms do not matter.
\<close>

definition CAMERA_SERVICE_SERVER_ADDRESS :: string where "CAMERA_SERVICE_SERVER_ADDRESS = ''0.0.0.0''"
definition CAMERA_SERVICE_TEST_LOCALHOST :: string where "CAMERA_SERVICE_TEST_LOCALHOST = ''127.0.0.1''"
definition CAMERA_SERVICE_PORT :: string where "CAMERA_SERVICE_PORT = ''8083''"

definition parse_below :: "nat \<Rightarrow> string \<Rightarrow> nat option" where
  "parse_below bound s = (if s = [] then None else case parse_digits s 0 of
       Some n \<Rightarrow> if n < bound then Some n else None
     | None \<Rightarrow> None)"

definition parse_socket_addr :: "string \<Rightarrow> (nat list \<times> nat) option" where
  "parse_socket_addr s = (case split_char CHR '':'' s of
       [ip, port] \<Rightarrow> (let octets = map (\<lambda>p. if length p \<le> 3 then parse_below 256 p else None) (split_char CHR ''.'' ip)
          in if length octets = 4 \<and> None \<notin> set octets then
               map_option (\<lambda>p. (map the octets, p)) (parse_below 65536 port)
             else None)
     | _ \<Rightarrow> None)"

record CameraService =
  cs_devnode :: string

record NotifyResponse =
  frame :: "8 word list"
  nr_camera :: string

text \<open>
  The environment of the broker: the metric, the camera, tonic, the clock, and the channel on
  which the shutdown signal arrives. \<open>spawn_camera_server\<close> starts the task that serves.
\<close>

record 'w broker_rt =
  frame_count_inc :: "('w, unit) state"
  capture :: "('w, 8 word list) io"
  spawn_camera_server :: "CameraService \<Rightarrow> nat list \<times> nat \<Rightarrow> ('w, unit) state"
  camera_connect :: "string \<Rightarrow> ('w, unit) io"
  broker_time_secs :: "('w, nat) io"
  broker_delay_for :: "nat \<Rightarrow> ('w, unit) state"
  exit_recv :: "('w, unit) io"

definition get_frame :: "'w broker_rt \<Rightarrow> CameraService \<Rightarrow> ('w, NotifyResponse) io" where
  "get_frame rt self = do {
     _ \<leftarrow> frame_count_inc rt;
     try_then (unwrapped (capture rt)) (\<lambda>fr. return (Ok \<lparr>frame = fr, nr_camera = cs_devnode self\<rparr>))
   }"

text \<open>
  The generated client and server of \<open>util/camera.rs\<close>; the server is \<open>CameraServer::new\<close>, and tonic's
  part for the one method is a parameter.
\<close>

type_synonym ('w, 'i) CameraServer = "(unit \<Rightarrow> ('w, NotifyResponse) io, 'i) grpc_inner"

definition CameraServer_new :: "(unit \<Rightarrow> ('w, NotifyResponse) io) \<Rightarrow> ('w, 'i) CameraServer" where
  "CameraServer_new inner = \<lparr>implementation = inner, interceptor = None\<rparr>"

definition CameraServer_with_interceptor :: "(unit \<Rightarrow> ('w, NotifyResponse) io) \<Rightarrow> 'i \<Rightarrow> ('w, 'i) CameraServer" where
  "CameraServer_with_interceptor inner i = \<lparr>implementation = inner, interceptor = Some i\<rparr>"

definition CameraServer_call :: "('w, 'i, 'b, unit, NotifyResponse) server_method \<Rightarrow> ('w, 'i) CameraServer
    \<Rightarrow> ('w, 'b) http_service" where
  "CameraServer_call unary self req =
     (if uri_path req = ''/camera.Camera/GetFrame'' then
        unary (interceptor self) (\<lambda>request. implementation self request) req
      else return unimplemented)"

definition client_get_frame :: "('w, unit) io \<Rightarrow> ('w, unit, NotifyResponse) client_method \<Rightarrow> unit \<Rightarrow> ('w, NotifyResponse) io" where
  "client_get_frame ready unary = client_call ready unary ''/camera.Camera/GetFrame''"

text \<open>\<open>Ok False\<close> when the loop is still running after \<open>n\<close> iterations, \<open>Ok True\<close> for \<open>Ok(())\<close>.\<close>

definition serve_camera :: "'w broker_rt \<Rightarrow> string \<Rightarrow> nat \<Rightarrow> ('w, bool) io" where
  "serve_camera rt devnode n =
     (let addr_str = CAMERA_SERVICE_SERVER_ADDRESS @ '':'' @ CAMERA_SERVICE_PORT
      in case parse_socket_addr addr_str of
           None \<Rightarrow> return (Err (Msg ''Unable to parse socket''))
         | Some addr \<Rightarrow> do {
             _ \<leftarrow> spawn_camera_server rt \<lparr>cs_devnode = devnode\<rparr> addr;
             try_then (expecting ''Time went backwards'' (broker_time_secs rt)) (\<lambda>start.
               try_then (wait_for_server (broker_time_secs rt)
                   (camera_connect rt (concat [''http://'', CAMERA_SERVICE_TEST_LOCALHOST, '':'', CAMERA_SERVICE_PORT]))
                   (broker_delay_for rt) (start + 10) False n) (\<lambda>ended.
                 return (case ended of
                     None \<Rightarrow> Ok False
                   | Some connected \<Rightarrow> if \<not> connected then Err (Msg (''Could not connect to Camera server '' @ addr_str))
                       else Ok True)))
           })"

definition broker_main :: "bool \<Rightarrow> 'w broker_rt \<Rightarrow> 'w rscam \<Rightarrow> (string \<Rightarrow> string option) \<Rightarrow> nat \<Rightarrow> ('w, bool) io" where
  "broker_main checks rt cam get_env_var n =
     try_then (return (get_video_devnode get_env_var)) (\<lambda>devnode.
     try_then (build_and_start_camera_capturer checks cam get_env_var devnode) (\<lambda>_.
     try_then (unwrapped (serve_camera rt devnode n)) (\<lambda>ended.
       if \<not> ended then return (Ok False)
       else try_then (unwrapped (exit_recv rt)) (\<lambda>_. return (Ok True)))))"

lemma server_address: "parse_socket_addr (CAMERA_SERVICE_SERVER_ADDRESS @ '':'' @ CAMERA_SERVICE_PORT) = Some ([0, 0, 0, 0], 8083)"
  by (simp add: parse_socket_addr_def parse_below_def digit_value_def CAMERA_SERVICE_SERVER_ADDRESS_def CAMERA_SERVICE_PORT_def)

text \<open>
  With a clock that sleeping moves on, the broker decides within eleven iterations whether its
  server can be reached; the address is well formed, so that error never occurs.
\<close>

theorem serve_camera_decides:
  assumes P: "\<And>url. polled_server (broker_time_secs rt) (camera_connect rt url) (broker_delay_for rt) clock"
  shows "wp (serve_camera rt devnode 11) (\<lambda>r _. r \<noteq> Ok False) w"
proof -
  let ?url = "concat [''http://'', CAMERA_SERVICE_TEST_LOCALHOST, '':'', CAMERA_SERVICE_PORT]"
  have loop: "wp (wait_for_server (broker_time_secs rt) (camera_connect rt ?url) (broker_delay_for rt) (clock w1 + 10) False 11)
      (\<lambda>r _. r \<noteq> Ok None) w2" if "clock w1 \<le> clock w2" for w1 w2
    by (rule polled_server.wp_wait_for_server [OF P]) (use that in simp)
  have "wp (broker_time_secs rt) (\<lambda>r w2. r = Ok (clock w1) \<and> clock w1 \<le> clock w2) w1" for w1
    by (rule polled_server.time_law [OF P])
  then have timed: "wp (expecting msg (broker_time_secs rt)) (\<lambda>r w2. r = Ok (clock w1) \<and> clock w1 \<le> clock w2) w1" for msg w1
    unfolding expecting_def wp_bind wp_return by (rule wp_mono) simp
  have body: "wp (try_then (expecting msg (broker_time_secs rt)) (\<lambda>start. try_then (wait_for_server (broker_time_secs rt)
      (camera_connect rt ?url) (broker_delay_for rt) (start + 10) False 11) (\<lambda>ended. return (case ended of
        None \<Rightarrow> Ok False | Some connected \<Rightarrow> if \<not> connected then Err e else Ok True)))) (\<lambda>r _. r \<noteq> Ok False) w1" for msg e w1
    by (rule wp_try_then_ok [OF timed], unfold wp_try_then, rule wp_mono [OF loop], assumption)
       (auto split: result.split option.split)
  show ?thesis unfolding serve_camera_def Let_def server_address option.case wp_bind by (rule wp_any) (rule body)
qed

text \<open>
  A client that asks the server for a frame gets what the camera captures, under the name of the
  device, and a status when capturing fails; every request is counted.
\<close>

theorem frame_served:
  assumes "rpc_method cu su enc rep rd"
  shows "client_get_frame (return (Ok ())) (cu (CameraServer_call su (CameraServer_new (\<lambda>_. get_frame rt cs)))) () = do {
      _ \<leftarrow> frame_count_inc rt;
      r \<leftarrow> capture rt;
      return (case r of Ok fr \<Rightarrow> Ok \<lparr>frame = fr, nr_camera = cs_devnode cs\<rparr> | _ \<Rightarrow> Err (Msg ''transport error''))
    }"
proof -
  let ?svc = "CameraServer_call su (CameraServer_new (\<lambda>_. get_frame rt cs))"
  have "cu ?svc () ''/camera.Camera/GetFrame'' = do { r \<leftarrow> get_frame rt cs; return (received_result r) }"
    by (rule rpc_method.routed [OF assms]) (simp add: CameraServer_call_def CameraServer_new_def)
  moreover have "do { r \<leftarrow> try_then (unwrapped (capture rt)) (\<lambda>fr. return (Ok \<lparr>frame = fr, nr_camera = cs_devnode cs\<rparr>));
      return (received_result r) } = do { r \<leftarrow> capture rt;
      return (case r of Ok fr \<Rightarrow> Ok \<lparr>frame = fr, nr_camera = cs_devnode cs\<rparr> | _ \<Rightarrow> Err (Msg ''transport error'')) }"
    unfolding try_then_def unwrapped_def bind_assoc bind_left_identity
    by (intro arg_cong2 [where f = State_Monad.bind] refl ext) (simp add: received_result_def split: result.split)
  ultimately show ?thesis by (simp add: client_get_frame_def get_frame_def)
qed

end
