(* ===== verification/Spec2Isabelle.thy ===== *)
theory Spec2Isabelle
  imports Stop_Handshake Slot_Convergence
    Udev_Discovery Onvif_Discovery Opcua_Discovery Webhook Video_Broker
begin

text \<open>
  A verification library for Akri, which makes the leaf devices around a Kubernetes cluster
  (cameras, USB devices, OPC UA servers) available as resources of the cluster.

  \<^bold>\<open>The program.\<close> A \<open>Configuration\<close> says which devices to look for. On every node an \<^emph>\<open>Agent\<close> runs
  a discovery handler for each Configuration; for each device found it keeps an \<open>Instance\<close> in the
  cluster and serves a Kubernetes device plugin that offers the Instance's slots to the kubelet. A
  slot is free or held by a node; the Agent claims it when the kubelet allocates it, and a periodic
  reconciliation with the containers that run on the node repairs what was lost. The \<^emph>\<open>Controller\<close>
  watches Instances, nodes and Pods: it creates and removes the broker Pods of an Instance, makes
  Services for them, and cleans up Instances when a node goes away. A \<^emph>\<open>webhook\<close> admits
  Configurations. Agents and Controller meet only in the objects of the API server, through the
  trait \<open>KubeInterface\<close>.

  \<^bold>\<open>How code is modelled.\<close> A function that returns \<open>Result\<close> and may panic gives a \<open>result\<close> with
  \<open>Ok\<close>, \<open>Err\<close> and \<open>Panic\<close>; code that talks to its environment is a computation \<open>('w, 'a) io\<close> of the
  library's state monad over an environment type \<open>'w\<close> left open, and \<open>try_then\<close> is the operator \<open>?\<close>
  (theory \<open>Akri_Prelude\<close>). Structures are records, enumerations are datatypes, and a \<open>HashMap\<close> is an
  association list of which the theorems use only the lookups. Crates and the operating system
  are parameters: records of operations (\<open>kube_client\<close>, \<open>dps_rt\<close>, \<open>serve_rt\<close>, \<open>config_rt\<close>,
  \<open>slot_rt\<close>, \<open>controller_rt\<close>, \<open>plugin_grpc\<close>, \<open>broker_rt\<close>, \<open>regex_crate\<close>, \<open>Enumerator\<close>, \<open>onvif_env\<close>, \<open>onvif_probe\<close>, \<open>opcua_env\<close>, \<open>serde\<close>),
  with what the code relies on stated as the assumptions of a locale or as a named hypothesis;
  each has an executable instance against which the witnesses run. Logging is left out, and an error
  message keeps its fixed part without the debug output interpolated into it.

  \<^bold>\<open>Theories and sources.\<close>
  \<^item> \<open>Akri_Prelude\<close>, \<open>K8s_Objects\<close>: outcomes, weakest preconditions (\<open>wp\<close>), maps, printing of numbers;
    the Kubernetes objects with the fields the sources touch, the rest of each object opaque.
  \<^item> \<open>Akri_Types\<close>: \<open>shared/src/akri/{mod,configuration,instance}.rs\<close>, \<open>agent/src/util/constants.rs\<close>.
  \<^item> \<open>Kube_Interface\<close>, \<open>Kube_Impl\<close>: \<open>shared/src/k8s/{mod,node,pod,service}.rs\<close> and the client calls of
    \<open>configuration.rs\<close> and \<open>instance.rs\<close>, request by request.
  \<^item> \<open>Kube_Store\<close>: the contract of a store of Instances (locale \<open>kube_store\<close>, \<open>reliable_store\<close> when
    calls that can succeed do), the API server's documented behaviour (\<open>api_server\<close>), the sublocale
    declaration that \<open>KubeImpl\<close> over it keeps the contract, and an executable cluster.
  \<^item> \<open>Broker_Objects\<close>: the builders of \<open>pod.rs\<close> and \<open>service.rs\<close>.
  \<^item> \<open>Server_Wait\<close>, \<open>Grpc\<close>: the loop that waits for a server that was just started, and what generated
    gRPC code has in common (\<open>rpc_method\<close>: one method over a transport that loses nothing, an idealisation).
  \<^item> \<open>Device_Plugin\<close>: \<open>agent/src/util/device_plugin_service.rs\<close>; \<open>Plugin_Api\<close>: the clients and servers
    generated from the kubelet's API (\<open>v1beta1.rs\<close>) with the service behind them; \<open>Slot_Reconciliation\<close>:
    \<open>slot_reconciliation.rs\<close> and \<open>crictl_containers.rs\<close>; \<open>Slot_Convergence\<close>: where the passes of all
    Agents lead, as runs of a function on single slots; \<open>Config_Action\<close>: \<open>config_action.rs\<close> with its metrics.
  \<^item> \<open>Discovery\<close>: \<open>agent/src/protocols/mod.rs\<close> and the debug echo handler; \<open>Udev_Rule\<close> and
    \<open>Udev_Discovery\<close>: \<open>protocols/udev\<close> with its grammar; \<open>Onvif_Query\<close> and \<open>Onvif_Discovery\<close>:
    \<open>shared/src/onvif/mod.rs\<close> and \<open>protocols/onvif\<close>; \<open>Opcua_Discovery\<close>: \<open>protocols/opcua\<close>.
  \<^item> \<open>Pod_Action\<close>, \<open>Instance_Action\<close>, \<open>Node_Watcher\<close>, \<open>Pod_Watcher\<close>: the files of the same names in
    \<open>controller/src/util\<close>.
  \<^item> \<open>Webhook\<close>: \<open>webhooks/validating/configuration/src/main.rs\<close>.
  \<^item> \<open>Video_Broker\<close>: the sample broker for USB cameras, \<open>camera_capturer.rs\<close> on 32-bit words, for builds
    that check overflow and builds that wrap around, \<open>camera_service.rs\<close>, the generated \<open>camera.rs\<close> and
    \<open>main\<close>.
  \<^item> \<open>Kube_Tasks\<close>: tasks that run at the same time on one cluster, as a step relation over their calls.
    \<open>Cluster\<close>: the entry points of Agent and Controller (\<open>agent/src/main.rs\<close>, \<open>controller/src/main.rs\<close>),
    the tasks they start, and the invariant that all of them keep together. \<open>Stop_Handshake\<close>: the task
    that deletes a Configuration and the one that discovers for it, run side by side over their channels.
  \<^item> This theory: the slots over whole runs, and the handlers that \<open>get_discovery_handler\<close> chooses from.

  \<^bold>\<open>What is shown.\<close>
  \<^item> Slots. A claim takes only a free slot and never one of another node; who owns the slot decides
    the outcome; reconciliation claims what is in use on the node and frees only what the node held,
    unused for longer than the grace period; a node clean-up removes only that node. On a cluster
    that answers, two rounds of reconciliation by all Agents, more than a grace period apart, leave
    every slot with the node that uses it, whatever was on record (\<open>reconciliation_converges\<close>, for
    passes that do not overlap and Instances that share no slot name). Whatever tasks
    of Agents and Controller run at the same time and however their calls interleave, an Instance
    keeps its slots, its Configuration and its sharing and stays well formed (\<open>cluster_invariant\<close>);
    over runs one after the other, a slot moreover changes only as its owner allows
    (\<open>slots_invariant\<close>).
  \<^item> The interface. \<open>KubeImpl\<close> refines the store contract (\<open>KubeImpl_refines_store\<close>); all theorems
    about Agents and Controller that need a cluster are proved from the contract. They hold
    whatever the calls return; completeness statements ask for \<open>reliable_store\<close>.
  \<^item> Instances and device plugins: creation, capacity, reported devices, the end of
    \<open>list_and_watch\<close>, what the kubelet is told (\<open>list_and_watch_report\<close>), the waiting loop of \<open>serve\<close>, on
    an ideal transport the kubelet's calls over the generated client and server (\<open>plugin_served\<close>) and
    the registration, rounds of discovery, deletion of Configurations, and the outcomes of the
    handshake between deletion and discovery over all interleavings (\<open>stop_handshake_outcomes\<close>).
  \<^item> Brokers: labels, resources and selectors of the objects built; the decision about one Pod, the
    plan for an Instance and the exact calls it leads to; the two watchers as refinements of small
    state machines; which Services are made and removed.
  \<^item> Discovery: the udev grammar round trip, the search for devices against what the rule says, and
    for each protocol which devices the handler returns and when it panics instead. The webhook's
    comparison against its meaning by paths, and its decision against every value of a Configuration. The resolutions of a camera without overflow, that the sample broker starts a
    camera only with what it supports, that it decides whether its server is up, and that a client
    gets the captured frame.
  \<^item> Errors and panics: the theorems say on which branches the code gives up, also where that was
    hardly meant (a second reading of the map, two claims of one slot, a comma left out, a review
    that panics).

  \<^bold>\<open>Loops.\<close> Retries run over the list \<open>tries\<close> of the five values of \<open>0..MAX_INSTANCE_UPDATE_TRIES\<close>,
  so they need no fuel. The waiting loop of \<open>serve\<close>, which the sample broker has too, takes fuel and is
  shown to return within eleven iterations on a host whose clock is not set back (its deadline is
  compared with the system time, so without that the loop need not end). The loops that the program never leaves by itself (\<open>list_and_watch\<close>, the
  periodic reconciliation, the discovery of a Configuration) take the number of rounds as an
  argument; the theorems are about one round or hold for every number. Watch loops run over the list
  of events delivered to them. The parsers and the comparison of JSON values terminate by a measure.

  \<^bold>\<open>Interleaving.\<close> Tasks meet at the API server: one call of \<open>KubeInterface\<close> is one step, and between
  two calls of a task any number of calls of other tasks may happen. In \<open>Kube_Tasks\<close> a task is the
  code as it is modelled, run against the answers it has had so far; because the code sees the
  server only through its calls, the answers determine the next call (\<open>next_call\<close>), and the step
  \<open>pool_step\<close> lets the store serve the next call of any one task, with any outcome the contract
  allows. What a task does apart from its calls works on a state of its own that may return
  anything, so what tasks on one node share in memory (the instance map, the channels) is covered
  too, though nothing is concluded about it. \<open>update_instance\<close>, which reads and patches, is one
  step: the patch itself is one request, and the read before it only fetches a resource version.
  The theorems about single functions in the other theories use the contract of \<open>kube_store\<close>, which
  has no other writer between two calls of one function; \<open>slots_invariant\<close> composes them over runs
  one after the other, and \<open>reconciliation_converges\<close> those of slot reconciliation. What overlapping
  claims can do is \<open>slot_claimed_twice\<close> and the witness of
  \<open>cluster_invariant\<close>: two kubelets allocate the same free slot and both are told that they hold it.
  Inside the Agent the instance map is read and written under separate locks, as in the source. The
  channels between deletion and discovery are looked at in \<open>Stop_Handshake\<close>: each task is again its own
  code, replayed against the outcomes its operations on the channels have had, and a step performs
  the next operation of one of them.

  \<^bold>\<open>Specifications.\<close> What a theorem compares the code with is written down without the code's own
  functions: which Pods a node should have (\<open>desired\<close>), what a container is given (\<open>container_given\<close>),
  when a filter accepts (\<open>whole_match\<close>), when a Pod is over (\<open>pod_over\<close>), what a camera or an endpoint
  contributes (\<open>camera_result\<close>, \<open>endpoint_urls\<close>), which values the webhook leaves out (\<open>ignored\<close>).

  \<^bold>\<open>Not modelled.\<close> The metrics server and the set-up of logging; signal handling
  (\<open>shared/src/os/signal.rs\<close>, whose future the sample broker never polls); \<open>ActualEnvVarQuery\<close>, which
  passes on \<open>std::env::var\<close>; how long a random delay takes (\<open>random_delay\<close>); the webhook's command line, TLS and HTTP server; how prost encodes
  messages; the adapters that hand calls on to \<open>udev\<close>, \<open>opcua\<close> and to Unix sockets unchanged; code that
  is compiled for tests only.
\<close>

section \<open>The slots of an Instance over time\<close>

text \<open>
  The operations of the Agents and of the Controller that write the slots of existing
  Instances, one after the other, on one cluster: an Agent claims a slot or allocates a
  request, an Agent reconciles the slots with the containers of its node, the Controller
  cleans up after a node. Each step is a whole run of the code, with whatever it returns.
\<close>

inductive slot_operation :: "'w kube_interface \<Rightarrow> 'w dps_rt \<Rightarrow> 'w controller_rt \<Rightarrow> ('w, nat) state \<Rightarrow> string set
    \<Rightarrow> 'w \<Rightarrow> 'w \<Rightarrow> bool"
  for ki rt crt now N where
  claim: "node \<in> N \<Longrightarrow> run_state (try_update_instance_device_usage rt slot node nm ns ki) w = (r, w')
    \<Longrightarrow> slot_operation ki rt crt now N w w'"
| allocate: "dps_node_name self \<in> N \<Longrightarrow> run_state (internal_allocate rt self ki reqs) w = (r', w')
    \<Longrightarrow> slot_operation ki rt crt now N w w'"
| reconciliation: "node \<in> N \<Longrightarrow> run_state (reconcile node grace now (return (Ok usage)) ki m) w = (m', w')
    \<Longrightarrow> slot_operation ki rt crt now N w w'"
| clean_up: "run_state (handle_node_disappearance crt v ki) w = (r, w')
    \<Longrightarrow> slot_operation ki rt crt now N w w'"

inductive_cases slot_operationE: "slot_operation ki rt crt now N w w'"

text \<open>
  What never changes between two states of an Instance: it stays well formed, keeps its
  Configuration, whether it is shared and exactly its slots; a slot has its old owner, is
  free, or has an owner among \<open>N\<close>; no node is added.
\<close>

definition owner_kept :: "string set \<Rightarrow> string option \<Rightarrow> string option \<Rightarrow> bool" where
  "owner_kept N own own' \<longleftrightarrow> own' = own \<or> own \<noteq> None \<and> own' \<in> insert (Some '''') (Some ` N)"

definition slots_kept :: "string set \<Rightarrow> Instance \<Rightarrow> Instance \<Rightarrow> bool" where
  "slots_kept N i i' \<longleftrightarrow> instance_wf i' \<and> configuration_name i' = configuration_name i \<and> shared i' = shared i
     \<and> set (nodes i') \<subseteq> set (nodes i) \<and> (\<forall>s. owner_kept N (slot_owner i s) (slot_owner i' s))"

definition store_kept :: "string set \<Rightarrow> inst_store \<Rightarrow> inst_store \<Rightarrow> bool" where
  "store_kept N st st' \<longleftrightarrow> (\<forall>k. rel_option (\<lambda>x x'. slots_kept N (spec x) (spec x')) (st k) (st' k))"

definition store_wf :: "inst_store \<Rightarrow> bool" where
  "store_wf st \<longleftrightarrow> (\<forall>x \<in> ran st. instance_wf (spec x))"

lemma slots_kept_refl: "instance_wf i \<Longrightarrow> slots_kept N i i"
  by (simp add: slots_kept_def owner_kept_def)

lemma owner_kept_trans: "owner_kept N a b \<Longrightarrow> owner_kept N b c \<Longrightarrow> owner_kept N a c"
  by (auto simp: owner_kept_def)

lemma slots_kept_trans: "slots_kept N i i' \<Longrightarrow> slots_kept N i' i'' \<Longrightarrow> slots_kept N i i''"
  unfolding slots_kept_def by (metis owner_kept_trans subset_trans)

lemma store_kept_trans: "store_kept N st st' \<Longrightarrow> store_kept N st' st'' \<Longrightarrow> store_kept N st st''"
proof (unfold store_kept_def, rule allI)
  fix k assume "\<forall>k. rel_option (\<lambda>x x'. slots_kept N (spec x) (spec x')) (st k) (st' k)"
    "\<forall>k. rel_option (\<lambda>x x'. slots_kept N (spec x) (spec x')) (st' k) (st'' k)"
  then have "rel_option (\<lambda>x x'. slots_kept N (spec x) (spec x')) (st k) (st' k)"
    "rel_option (\<lambda>x x'. slots_kept N (spec x) (spec x')) (st' k) (st'' k)" by blast+
  then show "rel_option (\<lambda>x x'. slots_kept N (spec x) (spec x')) (st k) (st'' k)"
    by (auto elim!: option.rel_cases intro: slots_kept_trans)
qed

lemma store_kept_wf: "store_kept N st st' \<Longrightarrow> store_wf st'"
proof (unfold store_wf_def, rule ballI)
  fix x' assume kept: "store_kept N st st'" and "x' \<in> ran st'"
  then obtain k where "st' k = Some x'" by (auto simp: ran_def)
  with kept have "rel_option (\<lambda>x x'. slots_kept N (spec x) (spec x')) (st k) (Some x')" unfolding store_kept_def by metis
  then show "instance_wf (spec x')" by (cases "st k") (auto simp: slots_kept_def)
qed

lemma store_keptI:
  assumes "\<And>k. rel_option (\<lambda>x x'. R (spec x) (spec x')) (st k) (st' k)" "store_wf st"
    and "\<And>i i'. instance_wf i \<Longrightarrow> R i i' \<Longrightarrow> slots_kept N i i'"
  shows "store_kept N st st'"
  unfolding store_kept_def
proof (rule allI)
  fix k
  show "rel_option (\<lambda>x x'. slots_kept N (spec x) (spec x')) (st k) (st' k)"
  proof (rule option.rel_mono_strong [OF assms(1)])
    fix x x' assume "x \<in> set_option (st k)" "R (spec x) (spec x')"
    moreover from this have "instance_wf (spec x)" using assms(2) by (simp add: store_wf_def ranI)
    ultimately show "slots_kept N (spec x) (spec x')" by (intro assms(3))
  qed
qed

lemma store_kept_refl: "store_wf st \<Longrightarrow> store_kept N st st"
  by (rule store_keptI [where R = "(=)"]) (auto simp: slots_kept_refl intro: option.rel_refl)

text \<open>The contracts of the operations give it for one step.\<close>

lemma slot_step_kept:
  assumes "slot_step I node i i'" "node \<in> N" "instance_wf i"
  shows "slots_kept N i i'"
proof -
  have "owner_kept N (slot_owner i s) (slot_owner i' s)" for s
    using assms(1) [unfolded slot_step_def] assms(2) by (auto simp: owner_kept_def dest!: spec [of _ s])
  with assms show ?thesis by (simp add: slots_kept_def slot_step_def same_besides_slots_def)
qed

lemma store_slot_step_kept:
  assumes "store_slot_step I node k st st'" "node \<in> N" "store_wf st"
  shows "store_kept N st st'"
proof (rule store_keptI [OF _ assms(3), where R = "slot_step I node"])
  fix k'
  show "rel_option (\<lambda>x x'. slot_step I node (spec x) (spec x')) (st k') (st' k')"
  proof (cases "k' = k")
    case False
    with assms(1) have "st' k' = st k'" unfolding store_slot_step_def by blast
    then show ?thesis by (simp add: option.rel_refl slot_step_refl)
  qed (use assms(1) in \<open>simp add: store_slot_step_def\<close>)
qed (rule slot_step_kept [OF _ assms(2)])

lemma reconciled_kept:
  assumes "reconciled node U st st'" "node \<in> N" "store_wf st"
  shows "store_kept N st st'"
proof (rule store_keptI [OF _ assms(3)])
  fix k show "rel_option (\<lambda>x x'. instance_change node U (spec x) (spec x')) (st k) (st' k)"
    using assms(1) unfolding reconciled_def by (rule spec)
next
  fix i i' assume wf: "instance_wf i" and ch: "instance_change node U i i'"
  have "owner_kept N (slot_owner i s) (slot_owner i' s)" for s
    using ch [unfolded instance_change_def] assms(2) by (auto simp: owner_kept_def slot_change_def dest!: spec [of _ s])
  with ch wf show "slots_kept N i i'" by (simp add: instance_change_def slots_kept_def same_besides_slots_def)
qed

lemma cleaned_kept:
  assumes "cleaned v st st'" "store_wf st"
  shows "store_kept N st st'"
proof (rule store_keptI [OF _ assms(2), where R = "\<lambda>i i'. instance_wf i' \<and> node_removed v i i'"])
  fix k show "rel_option (\<lambda>x x'. instance_wf (spec x') \<and> node_removed v (spec x) (spec x')) (st k) (st' k)"
    using assms(1) [unfolded cleaned_def, rule_format, of k] by (cases "st k") auto
next
  fix i i' assume r: "instance_wf i' \<and> node_removed v i i'"
  have "owner_kept N (slot_owner i s) (slot_owner i' s)" for s
    using r [unfolded node_removed_def] by (auto simp: owner_kept_def dest!: spec [of _ s])
  with r show "slots_kept N i i'" by (auto simp: node_removed_def slots_kept_def)
qed

lemma slot_operation_kept:
  assumes "slot_operation ki rt crt now N w w'" "store_wf (insts w)"
    and "dps_store ki insts rt imap" "clocked_store ki insts now" "controller_store ki insts crt"
  shows "store_kept N (insts w) (insts w')"
  using assms(1)
proof cases
  case (claim node slot nm ns r)
  then show ?thesis
    using wp_run [OF dps_store.wp_try_update [OF assms(3)]] assms(2) by (blast intro: store_slot_step_kept)
next
  case (allocate self reqs r')
  have "\<forall>s \<in> {}. owns (dps_node_name self) (dps_instance_name self, dps_config_namespace self) (insts w) s" by simp
  from wp_run [OF dps_store.wp_internal_allocate [OF assms(3) this] allocate(2)] allocate(1) assms(2) show ?thesis
    by (blast intro: store_slot_step_kept)
next
  case (reconciliation node grace usage m m')
  have wf: "\<forall>x \<in> ran (insts w). instance_wf (spec x)" using assms(2) by (simp add: store_wf_def)
  show ?thesis
    using wp_run [OF clocked_store.wp_reconcile [where reliable = False, OF assms(4) wf] reconciliation(2)] reconciliation(1) assms(2)
    by (auto simp: pass_post_def intro: reconciled_kept)
next
  case (clean_up v r)
  have wf: "\<forall>x \<in> ran (insts w). instance_wf (spec x)" using assms(2) by (simp add: store_wf_def)
  show ?thesis
    using wp_run [OF controller_store.wp_disappearance [OF assms(5) wf] clean_up] assms(2) by (blast intro: cleaned_kept)
qed

text \<open>
  In whatever order the Agents of the nodes \<open>N\<close> and the Controller run claims, allocations,
  reconciliations and clean-ups, and whatever of it fails: every Instance stays well formed,
  keeps its Configuration and its sharing, gains no node, and has exactly the slots it began
  with; every slot is free, has the owner it began with, or is held by a node of \<open>N\<close>.
\<close>

theorem slots_invariant:
  assumes "dps_store ki insts rt imap" "clocked_store ki insts now" "controller_store ki insts crt"
    and "store_wf (insts w)" and "(slot_operation ki rt crt now N)\<^sup>*\<^sup>* w w'"
  shows "store_kept N (insts w) (insts w')"
  using assms(5)
proof (induction rule: rtranclp_induct)
  case base
  then show ?case by (rule store_kept_refl [OF assms(4)])
next
  case (step w1 w2)
  from step.hyps(2) store_kept_wf [OF step.IH] assms(1-3) have "store_kept N (insts w1) (insts w2)"
    by (rule slot_operation_kept)
  with step.IH show ?case by (rule store_kept_trans)
qed

lemma sample_agent_wf: "store_wf (cluster_insts sample_agent)"
proof -
  have "cluster_insts sample_agent = cluster_insts sample_cluster"
    by (simp add: cluster_insts_def sample_agent_def fun_eq_iff cluster.extend_def)
  then show ?thesis using sample_wf by (simp add: store_wf_def)
qed

theorem slots_invariant_witness:
  "\<exists>w1 w2. slot_operation cluster_kube agent_rt sample_rt cluster_now {''node-b''} sample_agent w1
    \<and> slot_operation cluster_kube agent_rt sample_rt cluster_now {''node-b''} w1 w2
    \<and> store_kept {''node-b''} (cluster_insts sample_agent) (cluster_insts w2)"
proof -
  obtain r1 w1 where 1: "run_state (try_update_instance_device_usage agent_rt ''cam-0'' ''node-b'' ''cam'' ''ns'' cluster_kube)
      sample_agent = (r1, w1)" by (metis surj_pair)
  obtain r2 w2 where 2: "run_state (handle_node_disappearance sample_rt ''node-a'' cluster_kube) w1 = (r2, w2)"
    by (metis surj_pair)
  have steps: "slot_operation cluster_kube agent_rt sample_rt cluster_now {''node-b''} sample_agent w1"
    "slot_operation cluster_kube agent_rt sample_rt cluster_now {''node-b''} w1 w2"
    by (rule slot_operation.claim [OF _ 1], simp) (rule slot_operation.clean_up [OF 2])
  then have "(slot_operation cluster_kube agent_rt sample_rt cluster_now {''node-b''})\<^sup>*\<^sup>* sample_agent w2" by simp
  from slots_invariant [OF agent.dps_store_axioms cluster_clock.clocked_store_axioms
      cluster_controller.controller_store_axioms sample_agent_wf this] steps
  show ?thesis by blast
qed

section \<open>The discovery handlers of the Agent\<close>

text \<open>
  \<open>get_discovery_handler\<close> with the four handlers: the environments of the protocols are the
  parameters of their handlers.
\<close>

definition get_discovery_handler ::
  "'re regex_crate \<Rightarrow> ('w, 'w Enumerator) io \<Rightarrow> 'w onvif_probe \<Rightarrow> ('d, 'w) onvif_env \<Rightarrow> 'w opcua_env
   \<Rightarrow> (string \<Rightarrow> ('w, string) io) \<Rightarrow> (string \<Rightarrow> nat list) \<Rightarrow> string option \<Rightarrow> (string \<Rightarrow> string option)
   \<Rightarrow> ProtocolHandler \<Rightarrow> ('w discovery_handler, error) result" where
  "get_discovery_handler rx enumerator_new onvif_network onvif_http opcua_network read_to_string blake2b_3 node_name get_env_var =
     inner_get_discovery_handler
       (OnvifDiscoveryHandler onvif_network onvif_http blake2b_3 node_name)
       (UdevDiscoveryHandler rx enumerator_new blake2b_3 node_name)
       (OpcuaDiscoveryHandler opcua_network blake2b_3 node_name)
       (DebugEchoDiscoveryHandler read_to_string blake2b_3 node_name)
       get_env_var"

text \<open>Devices found over the network are shared between the nodes, those of the machine are not.\<close>

lemma handler_sharing:
  "get_discovery_handler rx en pr oh on rd h node env p = Ok dh \<Longrightarrow>
   are_shared dh = Ok (case p of onvif _ \<Rightarrow> True | udev _ \<Rightarrow> False | opcua _ \<Rightarrow> True | debugEcho c \<Rightarrow> de_shared c)"
  by (cases p) (auto simp: get_discovery_handler_def inner_get_discovery_handler_def OnvifDiscoveryHandler_def
      UdevDiscoveryHandler_def OpcuaDiscoveryHandler_def DebugEchoDiscoveryHandler_def split: option.splits)

end
